theory Spec2Isabelle
  imports Complex_Main "HOL-Library.Word"
begin

unbundle bit_operations_syntax

section \<open>Python values used by the pipeline\<close>

text \<open>
  Python strings are modelled as \<open>string\<close> (byte strings, already UTF-8 encoded).
  Python integers are unbounded: \<open>int\<close>.

  A finite Python float is kept as its sign bit and the exact rational magnitude of
  the binary value. The sign bit is separate because \<open>-0.0\<close> is a float of its
  own and formats with a minus sign. Every latitude and longitude that passes the
  message validation is finite, so NaN and the infinities do not occur there.
\<close>

datatype pyfloat = PyFloat (negative: bool) (magnitude: rat)

definition float_value :: "pyfloat \<Rightarrow> rat" where
  "float_value f = (if negative f then - \<bar>magnitude f\<bar> else \<bar>magnitude f\<bar>)"

definition digit_char :: "nat \<Rightarrow> char" where
  "digit_char d = ''0123456789'' ! d"

text \<open>\<open>str(n)\<close> for a natural number: decimal digits without leading zeros.\<close>

function str_nat :: "nat \<Rightarrow> string" where
  "str_nat n = (if n < 10 then [digit_char n] else str_nat (n div 10) @ [digit_char (n mod 10)])"
  by pat_completeness auto
termination
  by (relation "measure (\<lambda>n. n)") auto

declare str_nat.simps [simp del]

text \<open>\<open>str(i)\<close>, also what \<open>f"{i}"\<close> gives for an integer.\<close>

definition str_int :: "int \<Rightarrow> string" where
  "str_int i = (if i < 0 then CHR ''-'' # str_nat (nat (- i)) else str_nat (nat i))"

text \<open>\<open>f"{v}"\<close> for a field of type \<open>int | None\<close>.\<close>

fun fmt_opt_int :: "int option \<Rightarrow> string" where
  "fmt_opt_int None = ''None''"
| "fmt_opt_int (Some i) = str_int i"

text \<open>
  The fixed-point format \<open>f"{v:.6f}"\<close>. Python rounds the exact binary value to
  the nearest multiple of \<open>10\<^sup>-\<^sup>6\<close>, ties to the even neighbour, prints the
  integer part, a point and six digits, and a minus sign whenever the sign bit is set.
\<close>

definition round_half_even :: "rat \<Rightarrow> int" where
  "round_half_even r =
     (let f = \<lfloor>r\<rfloor>; d = r - of_int f
      in if d < 1 / 2 then f
         else if 1 / 2 < d then f + 1
         else if even f then f else f + 1)"

text \<open>The last \<open>k\<close> decimal digits of \<open>n\<close>, zeros included.\<close>

fun zero_padded :: "nat \<Rightarrow> nat \<Rightarrow> string" where
  "zero_padded 0 n = []"
| "zero_padded (Suc k) n = zero_padded k (n div 10) @ [digit_char (n mod 10)]"

definition scaled6 :: "pyfloat \<Rightarrow> nat" where
  "scaled6 f = nat (round_half_even (\<bar>magnitude f\<bar> * 1000000))"

definition format_6f :: "pyfloat \<Rightarrow> string" where
  "format_6f f =
     (if negative f then ''-'' else '''') @
     str_nat (scaled6 f div 1000000) @ ''.'' @ zero_padded 6 (scaled6 f mod 1000000)"

section \<open>Schema and identity (core/schema/models.py)\<close>

definition DEFAULT_GOOGLE_ZOOM :: int where
  "DEFAULT_GOOGLE_ZOOM = 18"

datatype ImagerySource = Mapbox | Google

fun source_name :: "ImagerySource \<Rightarrow> string" where
  "source_name Mapbox = ''mapbox''"
| "source_name Google = ''google''"

datatype SourceRef = SourceRef (source_bucket: string) (source_key: string)

record TileJobMessage =
  run_id :: string
  imagery_source :: ImagerySource
  source :: SourceRef
  z :: "int option"
  x :: "int option"
  y :: "int option"
  region :: "string option"
  lat :: "pyfloat option"
  lon :: "pyfloat option"
  zoom :: "int option"

text \<open>The \<open>Field\<close> bounds of an optional field hold when the field is present.\<close>

definition int_field_ok :: "int option \<Rightarrow> int \<Rightarrow> int option \<Rightarrow> bool" where
  "int_field_ok v lo hi =
     (case v of None \<Rightarrow> True
      | Some i \<Rightarrow> lo \<le> i \<and> (case hi of None \<Rightarrow> True | Some h \<Rightarrow> i \<le> h))"

definition float_field_ok :: "pyfloat option \<Rightarrow> rat \<Rightarrow> rat \<Rightarrow> bool" where
  "float_field_ok v lo hi =
     (case v of None \<Rightarrow> True | Some f \<Rightarrow> lo \<le> float_value f \<and> float_value f \<le> hi)"

text \<open>
  \<open>TileJobMessage\<close> as pydantic accepts it: the field bounds and then
  \<open>_validate_source_specific_fields\<close>.
\<close>

definition validate_source_specific_fields :: "TileJobMessage \<Rightarrow> bool" where
  "validate_source_specific_fields m =
     (if imagery_source m = Mapbox
      then \<not> (z m = None \<or> x m = None \<or> y m = None)
      else \<not> (lat m = None \<or> lon m = None))"

definition message_valid :: "TileJobMessage \<Rightarrow> bool" where
  "message_valid m =
     (int_field_ok (z m) 0 (Some 22) \<and> int_field_ok (x m) 0 None \<and> int_field_ok (y m) 0 None \<and>
      float_field_ok (lat m) (- 90) 90 \<and> float_field_ok (lon m) (- 180) 180 \<and>
      int_field_ok (zoom m) 0 (Some 22) \<and> validate_source_specific_fields m)"

datatype JobStatus = PENDING | PROCESSING | COMPLETED | FAILED

fun status_value :: "JobStatus \<Rightarrow> string" where
  "status_value PENDING = ''PENDING''"
| "status_value PROCESSING = ''PROCESSING''"
| "status_value COMPLETED = ''COMPLETED''"
| "status_value FAILED = ''FAILED''"

definition tile_id_for_coords :: "pyfloat \<Rightarrow> pyfloat \<Rightarrow> int \<Rightarrow> string" where
  "tile_id_for_coords la lo zm =
     ''coord:'' @ format_6f la @ '','' @ format_6f lo @ '','' @ str_int zm"

definition get_zoom :: "TileJobMessage \<Rightarrow> int" where
  "get_zoom m = (case zoom m of Some zm \<Rightarrow> zm | None \<Rightarrow> DEFAULT_GOOGLE_ZOOM)"

text \<open>
  \<open>get_tile_id\<close>. A Google message without \<open>lat\<close> or \<open>lon\<close> does not pass
  validation; formatting \<open>None\<close> with \<open>.6f\<close> raises \<open>TypeError\<close>, the result
  \<open>None\<close> here.
\<close>

definition get_tile_id :: "TileJobMessage \<Rightarrow> string option" where
  "get_tile_id m =
     (if imagery_source m = Mapbox
      then Some (fmt_opt_int (z m) @ ''/'' @ fmt_opt_int (x m) @ ''/'' @ fmt_opt_int (y m))
      else (case (lat m, lon m) of
              (Some la, Some lo) \<Rightarrow>
                Some (tile_id_for_coords la lo
                        (case zoom m of Some zm \<Rightarrow> zm | None \<Rightarrow> DEFAULT_GOOGLE_ZOOM))
            | _ \<Rightarrow> None))"


datatype S3Checkpoint = S3Checkpoint (checkpoint_bucket: string) (checkpoint_key: string)

datatype ClaimResult = CLAIMED | ALREADY_COMPLETED | LOCKED_BY_OTHER

record ClaimResultData =
  result :: ClaimResult
  tile_id :: string
  attempt :: "int option"
  claimed_at_epoch :: "int option"
  checkpoint :: "S3Checkpoint option"

section \<open>Exceptions\<close>

text \<open>
  An exception is its class and its message (\<open>str(exc)\<close>). The classes the
  pipeline distinguishes carry their fields: a botocore \<open>ClientError\<close> its error
  code, an \<open>ImageryFetchError\<close> its provider and optional HTTP status.
\<close>

datatype exn_class =
    ClientError string
  | ImageryFetchError ImagerySource "int option"
  | AnalysisError
  | TimeoutError
  | RuntimeError
  | TypeError
  | ValueError
  | KeyError
  | ValidationError
  | JSONDecodeError
  | AssertionError
  | OtherError string

datatype exn = Exn (exn_class: exn_class) (exn_str: string)

definition client_error :: "string \<Rightarrow> exn" where
  "client_error code = Exn (ClientError code) code"

section \<open>The key-value store behind the adapter\<close>

text \<open>
  The low-level client sends every number as text under \<open>N\<close>. The text is
  \<open>str(v)\<close> of a Python value: of an integer (\<open>IntText\<close>, the decimal text of
  that integer), of a float (\<open>FloatText\<close>, the repr of that float), or anything else
  (\<open>Text\<close>), such as \<open>str(None) = "None"\<close>. The store accepts a number only
  when its text is numeric. The decimal a float's repr denotes is taken to be the
  float's own value; the store's limits on magnitude and precision are not modelled.
\<close>

datatype num_text = IntText int | FloatText pyfloat | Text string

fun str_opt_int :: "int option \<Rightarrow> num_text" where
  "str_opt_int (Some i) = IntText i"
| "str_opt_int None = Text ''None''"

fun str_opt_float :: "pyfloat option \<Rightarrow> num_text" where
  "str_opt_float (Some f) = FloatText f"
| "str_opt_float None = Text ''None''"

fun num_value :: "num_text \<Rightarrow> rat option" where
  "num_value (IntText i) = Some (of_int i)"
| "num_value (FloatText f) = Some (float_value f)"
| "num_value (Text s) = None"

datatype 'n attr =
    S string
  | N 'n
  | BOOL bool
  | NULL
  | M "(string \<times> 'n attr) list"
  | L "'n attr list"

text \<open>A request value is acceptable when every number in it is numeric.\<close>

definition wire_ok :: "num_text attr \<Rightarrow> bool" where
  "wire_ok v = pred_attr (\<lambda>t. num_value t \<noteq> None) v"

definition stored_of :: "num_text attr \<Rightarrow> rat attr" where
  "stored_of v = map_attr (\<lambda>t. case num_value t of Some r \<Rightarrow> r | None \<Rightarrow> 0) v"

type_synonym item = "string \<rightharpoonup> rat attr"
type_synonym ddb_key = "(string \<times> string) list"
type_synonym ddb = "string \<Rightarrow> ddb_key \<rightharpoonup> item"

text \<open>
  Update and condition expressions, as syntax trees of the expression strings the
  adapter builds. A path is an attribute name or a \<open>#alias\<close>; a value is a
  \<open>:placeholder\<close>.
\<close>

datatype operand = Val string | IfNotExists string string | Plus operand operand

datatype action = SET string operand | ADD string string

datatype condition =
    AttributeNotExists string
  | In string "string list"
  | Eq string string
  | Lt string string
  | Or condition condition
  | And condition condition

datatype return_values = NONE | ALL_NEW | UPDATED_NEW

record update_request =
  TableName :: string
  Key :: ddb_key
  UpdateExpression :: "action list"
  ExpressionAttributeNames :: "(string \<times> string) list"
  ExpressionAttributeValues :: "(string \<times> num_text attr) list"
  ConditionExpression :: "condition option"
  ReturnValues :: return_values

definition resolve :: "(string \<times> string) list \<Rightarrow> string \<Rightarrow> string option" where
  "resolve names p =
     (case p of
        c # cs \<Rightarrow> (if c = CHR ''#'' then map_of names p else Some p)
      | [] \<Rightarrow> None)"

fun eval_operand ::
  "(string \<times> string) list \<Rightarrow> (string \<rightharpoonup> rat attr) \<Rightarrow> item \<Rightarrow> operand \<Rightarrow> rat attr option" where
  "eval_operand names vals old (Val v) = vals v"
| "eval_operand names vals old (IfNotExists p v) =
     (case resolve names p of
        None \<Rightarrow> None
      | Some a \<Rightarrow> (case old a of Some cur \<Rightarrow> Some cur | None \<Rightarrow> vals v))"
| "eval_operand names vals old (Plus a b) =
     (case (eval_operand names vals old a, eval_operand names vals old b) of
        (Some (N r1), Some (N r2)) \<Rightarrow> Some (N (r1 + r2))
      | _ \<Rightarrow> None)"

text \<open>
  One action of an update. Every operand is evaluated on the item as it was before the
  update. \<open>None\<close> is a request the store rejects (\<open>ValidationException\<close>).
\<close>

fun apply_action ::
  "(string \<times> string) list \<Rightarrow> (string \<rightharpoonup> rat attr) \<Rightarrow> item \<Rightarrow> item \<Rightarrow> action \<Rightarrow> item option" where
  "apply_action names vals old acc (SET p e) =
     (case (resolve names p, eval_operand names vals old e) of
        (Some a, Some v) \<Rightarrow> Some (acc(a \<mapsto> v))
      | _ \<Rightarrow> None)"
| "apply_action names vals old acc (ADD p v) =
     (case (resolve names p, vals v) of
        (Some a, Some (N d)) \<Rightarrow>
          (case old a of
             None \<Rightarrow> Some (acc(a \<mapsto> N d))
           | Some (N r) \<Rightarrow> Some (acc(a \<mapsto> N (r + d)))
           | Some _ \<Rightarrow> None)
      | _ \<Rightarrow> None)"

fun apply_actions ::
  "(string \<times> string) list \<Rightarrow> (string \<rightharpoonup> rat attr) \<Rightarrow> item \<Rightarrow> item \<Rightarrow> action list \<Rightarrow> item option" where
  "apply_actions names vals old acc [] = Some acc"
| "apply_actions names vals old acc (a # as) =
     (case apply_action names vals old acc a of
        None \<Rightarrow> None
      | Some acc' \<Rightarrow> apply_actions names vals old acc' as)"

fun eval_condition ::
  "(string \<times> string) list \<Rightarrow> (string \<rightharpoonup> rat attr) \<Rightarrow> item \<Rightarrow> condition \<Rightarrow> bool option" where
  "eval_condition names vals old (AttributeNotExists p) =
     (case resolve names p of None \<Rightarrow> None | Some a \<Rightarrow> Some (old a = None))"
| "eval_condition names vals old (In p vs) =
     (case resolve names p of
        None \<Rightarrow> None
      | Some a \<Rightarrow>
          (if list_all (\<lambda>v. vals v \<noteq> None) vs
           then Some (case old a of None \<Rightarrow> False | Some cur \<Rightarrow> list_ex (\<lambda>v. vals v = Some cur) vs)
           else None))"
| "eval_condition names vals old (Eq p v) =
     (case (resolve names p, vals v) of
        (Some a, Some w) \<Rightarrow> Some (old a = Some w)
      | _ \<Rightarrow> None)"
| "eval_condition names vals old (Lt p v) =
     (case (resolve names p, vals v) of
        (Some a, Some w) \<Rightarrow>
          Some (case (old a, w) of
                  (Some (N r), N b) \<Rightarrow> r < b
                | (Some (S s), S t) \<Rightarrow> lexordp (\<lambda>c d. of_char c < (of_char d :: nat)) s t
                | _ \<Rightarrow> False)
      | _ \<Rightarrow> None)"
| "eval_condition names vals old (Or a b) =
     (case (eval_condition names vals old a, eval_condition names vals old b) of
        (Some p, Some q) \<Rightarrow> Some (p \<or> q)
      | _ \<Rightarrow> None)"
| "eval_condition names vals old (And a b) =
     (case (eval_condition names vals old a, eval_condition names vals old b) of
        (Some p, Some q) \<Rightarrow> Some (p \<and> q)
      | _ \<Rightarrow> None)"

fun action_path :: "action \<Rightarrow> string" where
  "action_path (SET p e) = p"
| "action_path (ADD p v) = p"

definition key_item :: "ddb_key \<Rightarrow> item" where
  "key_item k = map_of (map (\<lambda>(a, v). (a, S v)) k)"

definition returned :: "update_request \<Rightarrow> item \<Rightarrow> item" where
  "returned rq new =
     (case ReturnValues rq of
        NONE \<Rightarrow> Map.empty
      | ALL_NEW \<Rightarrow> new
      | UPDATED_NEW \<Rightarrow>
          new |` {a. \<exists>p \<in> set (map action_path (UpdateExpression rq)).
                       resolve (ExpressionAttributeNames rq) p = Some a})"

text \<open>
  \<open>update_item\<close>: the request is validated, the condition is evaluated on the
  stored item (an absent item has no attribute), and the actions are applied in one step.
  An update of an absent item creates it with its key attributes. The result is the
  error raised or the \<open>Attributes\<close> of the response, and the store afterwards.
\<close>

definition update_item :: "update_request \<Rightarrow> ddb \<Rightarrow> (exn + item) \<times> ddb" where
  "update_item rq db =
     (if \<not> list_all (\<lambda>(k, v). wire_ok v) (ExpressionAttributeValues rq)
      then (Inl (client_error ''ValidationException''), db)
      else
        let names = ExpressionAttributeNames rq;
            vals = map_of (map (\<lambda>(k, v). (k, stored_of v)) (ExpressionAttributeValues rq));
            old = (case db (TableName rq) (Key rq) of Some it \<Rightarrow> it | None \<Rightarrow> Map.empty);
            holds = (case ConditionExpression rq of
                       None \<Rightarrow> Some True
                     | Some c \<Rightarrow> eval_condition names vals old c)
        in case holds of
             None \<Rightarrow> (Inl (client_error ''ValidationException''), db)
           | Some False \<Rightarrow> (Inl (client_error ''ConditionalCheckFailedException''), db)
           | Some True \<Rightarrow>
               (case apply_actions names vals old (old ++ key_item (Key rq)) (UpdateExpression rq) of
                  None \<Rightarrow> (Inl (client_error ''ValidationException''), db)
                | Some new \<Rightarrow>
                    (Inr (returned rq new),
                     db(TableName rq := (db (TableName rq))(Key rq \<mapsto> new)))))"

definition get_item :: "string \<Rightarrow> ddb_key \<Rightarrow> ddb \<Rightarrow> item option" where
  "get_item tbl k db = db tbl k"

section \<open>TileJobs adapter (core/ddb/tilejobs.py)\<close>

definition job_key :: "string \<Rightarrow> string \<Rightarrow> ddb_key" where
  "job_key rid tid = [(''run_id'', rid), (''tile_id'', tid)]"

text \<open>\<open>JobStatus(value)\<close>: the member with that value; \<open>None\<close> is \<open>ValueError\<close>.\<close>

definition JobStatus_of :: "string \<Rightarrow> JobStatus option" where
  "JobStatus_of s =
     (if s = ''PENDING'' then Some PENDING
      else if s = ''PROCESSING'' then Some PROCESSING
      else if s = ''COMPLETED'' then Some COMPLETED
      else if s = ''FAILED'' then Some FAILED
      else None)"

text \<open>
  \<open>_get_job_status\<close>: the current status, \<open>None\<close> when the item or its
  status is missing. A status that is no member of \<open>JobStatus\<close> raises.
\<close>

definition get_job_status :: "string \<Rightarrow> string \<Rightarrow> string \<Rightarrow> ddb \<Rightarrow> exn + JobStatus option" where
  "get_job_status tbl rid tid db =
     (case get_item tbl (job_key rid tid) db of
        None \<Rightarrow> Inr None
      | Some it \<Rightarrow>
          (case it ''status'' of
             None \<Rightarrow> Inr None
           | Some (S s) \<Rightarrow>
               (case JobStatus_of s of
                  Some st \<Rightarrow> Inr (Some st)
                | None \<Rightarrow> Inl (Exn ValueError (s @ '' is not a valid JobStatus'')))
           | Some _ \<Rightarrow> Inl (Exn KeyError ''S'')))"

text \<open>\<open>if message.region:\<close> holds for a region that is given and not empty.\<close>

definition region_given :: "TileJobMessage \<Rightarrow> bool" where
  "region_given m = (case region m of None \<Rightarrow> False | Some r \<Rightarrow> r \<noteq> [])"

definition claim_expr_names :: "TileJobMessage \<Rightarrow> (string \<times> string) list" where
  "claim_expr_names m =
     [(''#status'', ''status'')] @
     (if imagery_source m = Mapbox \<and> region_given m then [(''#region'', ''region'')] else [])"

definition claim_expr_values :: "TileJobMessage \<Rightarrow> int \<Rightarrow> int \<Rightarrow> (string \<times> num_text attr) list" where
  "claim_expr_values m now lock_until =
     [('':processing'', S (status_value PROCESSING)),
      ('':pending'', S (status_value PENDING)),
      ('':failed'', S (status_value FAILED)),
      ('':now'', N (IntText now)),
      ('':lock'', N (IntText lock_until)),
      ('':one'', N (IntText 1)),
      ('':zero'', N (IntText 0)),
      ('':source'', S (source_name (imagery_source m))),
      ('':last_claimed'', N (IntText now))] @
     (if imagery_source m = Mapbox
      then [('':z'', N (str_opt_int (z m))),
            ('':x'', N (str_opt_int (x m))),
            ('':y'', N (str_opt_int (y m)))] @
           (if region_given m then [('':region'', S (case region m of Some r \<Rightarrow> r | None \<Rightarrow> []))]
            else [])
      else [('':lat'', N (str_opt_float (lat m))),
            ('':lon'', N (str_opt_float (lon m))),
            ('':zoom'', N (str_opt_int (zoom m)))])"

definition claim_update_expr :: "TileJobMessage \<Rightarrow> action list" where
  "claim_update_expr m =
     [SET ''#status'' (Val '':processing''),
      SET ''attempts'' (Plus (IfNotExists ''attempts'' '':zero'') (Val '':one'')),
      SET ''lock_until_epoch'' (Val '':lock''),
      SET ''started_at_epoch'' (IfNotExists ''started_at_epoch'' '':now''),
      SET ''last_claimed_at_epoch'' (Val '':last_claimed''),
      SET ''imagery_source'' (IfNotExists ''imagery_source'' '':source'')] @
     (if imagery_source m = Mapbox
      then [SET ''z'' (IfNotExists ''z'' '':z''),
            SET ''x'' (IfNotExists ''x'' '':x''),
            SET ''y'' (IfNotExists ''y'' '':y'')] @
           (if region_given m
            then [SET ''#region'' (IfNotExists ''#region'' '':region'')] else [])
      else [SET ''lat'' (IfNotExists ''lat'' '':lat''),
            SET ''lon'' (IfNotExists ''lon'' '':lon''),
            SET ''zoom'' (IfNotExists ''zoom'' '':zoom'')])"

definition claim_condition_expr :: condition where
  "claim_condition_expr =
     Or (AttributeNotExists ''#status'')
        (Or (In ''#status'' ['':pending'', '':failed''])
            (And (Eq ''#status'' '':processing'')
                 (Or (AttributeNotExists ''lock_until_epoch'')
                     (Lt ''lock_until_epoch'' '':now''))))"

text \<open>\<open>int(v)\<close> of a stored number: truncation towards zero.\<close>

definition py_int :: "rat \<Rightarrow> int" where
  "py_int r = (if 0 \<le> r then \<lfloor>r\<rfloor> else \<lceil>r\<rceil>)"

text \<open>Truth value of a deserialised attribute, as \<open>parsed.get(name)\<close> gives it.\<close>

fun truthy :: "rat attr option \<Rightarrow> bool" where
  "truthy None = False"
| "truthy (Some (S s)) = (s \<noteq> [])"
| "truthy (Some (N r)) = (r \<noteq> 0)"
| "truthy (Some (BOOL b)) = b"
| "truthy (Some NULL) = False"
| "truthy (Some (M kvs)) = (kvs \<noteq> [])"
| "truthy (Some (L vs)) = (vs \<noteq> [])"

text \<open>
  What \<open>claim_job\<close> makes of the post-image of a successful update: the attempt
  count and the checkpoint, if both of its fields are there.
\<close>

definition claimed_result :: "string \<Rightarrow> int \<Rightarrow> item \<Rightarrow> exn + ClaimResultData" where
  "claimed_result tid now parsed =
     (case parsed ''attempts'' of
        Some (S s) \<Rightarrow> Inl (Exn ValueError ''invalid literal for int()'')
      | Some (BOOL b) \<Rightarrow> Inl (Exn TypeError ''int() argument'')
      | Some NULL \<Rightarrow> Inl (Exn TypeError ''int() argument'')
      | Some (M kvs) \<Rightarrow> Inl (Exn TypeError ''int() argument'')
      | Some (L vs) \<Rightarrow> Inl (Exn TypeError ''int() argument'')
      | a \<Rightarrow>
          (let att = (case a of Some (N r) \<Rightarrow> py_int r | _ \<Rightarrow> 0);
               s3_bucket = parsed ''s3_bucket'';
               s3_key = parsed ''s3_key''
           in if truthy s3_bucket \<and> truthy s3_key
              then (case (s3_bucket, s3_key) of
                      (Some (S b), Some (S k)) \<Rightarrow>
                        Inr \<lparr> result = CLAIMED, tile_id = tid, attempt = Some att,
                              claimed_at_epoch = Some now,
                              checkpoint = Some (S3Checkpoint b k) \<rparr>
                    | _ \<Rightarrow> Inl (Exn ValidationError ''S3Checkpoint''))
              else Inr \<lparr> result = CLAIMED, tile_id = tid, attempt = Some att,
                         claimed_at_epoch = Some now, checkpoint = None \<rparr>))"

definition claim_request :: "string \<Rightarrow> TileJobMessage \<Rightarrow> string \<Rightarrow> int \<Rightarrow> int \<Rightarrow> update_request" where
  "claim_request table_name m tid now lock_until =
     \<lparr> TableName = table_name,
       Key = job_key (run_id m) tid,
       UpdateExpression = claim_update_expr m,
       ExpressionAttributeNames = claim_expr_names m,
       ExpressionAttributeValues = claim_expr_values m now lock_until,
       ConditionExpression = Some claim_condition_expr,
       ReturnValues = ALL_NEW \<rparr>"

text \<open>
  \<open>claim_job\<close>. \<open>clock\<close> is the reading of \<open>int(time.time())\<close>, used when
  \<open>now_epoch\<close> is not given.
\<close>

definition claim_job ::
  "string \<Rightarrow> TileJobMessage \<Rightarrow> int option \<Rightarrow> int \<Rightarrow> int \<Rightarrow> ddb \<Rightarrow> (exn + ClaimResultData) \<times> ddb" where
  "claim_job table_name m now_epoch lock_seconds clock db =
     (let now = (case now_epoch of Some n \<Rightarrow> n | None \<Rightarrow> clock)
      in case get_tile_id m of
           None \<Rightarrow> (Inl (Exn TypeError ''unsupported format string passed to NoneType.__format__''), db)
         | Some tid \<Rightarrow>
             (case update_item (claim_request table_name m tid now (now + lock_seconds)) db of
                (Inr parsed, db') \<Rightarrow> (claimed_result tid now parsed, db')
              | (Inl exc, db') \<Rightarrow>
                  (if exn_class exc = ClientError ''ConditionalCheckFailedException''
                   then (case get_job_status table_name (run_id m) tid db' of
                           Inl e \<Rightarrow> (Inl e, db')
                         | Inr current_status \<Rightarrow>
                             (Inr \<lparr> result = (if current_status = Some COMPLETED
                                               then ALREADY_COMPLETED else LOCKED_BY_OTHER),
                                    tile_id = tid, attempt = None, claimed_at_epoch = None,
                                    checkpoint = None \<rparr>, db'))
                   else (Inl exc, db'))))"

text \<open>
  \<open>complete_job\<close>. The usage map is taken as \<open>_to_ddb_map\<close> returns it.
\<close>

definition complete_request ::
  "string \<Rightarrow> string \<Rightarrow> string \<Rightarrow> string \<Rightarrow> string \<Rightarrow> string option \<Rightarrow> string option \<Rightarrow>
   (string \<times> num_text attr) list option \<Rightarrow> int option \<Rightarrow> int \<Rightarrow> update_request" where
  "complete_request table_name rid tid s3_bucket s3_key status_ai reasoning openai_usage
       claimed_at finished =
     \<lparr> TableName = table_name,
       Key = job_key rid tid,
       UpdateExpression =
         [SET ''#status'' (Val '':status''),
          SET ''finished_at_epoch'' (Val '':finished''),
          SET ''s3_bucket'' (Val '':bucket''),
          SET ''s3_key'' (Val '':key'')] @
         (if status_ai \<noteq> None then [SET ''status_ai'' (Val '':status_ai'')] else []) @
         (if reasoning \<noteq> None then [SET ''reasoning'' (Val '':reasoning'')] else []) @
         (if openai_usage \<noteq> None then [SET ''openai_usage'' (Val '':openai_usage'')] else []) @
         (if claimed_at \<noteq> None then [SET ''duration_ms'' (Val '':duration_ms'')] else []),
       ExpressionAttributeNames = [(''#status'', ''status'')],
       ExpressionAttributeValues =
         [('':status'', S (status_value COMPLETED)),
          ('':finished'', N (IntText finished)),
          ('':bucket'', S s3_bucket),
          ('':key'', S s3_key)] @
         (case status_ai of None \<Rightarrow> [] | Some v \<Rightarrow> [('':status_ai'', S v)]) @
         (case reasoning of None \<Rightarrow> [] | Some v \<Rightarrow> [('':reasoning'', S v)]) @
         (case openai_usage of None \<Rightarrow> [] | Some u \<Rightarrow> [('':openai_usage'', M u)]) @
         (case claimed_at of
            None \<Rightarrow> []
          | Some c \<Rightarrow> [('':duration_ms'', N (IntText ((finished - c) * 1000)))]),
       ConditionExpression = None,
       ReturnValues = NONE \<rparr>"

definition complete_job ::
  "string \<Rightarrow> string \<Rightarrow> string \<Rightarrow> string \<Rightarrow> string \<Rightarrow> string option \<Rightarrow> string option \<Rightarrow>
   (string \<times> num_text attr) list option \<Rightarrow> int option \<Rightarrow> int option \<Rightarrow> int \<Rightarrow> ddb \<Rightarrow> (exn + unit) \<times> ddb" where
  "complete_job table_name rid tid s3_bucket s3_key status_ai reasoning openai_usage
       claimed_at finished_at_epoch clock db =
     (let finished = (case finished_at_epoch of Some f \<Rightarrow> f | None \<Rightarrow> clock)
      in case update_item (complete_request table_name rid tid s3_bucket s3_key status_ai
                             reasoning openai_usage claimed_at finished) db of
           (Inr attrs, db') \<Rightarrow> (Inr (), db')
         | (Inl exc, db') \<Rightarrow> (Inl exc, db'))"

definition checkpoint_s3 ::
  "string \<Rightarrow> string \<Rightarrow> string \<Rightarrow> string \<Rightarrow> string \<Rightarrow> ddb \<Rightarrow> (exn + item) \<times> ddb" where
  "checkpoint_s3 table_name rid tid s3_bucket s3_key db =
     update_item
       \<lparr> TableName = table_name,
         Key = job_key rid tid,
         UpdateExpression = [SET ''s3_bucket'' (Val '':bucket''), SET ''s3_key'' (Val '':key'')],
         ExpressionAttributeNames = [],
         ExpressionAttributeValues = [('':bucket'', S s3_bucket), ('':key'', S s3_key)],
         ConditionExpression = None,
         ReturnValues = UPDATED_NEW \<rparr> db"

definition fail_job ::
  "string \<Rightarrow> string \<Rightarrow> string \<Rightarrow> string \<Rightarrow> string \<Rightarrow> int option \<Rightarrow> int \<Rightarrow> ddb \<Rightarrow> (exn + item) \<times> ddb" where
  "fail_job table_name rid tid error_code error_message finished_at_epoch clock db =
     (let finished = (case finished_at_epoch of Some f \<Rightarrow> f | None \<Rightarrow> clock)
      in update_item
           \<lparr> TableName = table_name,
             Key = job_key rid tid,
             UpdateExpression =
               [SET ''#status'' (Val '':status''),
                SET ''finished_at_epoch'' (Val '':finished''),
                SET ''error_code'' (Val '':code''),
                SET ''error_message'' (Val '':message'')],
             ExpressionAttributeNames = [(''#status'', ''status'')],
             ExpressionAttributeValues =
               [('':status'', S (status_value FAILED)),
                ('':finished'', N (IntText finished)),
                ('':code'', S error_code),
                ('':message'', S error_message)],
             ConditionExpression = None,
             ReturnValues = UPDATED_NEW \<rparr> db)"

section \<open>Runs adapter (core/ddb/runs.py)\<close>

definition update_run_counters ::
  "string \<Rightarrow> string \<Rightarrow> int \<Rightarrow> int \<Rightarrow> ddb \<Rightarrow> (exn + item) \<times> ddb" where
  "update_run_counters table_name rid completed_delta failed_delta db =
     (if completed_delta = 0 \<and> failed_delta = 0 then (Inr Map.empty, db)
      else update_item
             \<lparr> TableName = table_name,
               Key = [(''run_id'', rid)],
               UpdateExpression = [ADD ''completed_tiles'' '':c'', ADD ''failed_tiles'' '':f''],
               ExpressionAttributeNames = [],
               ExpressionAttributeValues =
                 [('':c'', N (IntText completed_delta)), ('':f'', N (IntText failed_delta))],
               ConditionExpression = None,
               ReturnValues = UPDATED_NEW \<rparr> db)"

section \<open>Error codes (core/errors/codes.py)\<close>

definition upper_char :: "char \<Rightarrow> char" where
  "upper_char c = (if 97 \<le> (of_char c :: nat) \<and> (of_char c :: nat) \<le> 122 then char_of (of_char c - 32 :: nat) else c)"

definition lower_char :: "char \<Rightarrow> char" where
  "lower_char c = (if 65 \<le> (of_char c :: nat) \<and> (of_char c :: nat) \<le> 90 then char_of (of_char c + 32 :: nat) else c)"

definition upper :: "string \<Rightarrow> string" where
  "upper s = map upper_char s"

definition lower :: "string \<Rightarrow> string" where
  "lower s = map lower_char s"

fun starts_with :: "string \<Rightarrow> string \<Rightarrow> bool" where
  "starts_with [] s = True"
| "starts_with (c # cs) [] = False"
| "starts_with (c # cs) (d # ds) = (c = d \<and> starts_with cs ds)"

text \<open>\<open>sub in s\<close> on strings.\<close>

fun contains :: "string \<Rightarrow> string \<Rightarrow> bool" where
  "contains sub [] = (sub = [])"
| "contains sub (c # cs) = (starts_with sub (c # cs) \<or> contains sub cs)"

definition error_code_from_http_status :: "string \<Rightarrow> int \<Rightarrow> string" where
  "error_code_from_http_status src status_code =
     (let source_upper = upper src
      in if status_code = 429 then source_upper @ ''_429''
         else if 500 \<le> status_code \<and> status_code < 600 then source_upper @ ''_5XX''
         else if 400 \<le> status_code \<and> status_code < 500
              then (if status_code = 400 then source_upper @ ''_BAD_REQUEST''
                    else source_upper @ ''_4XX'')
         else ''UNKNOWN_ERROR'')"

section \<open>Object-store keys (core/io/s3_keys.py)\<close>

definition mapbox_tile_key :: "string \<Rightarrow> int \<Rightarrow> int \<Rightarrow> int \<Rightarrow> string \<Rightarrow> string" where
  "mapbox_tile_key rid zi xi yi ext =
     ''runs/'' @ rid @ ''/tiles/z='' @ str_int zi @ ''/x='' @ str_int xi @ ''/y='' @ str_int yi @
     ''.'' @ ext"

definition google_coord_key :: "string \<Rightarrow> pyfloat \<Rightarrow> pyfloat \<Rightarrow> int option \<Rightarrow> string \<Rightarrow> string" where
  "google_coord_key rid la lo zm ext =
     (let zz = (case zm of Some v \<Rightarrow> v | None \<Rightarrow> DEFAULT_GOOGLE_ZOOM)
      in ''runs/'' @ rid @ ''/coords/lat='' @ format_6f la @ ''/lon='' @ format_6f lo @
         ''/z='' @ str_int zz @ ''.'' @ ext)"

section \<open>Tile processor (core/pipeline/tile_processor.py)\<close>

record WorkerConfig =
  aws_region :: string
  s3_bucket :: string
  runs_table :: string
  tilejobs_table :: string
  secrets_id :: string
  job_stale_lock_seconds :: int
  max_retries :: int
  request_timeout :: rat
  log_level :: string

datatype ProcessTileResult =
  ProcessTileResult (pt_status: string) (pt_tile_id: "string option")
    (pt_status_ai: "string option") (pt_s3_key: "string option") (pt_reason: "string option")

text \<open>
  What lies outside the processor, for one invocation: the clock readings of the three
  adapter calls that read the time, and the outcome of each external call should it be
  made. An analysis yields the status value, the reasoning and the usage map (as
  \<open>_to_ddb_map\<close> converts it).
\<close>

record world =
  claim_clock :: int
  fetch_outcome :: "exn + string"
  put_outcome :: "exn option"
  download_outcome :: "exn + string"
  analysis_outcome :: "exn + (string \<times> string \<times> (string \<times> num_text attr) list)"
  complete_clock :: int
  fail_clock :: int

text \<open>The calls to the imagery providers, the object store and the vision model.\<close>

datatype call =
    FetchImagery ImagerySource
  | PutObject string string
  | GetObject string string
  | AnalyzeImage

definition MIN_REMAINING_MS_FOR_OPENAI :: int where
  "MIN_REMAINING_MS_FOR_OPENAI = 20000"

fun class_name :: "exn_class \<Rightarrow> string" where
  "class_name (ClientError code) = ''ClientError''"
| "class_name (ImageryFetchError src st) = ''ImageryFetchError''"
| "class_name AnalysisError = ''AnalysisError''"
| "class_name TimeoutError = ''TimeoutError''"
| "class_name RuntimeError = ''RuntimeError''"
| "class_name TypeError = ''TypeError''"
| "class_name ValueError = ''ValueError''"
| "class_name KeyError = ''KeyError''"
| "class_name ValidationError = ''ValidationError''"
| "class_name JSONDecodeError = ''JSONDecodeError''"
| "class_name AssertionError = ''AssertionError''"
| "class_name (OtherError n) = n"

definition exception_to_error_code :: "exn \<Rightarrow> string" where
  "exception_to_error_code exc =
     (case exn_class exc of
        ImageryFetchError src st \<Rightarrow>
          (case st of
             Some code \<Rightarrow> error_code_from_http_status (source_name src) code
           | None \<Rightarrow> upper (source_name src) @ ''_TIMEOUT'')
      | AnalysisError \<Rightarrow> ''OPENAI_BAD_RESPONSE''
      | TimeoutError \<Rightarrow> ''DEADLINE_EXCEEDED''
      | c \<Rightarrow> (if contains ''S3'' (class_name c) \<or> contains ''s3'' (lower (exn_str exc))
               then ''S3_PUT_FAILED'' else ''UNKNOWN_ERROR''))"

text \<open>
  \<open>_handle_failure\<close>: record the failure, then count it. An exception of either
  write is logged and swallowed. The result is the exception \<open>_handle_failure\<close>
  itself raises, if any, and the store afterwards.
\<close>

definition handle_failure :: "exn \<Rightarrow> TileJobMessage \<Rightarrow> WorkerConfig \<Rightarrow> int \<Rightarrow> ddb \<Rightarrow> exn option \<times> ddb" where
  "handle_failure exc m config clock db =
     (case get_tile_id m of
        None \<Rightarrow> (Some (Exn TypeError ''unsupported format string passed to NoneType.__format__''), db)
      | Some tid \<Rightarrow>
          (let error_code = exception_to_error_code exc;
               error_message = take 500 (exn_str exc)
           in case fail_job (tilejobs_table config) (run_id m) tid error_code error_message None clock db of
                (Inl ddb_exc, db1) \<Rightarrow> (None, db1)
              | (Inr attrs, db1) \<Rightarrow>
                  (None, snd (update_run_counters (runs_table config) (run_id m) 0 1 db1))))"

text \<open>
  \<open>upload_tile_image\<close> up to the request: the bucket and the deterministic key, or
  the \<open>ValueError\<close> for missing coordinates.
\<close>

definition upload_target :: "TileJobMessage \<Rightarrow> WorkerConfig \<Rightarrow> exn + (string \<times> string)" where
  "upload_target m config =
     (if imagery_source m = Mapbox
      then (case (z m, x m, y m) of
              (Some zi, Some xi, Some yi) \<Rightarrow>
                Inr (s3_bucket config, mapbox_tile_key (run_id m) zi xi yi ''jpg'')
            | _ \<Rightarrow> Inl (Exn ValueError ''Mapbox uploads require z, x, y coordinates''))
      else (case (lat m, lon m) of
              (Some la, Some lo) \<Rightarrow>
                Inr (s3_bucket config, google_coord_key (run_id m) la lo (Some (get_zoom m)) ''png'')
            | _ \<Rightarrow> Inl (Exn ValueError ''Google uploads require lat, lon coordinates'')))"

text \<open>
  Step 2 of \<open>process_tile\<close>: the image and where it is stored, from the checkpoint
  when the claim reports one, from the provider otherwise.
\<close>

definition obtain_image ::
  "TileJobMessage \<Rightarrow> WorkerConfig \<Rightarrow> world \<Rightarrow> string \<Rightarrow> ClaimResultData \<Rightarrow> ddb \<Rightarrow>
   (exn + (string \<times> string \<times> string)) \<times> ddb \<times> call list" where
  "obtain_image m config w tid claim_result db =
     (case checkpoint claim_result of
        Some cp \<Rightarrow>
          (case download_outcome w of
             Inl e \<Rightarrow> (Inl e, db, [GetObject (checkpoint_bucket cp) (checkpoint_key cp)])
           | Inr image_bytes \<Rightarrow>
               (Inr (image_bytes, checkpoint_bucket cp, checkpoint_key cp), db,
                [GetObject (checkpoint_bucket cp) (checkpoint_key cp)]))
      | None \<Rightarrow>
          (case fetch_outcome w of
             Inl e \<Rightarrow> (Inl e, db, [FetchImagery (imagery_source m)])
           | Inr image_bytes \<Rightarrow>
               (case upload_target m config of
                  Inl e \<Rightarrow> (Inl e, db, [FetchImagery (imagery_source m)])
                | Inr (b, k) \<Rightarrow>
                    (case put_outcome w of
                       Some e \<Rightarrow> (Inl e, db, [FetchImagery (imagery_source m), PutObject b k])
                     | None \<Rightarrow>
                         (case checkpoint_s3 (tilejobs_table config) (run_id m) tid b k db of
                            (Inl e, db1) \<Rightarrow>
                              (Inl e, db1, [FetchImagery (imagery_source m), PutObject b k])
                          | (Inr attrs, db1) \<Rightarrow>
                              (Inr (image_bytes, b, k), db1,
                               [FetchImagery (imagery_source m), PutObject b k]))))))"

text \<open>Steps 3 to 6: the time budget, the analysis, the terminal write, the run counter.\<close>

definition analyze_and_complete ::
  "TileJobMessage \<Rightarrow> WorkerConfig \<Rightarrow> int option \<Rightarrow> world \<Rightarrow> string \<Rightarrow> ClaimResultData \<Rightarrow>
   string \<times> string \<times> string \<Rightarrow> ddb \<Rightarrow> (exn + ProcessTileResult) \<times> ddb \<times> call list" where
  "analyze_and_complete m config remaining_time_ms w tid claim_result img db =
     (case img of (image_bytes, b, k) \<Rightarrow>
        (if (case remaining_time_ms of
               None \<Rightarrow> False
             | Some ms \<Rightarrow> ms < MIN_REMAINING_MS_FOR_OPENAI)
         then (Inl (Exn TimeoutError
                      (''Only '' @ fmt_opt_int remaining_time_ms @
                       ''ms remaining, aborting before OpenAI call'')), db, [])
         else (case analysis_outcome w of
                 Inl e \<Rightarrow> (Inl e, db, [AnalyzeImage])
               | Inr (status_ai, reasoning, usage) \<Rightarrow>
                   (case complete_job (tilejobs_table config) (run_id m) tid b k (Some status_ai)
                           (Some reasoning) (Some usage) (claimed_at_epoch claim_result) None
                           (complete_clock w) db of
                      (Inl e, db1) \<Rightarrow> (Inl e, db1, [AnalyzeImage])
                    | (Inr u, db1) \<Rightarrow>
                        (case update_run_counters (runs_table config) (run_id m) 1 0 db1 of
                           (Inl e, db2) \<Rightarrow> (Inl e, db2, [AnalyzeImage])
                         | (Inr attrs, db2) \<Rightarrow>
                             (Inr (ProcessTileResult ''completed'' (Some tid) (Some status_ai)
                                     (Some k) None), db2, [AnalyzeImage]))))))"

text \<open>The body of the \<open>try\<close> block.\<close>

definition work ::
  "TileJobMessage \<Rightarrow> WorkerConfig \<Rightarrow> int option \<Rightarrow> world \<Rightarrow> string \<Rightarrow> ClaimResultData \<Rightarrow>
   ddb \<Rightarrow> (exn + ProcessTileResult) \<times> ddb \<times> call list" where
  "work m config remaining_time_ms w tid claim_result db =
     (case obtain_image m config w tid claim_result db of
        (Inl e, db1, calls) \<Rightarrow> (Inl e, db1, calls)
      | (Inr img, db1, calls) \<Rightarrow>
          (case analyze_and_complete m config remaining_time_ms w tid claim_result img db1 of
             (r, db2, calls') \<Rightarrow> (r, db2, calls @ calls')))"

text \<open>
  \<open>process_tile\<close>: the value returned or the exception raised, the store afterwards,
  and the external calls made, in order.
\<close>

definition process_tile ::
  "TileJobMessage \<Rightarrow> WorkerConfig \<Rightarrow> int option \<Rightarrow> world \<Rightarrow> ddb \<Rightarrow>
   (exn + ProcessTileResult) \<times> ddb \<times> call list" where
  "process_tile m config remaining_time_ms w db =
     (case get_tile_id m of
        None \<Rightarrow> (Inl (Exn TypeError ''unsupported format string passed to NoneType.__format__''), db, [])
      | Some tid \<Rightarrow>
          (case claim_job (tilejobs_table config) m None (job_stale_lock_seconds config)
                  (claim_clock w) db of
             (Inl e, db1) \<Rightarrow> (Inl e, db1, [])
           | (Inr claim_result, db1) \<Rightarrow>
               (if result claim_result = ALREADY_COMPLETED
                then (Inr (ProcessTileResult ''skipped'' (Some tid) None None
                             (Some ''already_completed'')), db1, [])
                else if result claim_result = LOCKED_BY_OTHER
                then (Inl (Exn RuntimeError ''Job locked by another worker''), db1, [])
                else (case work m config remaining_time_ms w tid claim_result db1 of
                        (Inr r, db2, calls) \<Rightarrow> (Inr r, db2, calls)
                      | (Inl exc, db2, calls) \<Rightarrow>
                          (case handle_failure exc m config (fail_clock w) db2 of
                             (None, db3) \<Rightarrow> (Inl exc, db3, calls)
                           | (Some e, db3) \<Rightarrow> (Inl e, db3, calls))))))"

section \<open>Worker handler (lambdas/tile_worker/handler.py)\<close>

record sqs_record =
  messageId :: "string option"
  body :: "string option"

datatype response =
    NoRecords
  | InvalidMessage string
  | Processed ProcessTileResult

text \<open>
  \<open>_async_handler\<close>. \<open>json.loads\<close> and \<open>TileJobMessage.model_validate\<close> are
  the libraries' and are taken as given: each returns its value or raises. \<open>loaded\<close>
  is what \<open>_get_config()\<close> gives: the configuration, or the error of a missing
  environment variable. \<open>remaining\<close> is the context's remaining time, if it has one.
\<close>

definition async_handler ::
  "(string \<Rightarrow> exn + 'j) \<Rightarrow> ('j \<Rightarrow> exn + TileJobMessage) \<Rightarrow> exn + WorkerConfig \<Rightarrow>
   sqs_record list \<Rightarrow> int option \<Rightarrow> world \<Rightarrow> ddb \<Rightarrow> (exn + response) \<times> ddb \<times> call list" where
  "async_handler json_loads model_validate loaded records remaining w db =
     (case loaded of
        Inl e \<Rightarrow> (Inl e, db, [])
      | Inr config \<Rightarrow>
          (case records of
             [] \<Rightarrow> (Inr NoRecords, db, [])
           | rcd # rest \<Rightarrow>
               (let parsed =
                      (case json_loads (case body rcd of Some b \<Rightarrow> b | None \<Rightarrow> ''{}'') of
                         Inl e \<Rightarrow> Inl e
                       | Inr j \<Rightarrow> model_validate j)
                in case parsed of
                     Inl exc \<Rightarrow>
                       (if exn_class exc = JSONDecodeError \<or> exn_class exc = ValidationError
                        then (Inr (InvalidMessage (exn_str exc)), db, [])
                        else (Inl exc, db, []))
                   | Inr message \<Rightarrow>
                       (case process_tile message config remaining w db of
                          (Inl e, db1, calls) \<Rightarrow> (Inl e, db1, calls)
                        | (Inr r, db1, calls) \<Rightarrow> (Inr (Processed r), db1, calls)))))"

section \<open>Retry and deadline engine (core/io/http.py)\<close>

text \<open>
  Of a response the engine reads the status code and the \<open>Retry-After\<close> header.
  Times are exact rationals in seconds. The clock is read by \<open>time.time()\<close>; a
  request takes the time the server takes, a sleep takes the time asked for, and nothing
  else takes time.
\<close>

record http_response =
  status_code :: int
  retry_after :: "string option"

datatype retry_error =
    RetryExhaustedError http_response int
  | DeadlineExceededError rat
  | AssertionFailed
  | SleepValueError
  | SleepOverflowError
  | TransportError string

text \<open>
  What the engine does, in order: attempt \<open>i\<close> started at a time; a sleep after
  attempt \<open>i\<close>, begun at a time, of a duration, that returned.
\<close>

datatype event = Attempt nat rat | Sleep nat rat rat

definition RETRYABLE_STATUS :: "int list" where
  "RETRYABLE_STATUS = [429, 500, 502, 503, 504]"

text \<open>
  A float as \<open>float()\<close> returns it from a header value: a finite number, or one of
  the three values \<open>float("nan")\<close>, \<open>float("inf")\<close>, \<open>float("-inf")\<close>.
\<close>

datatype floatval = Finite rat | NaN | PosInf | NegInf

text \<open>
  The arguments of one call, and what lies outside it: \<open>float_of\<close> is Python's
  \<open>float()\<close> on a header value (\<open>None\<close> for \<open>ValueError\<close>),
  \<open>replies i\<close> is what the \<open>i\<close>-th request meets, a transport exception or a
  response, and how long it takes, and \<open>sleep_limit\<close> is the longest time
  \<open>time.sleep\<close> converts to the platform's timestamp.
\<close>

record retry_call =
  float_of :: "string \<Rightarrow> floatval option"
  replies :: "nat \<Rightarrow> (string + http_response) \<times> rat"
  sleep_limit :: rat
  retryable_status :: "int list"
  max_attempts :: int
  backoff_base :: rat
  deadline_epoch :: "rat option"
  min_time_for_attempt_ms :: rat

definition backoff :: "retry_call \<Rightarrow> nat \<Rightarrow> rat" where
  "backoff c i = backoff_base c * 2 ^ (i - 1)"

definition sleep_for :: "retry_call \<Rightarrow> nat \<Rightarrow> http_response \<Rightarrow> floatval" where
  "sleep_for c i resp =
     (case retry_after resp of
        None \<Rightarrow> Finite (backoff c i)
      | Some h \<Rightarrow>
          (if h = [] then Finite (backoff c i)
           else (case float_of c h of Some v \<Rightarrow> v | None \<Rightarrow> Finite (backoff c i))))"

text \<open>
  \<open>time_after_sleep + min_time_for_attempt_ms / 1000 > deadline_epoch\<close>, with
  \<open>time_after_sleep = now + sleep_for\<close> in floating point: a comparison with NaN is
  false, and infinity is greater than every deadline.
\<close>

definition sleep_passes_deadline :: "rat \<Rightarrow> floatval \<Rightarrow> rat \<Rightarrow> rat \<Rightarrow> bool" where
  "sleep_passes_deadline now v budget d =
     (case v of
        Finite s \<Rightarrow> d < now + s + budget
      | NaN \<Rightarrow> False
      | PosInf \<Rightarrow> True
      | NegInf \<Rightarrow> False)"

text \<open>
  \<open>time.sleep(v)\<close>: \<open>ValueError\<close> for NaN and for a negative length,
  \<open>OverflowError\<close> for a length beyond the platform's timestamp, infinite or not;
  otherwise it returns after \<open>v\<close> seconds.
\<close>

definition time_sleep :: "retry_call \<Rightarrow> floatval \<Rightarrow> retry_error + rat" where
  "time_sleep c v =
     (case v of
        Finite s \<Rightarrow>
          (if sleep_limit c < \<bar>s\<bar> then Inl SleepOverflowError
           else if s < 0 then Inl SleepValueError
           else Inr s)
      | NaN \<Rightarrow> Inl SleepValueError
      | PosInf \<Rightarrow> Inl SleepOverflowError
      | NegInf \<Rightarrow> Inl SleepOverflowError)"

text \<open>After the loop: the assertion, then \<open>RetryExhaustedError\<close>.\<close>

definition loop_end :: "retry_call \<Rightarrow> http_response option \<Rightarrow> retry_error + http_response" where
  "loop_end c last_response =
     (case last_response of
        None \<Rightarrow> Inl AssertionFailed
      | Some r \<Rightarrow> Inl (RetryExhaustedError r (max_attempts c)))"

text \<open>
  The loop \<open>for attempt in range(1, max_retries + 1)\<close> from attempt \<open>i\<close> on, at
  time \<open>t\<close>.
\<close>

function retry_loop ::
  "retry_call \<Rightarrow> nat \<Rightarrow> rat \<Rightarrow> http_response option \<Rightarrow> (retry_error + http_response) \<times> event list" where
  "retry_loop c i t last_response =
     (if max_attempts c < int i then (loop_end c last_response, [])
      else if (case deadline_epoch c of
                 None \<Rightarrow> False
               | Some d \<Rightarrow> (d - t) * 1000 < min_time_for_attempt_ms c)
      then (Inl (DeadlineExceededError
                   (((case deadline_epoch c of Some d \<Rightarrow> d | None \<Rightarrow> 0) - t) * 1000)), [])
      else (case replies c i of
              (Inl e, dt) \<Rightarrow> (Inl (TransportError e), [Attempt i t])
            | (Inr resp, dt) \<Rightarrow>
                (if status_code resp \<notin> set (retryable_status c) then (Inr resp, [Attempt i t])
                 else if max_attempts c \<le> int i then (loop_end c (Some resp), [Attempt i t])
                 else if (case deadline_epoch c of
                            None \<Rightarrow> False
                          | Some d \<Rightarrow>
                              sleep_passes_deadline (t + dt) (sleep_for c i resp)
                                (min_time_for_attempt_ms c / 1000) d)
                 then (Inl (DeadlineExceededError
                              (((case deadline_epoch c of Some d \<Rightarrow> d | None \<Rightarrow> 0) - (t + dt)) * 1000)),
                       [Attempt i t])
                 else (case time_sleep c (sleep_for c i resp) of
                         Inl err \<Rightarrow> (Inl err, [Attempt i t])
                       | Inr s \<Rightarrow>
                           (case retry_loop c (Suc i) ((t + dt) + s) (Some resp) of
                              (r, evs) \<Rightarrow> (r, Attempt i t # Sleep i (t + dt) s # evs))))))"
  by pat_completeness auto
termination
  by (relation "measure (\<lambda>(c, i, t, l). nat (max_attempts c + 1 - int i))") auto

declare retry_loop.simps [simp del]

definition request_with_retry :: "retry_call \<Rightarrow> rat \<Rightarrow> (retry_error + http_response) \<times> event list" where
  "request_with_retry c t = retry_loop c 1 t None"

section \<open>Ingest driver (scripts/start_run.py)\<close>

text \<open>
  \<open>hashlib.sha1\<close> is the SHA-1 of FIPS 180-4, written out: the message, a byte
  \<open>0x80\<close>, zero bytes up to 56 modulo 64 and the bit length in eight bytes, big
  end first; blocks of sixteen 32-bit words, each extended to eighty; eighty rounds on
  five words, added to the running hash.
\<close>

fun be_bytes :: "nat \<Rightarrow> nat \<Rightarrow> nat list" where
  "be_bytes 0 n = []"
| "be_bytes (Suc k) n = be_bytes k (n div 256) @ [n mod 256]"

definition sha1_pad :: "string \<Rightarrow> nat list" where
  "sha1_pad s =
     (let bs = map of_char s; l = length bs
      in bs @ [128] @ replicate ((119 - l mod 64) mod 64) 0 @ be_bytes 8 (8 * l))"

definition be_word :: "nat list \<Rightarrow> 32 word" where
  "be_word bs = word_of_nat (foldl (\<lambda>a b. 256 * a + b) 0 bs)"

function chunks :: "nat \<Rightarrow> 'a list \<Rightarrow> 'a list list" where
  "chunks n xs = (if n = 0 \<or> xs = [] then [] else take n xs # chunks n (drop n xs))"
  by pat_completeness auto
termination
  by (relation "measure (\<lambda>(n, xs). length xs)") auto

declare chunks.simps [simp del]

fun extend_schedule :: "nat \<Rightarrow> 32 word list \<Rightarrow> 32 word list" where
  "extend_schedule 0 ws = ws"
| "extend_schedule (Suc k) ws =
     extend_schedule k
       (ws @ [word_rotl 1 (ws ! (length ws - 3) XOR ws ! (length ws - 8) XOR
                           ws ! (length ws - 14) XOR ws ! (length ws - 16))])"

type_synonym sha1_state = "32 word \<times> 32 word \<times> 32 word \<times> 32 word \<times> 32 word"

definition sha1_round :: "32 word list \<Rightarrow> sha1_state \<Rightarrow> nat \<Rightarrow> sha1_state" where
  "sha1_round ws st t =
     (case st of (a, b, c, d, e) \<Rightarrow>
        (let f = (if t < 20 then (b AND c) OR (NOT b AND d)
                  else if t < 40 then b XOR c XOR d
                  else if t < 60 then (b AND c) OR (b AND d) OR (c AND d)
                  else b XOR c XOR d);
             k = (if t < 20 then 0x5A827999
                  else if t < 40 then 0x6ED9EBA1
                  else if t < 60 then 0x8F1BBCDC
                  else 0xCA62C1D6)
         in (word_rotl 5 a + f + e + k + ws ! t, a, word_rotl 30 b, c, d)))"

definition sha1_compress :: "sha1_state \<Rightarrow> 32 word list \<Rightarrow> sha1_state" where
  "sha1_compress h block =
     (case (h, foldl (sha1_round (extend_schedule 64 block)) h [0 ..< 80]) of
        ((h0, h1, h2, h3, h4), (a, b, c, d, e)) \<Rightarrow> (h0 + a, h1 + b, h2 + c, h3 + d, h4 + e))"

definition sha1 :: "string \<Rightarrow> sha1_state" where
  "sha1 s =
     foldl sha1_compress (0x67452301, 0xEFCDAB89, 0x98BADCFE, 0x10325476, 0xC3D2E1F0)
       (map (\<lambda>blk. map be_word (chunks 4 blk)) (chunks 64 (sha1_pad s)))"

text \<open>\<open>hexdigest()\<close>: the five words, eight lower-case hex digits each.\<close>

definition hex_char :: "nat \<Rightarrow> char" where
  "hex_char d = ''0123456789abcdef'' ! d"

fun hex_padded :: "nat \<Rightarrow> nat \<Rightarrow> string" where
  "hex_padded 0 n = []"
| "hex_padded (Suc k) n = hex_padded k (n div 16) @ [hex_char (n mod 16)]"

definition hexdigest :: "sha1_state \<Rightarrow> string" where
  "hexdigest st =
     (case st of (a, b, c, d, e) \<Rightarrow> concat (map (\<lambda>w. hex_padded 8 (unat w)) [a, b, c, d, e]))"

text \<open>\<open>_compute_run_id\<close>. The strings are their UTF-8 bytes.\<close>

definition compute_run_id :: "string \<Rightarrow> string \<Rightarrow> string \<Rightarrow> string" where
  "compute_run_id bucket key etag =
     (let raw = bucket @ '':'' @ key @ '':'' @ etag;
          digest = take 12 (hexdigest (sha1 raw))
      in ''run_'' @ digest)"

text \<open>
  The run id of \<open>main\<close>: \<open>args.run_id or _compute_run_id(args.bucket, args.key, etag)\<close>,
  where \<open>--run-id\<close> defaults to \<open>None\<close>.
\<close>

definition main_run_id :: "string option \<Rightarrow> string \<Rightarrow> string \<Rightarrow> string \<Rightarrow> string" where
  "main_run_id run_id_arg bucket key etag =
     (case run_id_arg of
        None \<Rightarrow> compute_run_id bucket key etag
      | Some r \<Rightarrow> (if r = [] then compute_run_id bucket key etag else r))"

section \<open>Notions used to state the properties of the adapter\<close>

text \<open>The item stored under a key; an absent item has no attribute.\<close>

definition stored_row :: "ddb \<Rightarrow> string \<Rightarrow> string \<Rightarrow> string \<Rightarrow> item" where
  "stored_row db tbl rid tid = (case db tbl (job_key rid tid) of Some it \<Rightarrow> it | None \<Rightarrow> Map.empty)"

text \<open>\<open>if_not_exists(a, v)\<close> read on the item before the update.\<close>

definition if_absent :: "item \<Rightarrow> string \<Rightarrow> rat attr \<Rightarrow> rat attr" where
  "if_absent old a v = (case old a of Some cur \<Rightarrow> cur | None \<Rightarrow> v)"

definition attempts_of :: "item \<Rightarrow> rat" where
  "attempts_of old = (case old ''attempts'' of Some (N a) \<Rightarrow> a | _ \<Rightarrow> 0)"

text \<open>
  The attribute types the adapter's own writes produce: \<open>attempts\<close> is a number,
  \<open>s3_bucket\<close> and \<open>s3_key\<close> are strings, \<open>status\<close> is the value of a
  \<open>JobStatus\<close> member; each may be missing.
\<close>

definition attempts_typed :: "item \<Rightarrow> bool" where
  "attempts_typed it = (case it ''attempts'' of None \<Rightarrow> True | Some (N a) \<Rightarrow> True | Some _ \<Rightarrow> False)"

definition opt_string :: "rat attr option \<Rightarrow> bool" where
  "opt_string a = (case a of None \<Rightarrow> True | Some (S s) \<Rightarrow> True | Some _ \<Rightarrow> False)"

definition checkpoint_typed :: "item \<Rightarrow> bool" where
  "checkpoint_typed it = (opt_string (it ''s3_bucket'') \<and> opt_string (it ''s3_key''))"

definition status_typed :: "item \<Rightarrow> bool" where
  "status_typed it =
     (case it ''status'' of
        None \<Rightarrow> True
      | Some (S s) \<Rightarrow> JobStatus_of s \<noteq> None
      | Some _ \<Rightarrow> False)"

text \<open>The claim predicate, read on the stored item.\<close>

definition claimable :: "int \<Rightarrow> item \<Rightarrow> bool" where
  "claimable now old =
     (old ''status'' = None \<or>
      old ''status'' = Some (S ''PENDING'') \<or> old ''status'' = Some (S ''FAILED'') \<or>
      (old ''status'' = Some (S ''PROCESSING'') \<and>
       (old ''lock_until_epoch'' = None \<or>
        (\<exists>r. old ''lock_until_epoch'' = Some (N r) \<and> r < of_int now))))"

text \<open>The checkpoint a claim reports for an item.\<close>

definition checkpoint_of :: "item \<Rightarrow> S3Checkpoint option" where
  "checkpoint_of it =
     (case (it ''s3_bucket'', it ''s3_key'') of
        (Some (S b), Some (S k)) \<Rightarrow> (if b \<noteq> [] \<and> k \<noteq> [] then Some (S3Checkpoint b k) else None)
      | _ \<Rightarrow> None)"

definition claim_vals :: "TileJobMessage \<Rightarrow> int \<Rightarrow> int \<Rightarrow> string \<rightharpoonup> rat attr" where
  "claim_vals m now l = map_of (map (\<lambda>(k, v). (k, stored_of v)) (claim_expr_values m now l))"

definition common_item :: "TileJobMessage \<Rightarrow> int \<Rightarrow> int \<Rightarrow> item \<Rightarrow> item \<Rightarrow> item" where
  "common_item m now l old acc =
     acc(''status'' \<mapsto> S ''PROCESSING'',
         ''attempts'' \<mapsto> N (attempts_of old + 1),
         ''lock_until_epoch'' \<mapsto> N (of_int l),
         ''started_at_epoch'' \<mapsto> if_absent old ''started_at_epoch'' (N (of_int now)),
         ''last_claimed_at_epoch'' \<mapsto> N (of_int now),
         ''imagery_source'' \<mapsto> if_absent old ''imagery_source'' (S (source_name (imagery_source m))))"

text \<open>The item a successful claim leaves, attribute by attribute.\<close>

definition claimed_item :: "TileJobMessage \<Rightarrow> int \<Rightarrow> int \<Rightarrow> item \<Rightarrow> item \<Rightarrow> item" where
  "claimed_item m now l old acc =
     (case imagery_source m of
        Mapbox \<Rightarrow>
          (case (z m, x m, y m) of
             (Some zi, Some xi, Some yi) \<Rightarrow>
               (let a2 = (common_item m now l old acc)
                           (''z'' \<mapsto> if_absent old ''z'' (N (of_int zi)),
                            ''x'' \<mapsto> if_absent old ''x'' (N (of_int xi)),
                            ''y'' \<mapsto> if_absent old ''y'' (N (of_int yi)))
                in case region m of
                     None \<Rightarrow> a2
                   | Some r \<Rightarrow> (if r = [] then a2 else a2(''region'' \<mapsto> if_absent old ''region'' (S r))))
           | _ \<Rightarrow> acc)
      | Google \<Rightarrow>
          (case (lat m, lon m, zoom m) of
             (Some la, Some lo, Some zm) \<Rightarrow>
               (common_item m now l old acc)
                 (''lat'' \<mapsto> if_absent old ''lat'' (N (float_value la)),
                  ''lon'' \<mapsto> if_absent old ''lon'' (N (float_value lo)),
                  ''zoom'' \<mapsto> if_absent old ''zoom'' (N (of_int zm)))
           | _ \<Rightarrow> acc))"

text \<open>The attributes a claim may write.\<close>

definition claim_written :: "string set" where
  "claim_written = {''status'', ''attempts'', ''lock_until_epoch'', ''started_at_epoch'',
     ''last_claimed_at_epoch'', ''imagery_source'', ''z'', ''x'', ''y'', ''region'',
     ''lat'', ''lon'', ''zoom''}"

section \<open>Concrete messages and stores\<close>

definition no_tables :: ddb where
  "no_tables = (\<lambda>t. Map.empty)"

definition mapbox_message :: TileJobMessage where
  "mapbox_message =
     \<lparr> run_id = ''run_x'', imagery_source = Mapbox, source = SourceRef ''manifests'' ''tiles.csv'',
       z = Some 14, x = Some 8716, y = Some 5378, region = None,
       lat = None, lon = None, zoom = None \<rparr>"

definition google_message :: TileJobMessage where
  "google_message =
     \<lparr> run_id = ''run_x'', imagery_source = Google, source = SourceRef ''manifests'' ''coords.csv'',
       z = None, x = None, y = None, region = None,
       lat = Some (PyFloat False (12345678 / 1000000)),
       lon = Some (PyFloat True (7654321 / 1000000)), zoom = None \<rparr>"

text \<open>A store whose only write was a checkpoint: the item exists and has no status.\<close>

definition checkpoint_only :: ddb where
  "checkpoint_only =
     snd (checkpoint_s3 ''TileJobs'' ''run_x'' ''14/8716/5378'' ''imagery''
            ''runs/run_x/tiles/z=14/x=8716/y=5378.jpg'' no_tables)"

definition worker_config :: WorkerConfig where
  "worker_config =
     \<lparr> aws_region = ''us-east-1'', s3_bucket = ''imagery'', runs_table = ''Runs'',
       tilejobs_table = ''TileJobs'', secrets_id = ''pipeline'', job_stale_lock_seconds = 900,
       max_retries = 3, request_timeout = 10, log_level = ''INFO'' \<rparr>"

text \<open>A store in which the tile of \<open>mapbox_message\<close> is completed.\<close>

definition completed_store :: ddb where
  "completed_store =
     snd (complete_job ''TileJobs'' ''run_x'' ''14/8716/5378'' ''imagery''
            ''runs/run_x/tiles/z=14/x=8716/y=5378.jpg'' (Some ''NO'') (Some ''open fields'') None
            (Some 1000) None 1010 no_tables)"

text \<open>
  A store after a worker claimed the tile of \<open>mapbox_message\<close> at time 0 with a
  lease of 900 seconds, wrote the checkpoint and then stopped.
\<close>

definition crashed_store :: ddb where
  "crashed_store =
     snd (checkpoint_s3 ''TileJobs'' ''run_x'' ''14/8716/5378'' ''imagery''
            ''runs/run_x/tiles/z=14/x=8716/y=5378.jpg''
            (snd (claim_job ''TileJobs'' mapbox_message (Some 0) 900 0 no_tables)))"

definition retry_world :: world where
  "retry_world =
     \<lparr> claim_clock = 1000, fetch_outcome = Inr ''fetched'', put_outcome = None,
       download_outcome = Inr ''stored'', analysis_outcome = Inr (''NO'', ''open fields'', []),
       complete_clock = 1010, fail_clock = 1010 \<rparr>"

text \<open>A parser and a validator for which one body is not JSON and another is not a message.\<close>

definition sample_loads :: "string \<Rightarrow> exn + string" where
  "sample_loads s =
     (if s = ''not json'' then Inl (Exn JSONDecodeError ''Expecting value: line 1 column 1 (char 0)'')
      else Inr s)"

text \<open>
  The same parser, with what CPython's \<open>json.loads\<close> does on a body of 1500 opening
  brackets: the scanner's nesting guard raises \<open>RecursionError\<close>, which is not a
  \<open>JSONDecodeError\<close>.
\<close>

definition nested_loads :: "string \<Rightarrow> exn + string" where
  "nested_loads s =
     (if s = replicate 1500 (CHR ''['')
      then Inl (Exn (OtherError ''RecursionError'')
                  ''maximum recursion depth exceeded while decoding a JSON array from a unicode string'')
      else sample_loads s)"

definition sample_validate :: "string \<Rightarrow> exn + TileJobMessage" where
  "sample_validate j =
     (if j = ''{}'' then Inl (Exn ValidationError ''3 validation errors for TileJobMessage'')
      else Inr mapbox_message)"

text \<open>
  A manifest \<open>tiles.csv\<close> in the bucket \<open>manifests\<close> with an ETag: the string that
  is hashed, its one block of sixteen words and the eighty words of its schedule.
\<close>

definition manifest_raw :: string where
  "manifest_raw = ''manifests:tiles.csv:9b2cf535f27731c974343645a3985328''"

definition manifest_block :: "32 word list" where
  "manifest_block =
     [1835101801, 1717924724, 1933210729, 1818587950,
      1668511290, 962736739, 1714762549, 1714566967,
      858874681, 926167860, 859190325, 1630746936,
      892547640, 2147483648, 0, 416]"

definition manifest_schedule :: "32 word list" where
  "manifest_schedule =
     [1835101801, 1717924724, 1933210729, 1818587950,
      1668511290, 962736739, 1714762549, 1714566967,
      858874681, 926167860, 859190325, 1630746936,
      892547640, 2147483648, 0, 416,
      1523905139, 2053662428, 1191079820, 3720418316,
      2486838230, 861722033, 294291457, 2323139819,
      3542016412, 2076952994, 2500217557, 3755579729,
      3045437593, 1286946184, 688899655, 2334864924,
      117605335, 3940219499, 2580701479, 1821226614,
      3051340363, 3632761834, 237777753, 2660164157,
      859522793, 2177446786, 1337914028, 2578753677,
      1362693679, 2706302372, 1932246153, 1552695499,
      424313722, 3916138028, 2122195478, 1776823510,
      121827874, 846421195, 1336527838, 2299709100,
      2943932392, 2105519611, 3554029683, 4241845295,
      2959071998, 953127854, 2990223365, 425047403,
      3775384149, 2676911624, 1736354393, 2358488270,
      3463780884, 3382789921, 3170042363, 1184598096,
      2819675614, 1169120335, 2228850952, 3241348387,
      326981953, 3653624280, 1576660240, 2793018597]"

section \<open>Notions used to state the properties of the retry engine\<close>

fun attempts :: "event list \<Rightarrow> nat list" where
  "attempts [] = []"
| "attempts (Attempt i t # es) = i # attempts es"
| "attempts (Sleep i t s # es) = attempts es"

fun sleeps :: "event list \<Rightarrow> (nat \<times> rat) list" where
  "sleeps [] = []"
| "sleeps (Attempt i t # es) = sleeps es"
| "sleeps (Sleep i t s # es) = (i, s) # sleeps es"

text \<open>
  The sleep after attempt \<open>i\<close> as the specification words it: the
  \<open>Retry-After\<close> value when the header is present and parses as a float, and
  \<open>backoff_base \<sqdot> 2\<^sup>i\<^sup>-\<^sup>1\<close> otherwise.
\<close>

definition specified_sleep :: "retry_call \<Rightarrow> nat \<Rightarrow> http_response \<Rightarrow> floatval" where
  "specified_sleep c i resp =
     (case retry_after resp of
        None \<Rightarrow> Finite (backoff_base c * 2 ^ (i - 1))
      | Some h \<Rightarrow>
          (case float_of c h of Some v \<Rightarrow> v | None \<Rightarrow> Finite (backoff_base c * 2 ^ (i - 1))))"

text \<open>Every attempt starts with the budget left, every sleep ends with the budget left.\<close>

definition within_deadline :: "retry_call \<Rightarrow> rat \<Rightarrow> event \<Rightarrow> bool" where
  "within_deadline c d e =
     (case e of
        Attempt i t \<Rightarrow> min_time_for_attempt_ms c / 1000 \<le> d - t
      | Sleep i t s \<Rightarrow> t + s \<le> d - min_time_for_attempt_ms c / 1000)"

text \<open>
  A run from attempt \<open>i\<close> at time \<open>t\<close> is paced when it is a chain of attempts
  \<open>i\<close>, \<open>i + 1\<close>, ... in which each attempt but the last is followed by the
  sleep of the specified length, begun when the request returns, and each sleep by the
  next attempt, begun when the sleep returns. \<open>resp j\<close> is the response to attempt
  \<open>j\<close>.
\<close>

fun paced :: "retry_call \<Rightarrow> (nat \<Rightarrow> http_response) \<Rightarrow> nat \<Rightarrow> rat \<Rightarrow> event list \<Rightarrow> bool" where
  "paced c resp i t [] = True"
| "paced c resp i t [e] = (e = Attempt i t)"
| "paced c resp i t (e # e' # es) =
     (e = Attempt i t \<and>
      (case e' of
         Sleep j u s \<Rightarrow>
           j = i \<and> u = t + snd (replies c i) \<and> specified_sleep c i (resp i) = Finite s \<and>
           int i < max_attempts c \<and> es \<noteq> [] \<and> paced c resp (Suc i) (u + s) es
       | Attempt j u \<Rightarrow> False))"

text \<open>A length \<open>time.sleep\<close> accepts.\<close>

definition sleepable :: "retry_call \<Rightarrow> floatval \<Rightarrow> bool" where
  "sleepable c v = (case v of Finite s \<Rightarrow> 0 \<le> s \<and> s \<le> sleep_limit c | _ \<Rightarrow> False)"

definition seconds :: "floatval \<Rightarrow> rat" where
  "seconds v = (case v of Finite s \<Rightarrow> s | _ \<Rightarrow> 0)"

text \<open>
  How a run that made \<open>n\<close> attempts, all answered with a retryable status, may end:
  with \<open>RetryExhaustedError\<close> carrying the response to the last allowed attempt, when
  that attempt was made; before that, with \<open>DeadlineExceededError\<close> when a deadline
  is set, or with the error \<open>time.sleep\<close> raises for the sleep specified after
  attempt \<open>n\<close>. It never returns a response.
\<close>

definition stops_as :: "retry_call \<Rightarrow> (nat \<Rightarrow> http_response) \<Rightarrow> nat \<Rightarrow> retry_error + http_response \<Rightarrow> bool" where
  "stops_as c resp n res =
     (case res of
        Inr r \<Rightarrow> False
      | Inl err \<Rightarrow>
          (case err of
             RetryExhaustedError r m \<Rightarrow>
               r = resp n \<and> m = max_attempts c \<and> int n = max_attempts c
           | DeadlineExceededError ms \<Rightarrow> deadline_epoch c \<noteq> None \<and> int n < max_attempts c
           | SleepValueError \<Rightarrow>
               1 \<le> n \<and> int n < max_attempts c \<and>
               time_sleep c (specified_sleep c n (resp n)) = Inl SleepValueError
           | SleepOverflowError \<Rightarrow>
               1 \<le> n \<and> int n < max_attempts c \<and>
               time_sleep c (specified_sleep c n (resp n)) = Inl SleepOverflowError
           | AssertionFailed \<Rightarrow> False
           | TransportError msg \<Rightarrow> False))"

text \<open>A provider that answers 503 every time, each request taking a tenth of a second.\<close>

definition always_503 :: retry_call where
  "always_503 =
     \<lparr> float_of = (\<lambda>h. if h = ''7'' then Some (Finite 7) else None),
       replies = (\<lambda>i. (Inr \<lparr> status_code = 503,
                                 retry_after = (if i = 2 then Some ''7'' else None) \<rparr>, 1 / 10)),
       sleep_limit = 9223372036,
       retryable_status = RETRYABLE_STATUS,
       max_attempts = 3,
       backoff_base = 1 / 2,
       deadline_epoch = None,
       min_time_for_attempt_ms = 5000 \<rparr>"

section \<open>Notions used to state the properties of the identifiers\<close>

definition digit_value :: "char \<Rightarrow> nat" where
  "digit_value ch = of_char ch - 48"

definition is_digit :: "char \<Rightarrow> bool" where
  "is_digit ch = (48 \<le> (of_char ch :: nat) \<and> (of_char ch :: nat) \<le> 57)"

definition is_hex :: "char \<Rightarrow> bool" where
  "is_hex ch = (ch \<in> set ''0123456789abcdef'')"

text \<open>The number a string of decimal digits denotes.\<close>

definition decimal_value :: "string \<Rightarrow> nat" where
  "decimal_value s = foldl (\<lambda>a ch. 10 * a + digit_value ch) 0 s"

text \<open>\<open>s\<close> is \<open>n\<close> written in decimal: digits only, no leading zero.\<close>

definition written_decimal :: "string \<Rightarrow> nat \<Rightarrow> bool" where
  "written_decimal s n =
     (s \<noteq> [] \<and> list_all is_digit s \<and> decimal_value s = n \<and> (hd s = CHR ''0'' \<longrightarrow> s = ''0''))"

text \<open>\<open>q\<close> is \<open>r\<close> rounded to the nearest integer, a tie going to the even one.\<close>

definition half_even_nearest :: "rat \<Rightarrow> int \<Rightarrow> bool" where
  "half_even_nearest r q =
     (\<bar>of_int q - r\<bar> \<le> 1 / 2 \<and> (\<bar>of_int q - r\<bar> = 1 / 2 \<longrightarrow> even q))"

text \<open>
  A second Google message: the same point to six decimals, given with more digits and with
  the zoom written out.
\<close>

definition google_message_again :: TileJobMessage where
  "google_message_again =
     \<lparr> run_id = ''run_x'', imagery_source = Google, source = SourceRef ''manifests'' ''coords.csv'',
       z = None, x = None, y = None, region = None,
       lat = Some (PyFloat False (123456781 / 10000000)),
       lon = Some (PyFloat True (76543214 / 10000000)), zoom = Some 18 \<rparr>"

section \<open>The claim as one conditional update\<close>

lemma eval_IfNotExists:
  "resolve names p = Some a \<Longrightarrow> vals v = Some w \<Longrightarrow>
   eval_operand names vals old (IfNotExists p v) = Some (if_absent old a w)"
  by (simp add: if_absent_def split: option.splits)

lemma if_absent_attempts:
  "attempts_typed old \<Longrightarrow> if_absent old ''attempts'' (N 0) = N (attempts_of old)"
  by (simp add: if_absent_def attempts_typed_def attempts_of_def split: option.splits attr.splits)

lemma apply_actions_append:
  "apply_actions names vals old acc (as @ bs) =
     (case apply_actions names vals old acc as of
        None \<Rightarrow> None
      | Some acc' \<Rightarrow> apply_actions names vals old acc' bs)"
  by (induction as arbitrary: acc) (auto split: option.splits)

lemma claim_vals_common:
  "claim_vals m now l '':processing'' = Some (S ''PROCESSING'')"
  "claim_vals m now l '':pending'' = Some (S ''PENDING'')"
  "claim_vals m now l '':failed'' = Some (S ''FAILED'')"
  "claim_vals m now l '':now'' = Some (N (of_int now))"
  "claim_vals m now l '':lock'' = Some (N (of_int l))"
  "claim_vals m now l '':one'' = Some (N 1)"
  "claim_vals m now l '':zero'' = Some (N 0)"
  "claim_vals m now l '':source'' = Some (S (source_name (imagery_source m)))"
  "claim_vals m now l '':last_claimed'' = Some (N (of_int now))"
  by (simp_all add: claim_vals_def claim_expr_values_def stored_of_def)

lemma claim_vals_mapbox:
  assumes "imagery_source m = Mapbox" "z m = Some zi" "x m = Some xi" "y m = Some yi"
  shows "claim_vals m now l '':z'' = Some (N (of_int zi))"
    "claim_vals m now l '':x'' = Some (N (of_int xi))"
    "claim_vals m now l '':y'' = Some (N (of_int yi))"
    "region m = Some r \<Longrightarrow> r \<noteq> [] \<Longrightarrow> claim_vals m now l '':region'' = Some (S r)"
  using assms by (simp_all add: claim_vals_def claim_expr_values_def stored_of_def region_given_def)

lemma claim_vals_google:
  assumes "imagery_source m = Google" "lat m = Some la" "lon m = Some lo" "zoom m = Some zm"
  shows "claim_vals m now l '':lat'' = Some (N (float_value la))"
    "claim_vals m now l '':lon'' = Some (N (float_value lo))"
    "claim_vals m now l '':zoom'' = Some (N (of_int zm))"
  using assms by (simp_all add: claim_vals_def claim_expr_values_def stored_of_def)

lemma resolve_claim:
  "resolve (claim_expr_names m) ''#status'' = Some ''status''"
  "resolve (claim_expr_names m) ''attempts'' = Some ''attempts''"
  "resolve (claim_expr_names m) ''lock_until_epoch'' = Some ''lock_until_epoch''"
  "resolve (claim_expr_names m) ''started_at_epoch'' = Some ''started_at_epoch''"
  "resolve (claim_expr_names m) ''last_claimed_at_epoch'' = Some ''last_claimed_at_epoch''"
  "resolve (claim_expr_names m) ''imagery_source'' = Some ''imagery_source''"
  "resolve (claim_expr_names m) ''z'' = Some ''z''"
  "resolve (claim_expr_names m) ''x'' = Some ''x''"
  "resolve (claim_expr_names m) ''y'' = Some ''y''"
  "resolve (claim_expr_names m) ''lat'' = Some ''lat''"
  "resolve (claim_expr_names m) ''lon'' = Some ''lon''"
  "resolve (claim_expr_names m) ''zoom'' = Some ''zoom''"
  "imagery_source m = Mapbox \<Longrightarrow> region_given m \<Longrightarrow>
     resolve (claim_expr_names m) ''#region'' = Some ''region''"
  by (simp_all add: resolve_def claim_expr_names_def)

lemma claim_actions:
  assumes typed: "attempts_typed old"
    and valid: "message_valid m"
    and zm: "imagery_source m = Google \<longrightarrow> zoom m \<noteq> None"
  shows "apply_actions (claim_expr_names m) (claim_vals m now l) old acc (claim_update_expr m)
         = Some (claimed_item m now l old acc)"
proof (cases "imagery_source m")
  case Mapbox
  with valid obtain zi xi yi where c: "z m = Some zi" "x m = Some xi" "y m = Some yi"
    by (auto simp: message_valid_def validate_source_specific_fields_def)
  show ?thesis
  proof (cases "region_given m")
    case True
    then obtain r where r: "region m = Some r" "r \<noteq> []"
      by (auto simp: region_given_def split: option.splits)
    show ?thesis
      using Mapbox c r True
      by (simp add: claim_update_expr_def claimed_item_def common_item_def resolve_claim
          claim_vals_common claim_vals_mapbox eval_IfNotExists if_absent_attempts [OF typed]
          del: eval_operand.simps(2))
  next
    case False
    show ?thesis
      using Mapbox c False
      by (auto simp add: claim_update_expr_def claimed_item_def common_item_def resolve_claim
          claim_vals_common claim_vals_mapbox eval_IfNotExists if_absent_attempts [OF typed]
          region_given_def
          simp del: eval_operand.simps(2) split: option.splits)
  qed
next
  case Google
  with valid zm obtain la lo zo where c: "lat m = Some la" "lon m = Some lo" "zoom m = Some zo"
    by (auto simp: message_valid_def validate_source_specific_fields_def)
  show ?thesis
    using Google c
    by (simp add: claim_update_expr_def claimed_item_def common_item_def resolve_claim
        claim_vals_common claim_vals_google eval_IfNotExists if_absent_attempts [OF typed]
        del: eval_operand.simps(2))
qed

lemma claim_values_ok:
  "message_valid m \<Longrightarrow> imagery_source m = Google \<longrightarrow> zoom m \<noteq> None \<Longrightarrow>
   list_all (\<lambda>(k, v). wire_ok v) (claim_expr_values m now l)"
  by (cases "imagery_source m")
     (auto simp: claim_expr_values_def wire_ok_def message_valid_def
      validate_source_specific_fields_def region_given_def split: option.splits)

lemma claim_condition:
  "eval_condition (claim_expr_names m) (claim_vals m now l) old claim_condition_expr
   = Some (claimable now old)"
  by (auto simp add: claim_condition_expr_def resolve_claim claim_vals_common claimable_def
      split: option.splits attr.splits)

lemma claim_update:
  assumes typed: "attempts_typed (stored_row db tbl (run_id m) tid)"
    and valid: "message_valid m"
    and zm: "imagery_source m = Google \<longrightarrow> zoom m \<noteq> None"
  shows "update_item (claim_request tbl m tid now l) db =
     (if claimable now (stored_row db tbl (run_id m) tid)
      then (let new = claimed_item m now l (stored_row db tbl (run_id m) tid)
                        (stored_row db tbl (run_id m) tid ++ key_item (job_key (run_id m) tid))
            in (Inr new, db(tbl := (db tbl)(job_key (run_id m) tid \<mapsto> new))))
      else (Inl (client_error ''ConditionalCheckFailedException''), db))"
proof -
  let ?rq = "claim_request tbl m tid now l"
  have sel: "TableName ?rq = tbl" "Key ?rq = job_key (run_id m) tid"
    "UpdateExpression ?rq = claim_update_expr m"
    "ExpressionAttributeNames ?rq = claim_expr_names m"
    "ExpressionAttributeValues ?rq = claim_expr_values m now l"
    "ConditionExpression ?rq = Some claim_condition_expr"
    "ReturnValues ?rq = ALL_NEW"
    by (simp_all add: claim_request_def)
  have old: "(case db tbl (job_key (run_id m) tid) of Some it \<Rightarrow> it | None \<Rightarrow> Map.empty)
      = stored_row db tbl (run_id m) tid"
    by (simp add: stored_row_def)
  have vals: "map_of (map (\<lambda>(k, v). (k, stored_of v)) (claim_expr_values m now l)) = claim_vals m now l"
    by (simp add: claim_vals_def)
  show ?thesis
    unfolding update_item_def sel old vals Let_def returned_def
    using claim_values_ok [OF valid zm, of now l]
    by (simp add: claim_condition claim_actions [OF typed valid zm])
qed

lemma key_item_job:
  "key_item (job_key rid tid) = [''tile_id'' \<mapsto> S tid, ''run_id'' \<mapsto> S rid]"
  by (simp add: key_item_def job_key_def)

lemma claimed_item_written:
  assumes valid: "message_valid m"
    and zm: "imagery_source m = Google \<longrightarrow> zoom m \<noteq> None"
  shows "claimed_item m now l old acc ''status'' = Some (S ''PROCESSING'')"
    and "claimed_item m now l old acc ''attempts'' = Some (N (attempts_of old + 1))"
    and "claimed_item m now l old acc ''lock_until_epoch'' = Some (N (of_int l))"
    and "claimed_item m now l old acc ''started_at_epoch'' =
           Some (if_absent old ''started_at_epoch'' (N (of_int now)))"
    and "claimed_item m now l old acc ''last_claimed_at_epoch'' = Some (N (of_int now))"
    and "claimed_item m now l old acc ''imagery_source'' =
           Some (if_absent old ''imagery_source'' (S (source_name (imagery_source m))))"
proof -
  consider (mb) zi xi yi where "imagery_source m = Mapbox" "z m = Some zi" "x m = Some xi" "y m = Some yi"
    | (gg) la lo zo where "imagery_source m = Google" "lat m = Some la" "lon m = Some lo" "zoom m = Some zo"
    using valid zm
    by (cases "imagery_source m")
       (auto simp: message_valid_def validate_source_specific_fields_def)
  then show "claimed_item m now l old acc ''status'' = Some (S ''PROCESSING'')"
    and "claimed_item m now l old acc ''attempts'' = Some (N (attempts_of old + 1))"
    and "claimed_item m now l old acc ''lock_until_epoch'' = Some (N (of_int l))"
    and "claimed_item m now l old acc ''started_at_epoch'' =
           Some (if_absent old ''started_at_epoch'' (N (of_int now)))"
    and "claimed_item m now l old acc ''last_claimed_at_epoch'' = Some (N (of_int now))"
    and "claimed_item m now l old acc ''imagery_source'' =
           Some (if_absent old ''imagery_source'' (S (source_name (imagery_source m))))"
    by (cases; simp add: claimed_item_def common_item_def Let_def split: option.splits)+
qed

lemma claimed_item_mapbox:
  assumes "imagery_source m = Mapbox" "z m = Some zi" "x m = Some xi" "y m = Some yi"
  shows "claimed_item m now l old acc ''z'' = Some (if_absent old ''z'' (N (of_int zi)))"
    and "claimed_item m now l old acc ''x'' = Some (if_absent old ''x'' (N (of_int xi)))"
    and "claimed_item m now l old acc ''y'' = Some (if_absent old ''y'' (N (of_int yi)))"
    and "claimed_item m now l old acc ''region'' =
           (if region_given m
            then map_option (\<lambda>r. if_absent old ''region'' (S r)) (region m)
            else acc ''region'')"
    and "claimed_item m now l old acc ''lat'' = acc ''lat''"
    and "claimed_item m now l old acc ''lon'' = acc ''lon''"
    and "claimed_item m now l old acc ''zoom'' = acc ''zoom''"
  using assms
  by (simp_all add: claimed_item_def common_item_def region_given_def Let_def split: option.splits)

lemma claimed_item_google:
  assumes "imagery_source m = Google" "lat m = Some la" "lon m = Some lo" "zoom m = Some zo"
  shows "claimed_item m now l old acc ''lat'' = Some (if_absent old ''lat'' (N (float_value la)))"
    and "claimed_item m now l old acc ''lon'' = Some (if_absent old ''lon'' (N (float_value lo)))"
    and "claimed_item m now l old acc ''zoom'' = Some (if_absent old ''zoom'' (N (of_int zo)))"
    and "claimed_item m now l old acc ''z'' = acc ''z''"
    and "claimed_item m now l old acc ''x'' = acc ''x''"
    and "claimed_item m now l old acc ''y'' = acc ''y''"
    and "claimed_item m now l old acc ''region'' = acc ''region''"
  using assms
  by (simp_all add: claimed_item_def common_item_def Let_def split: option.splits)

lemma claimed_item_other:
  "a \<notin> claim_written \<Longrightarrow> claimed_item m now l old acc a = acc a"
  by (auto simp add: claimed_item_def common_item_def claim_written_def Let_def
      split: option.splits ImagerySource.splits)

lemma claimed_result_ok:
  assumes att: "new ''attempts'' = Some (N a)"
    and typed: "checkpoint_typed new"
  shows "claimed_result tid now new =
     Inr \<lparr> result = CLAIMED, tile_id = tid, attempt = Some (py_int a),
           claimed_at_epoch = Some now, checkpoint = checkpoint_of new \<rparr>"
  using typed
  by (auto simp add: claimed_result_def att checkpoint_typed_def opt_string_def checkpoint_of_def
      split: option.splits attr.splits)

lemma checkpoint_attrs_kept:
  "claimed_item m now l old (old ++ key_item (job_key rid tid)) ''s3_bucket'' = old ''s3_bucket''"
  "claimed_item m now l old (old ++ key_item (job_key rid tid)) ''s3_key'' = old ''s3_key''"
  by (simp_all add: claimed_item_other claim_written_def key_item_job map_add_def)

lemma claim_job_unfold:
  assumes valid: "message_valid m"
    and zm: "imagery_source m = Google \<longrightarrow> zoom m \<noteq> None"
    and tid: "get_tile_id m = Some tid"
    and att: "attempts_typed (stored_row db tbl (run_id m) tid)"
    and cp: "checkpoint_typed (stored_row db tbl (run_id m) tid)"
  shows "claim_job tbl m now_epoch lock clock db =
     (let now = (case now_epoch of Some n \<Rightarrow> n | None \<Rightarrow> clock);
          old = stored_row db tbl (run_id m) tid
      in if claimable now old
         then (Inr \<lparr> result = CLAIMED, tile_id = tid,
                     attempt = Some (py_int (attempts_of old + 1)),
                     claimed_at_epoch = Some now, checkpoint = checkpoint_of old \<rparr>,
               db(tbl := (db tbl)(job_key (run_id m) tid \<mapsto>
                    claimed_item m now (now + lock) old (old ++ key_item (job_key (run_id m) tid)))))
         else (case get_job_status tbl (run_id m) tid db of
                 Inl e \<Rightarrow> (Inl e, db)
               | Inr current_status \<Rightarrow>
                   (Inr \<lparr> result = (if current_status = Some COMPLETED
                                     then ALREADY_COMPLETED else LOCKED_BY_OTHER),
                          tile_id = tid, attempt = None, claimed_at_epoch = None,
                          checkpoint = None \<rparr>, db)))"
proof -
  define now where "now = (case now_epoch of Some n \<Rightarrow> n | None \<Rightarrow> clock)"
  define old where "old = stored_row db tbl (run_id m) tid"
  define new where "new = claimed_item m now (now + lock) old (old ++ key_item (job_key (run_id m) tid))"
  have cpn: "checkpoint_typed new" "checkpoint_of new = checkpoint_of old"
    using cp by (simp_all add: checkpoint_typed_def checkpoint_of_def new_def checkpoint_attrs_kept old_def)
  have res: "claimed_result tid now new =
     Inr \<lparr> result = CLAIMED, tile_id = tid, attempt = Some (py_int (attempts_of old + 1)),
           claimed_at_epoch = Some now, checkpoint = checkpoint_of old \<rparr>"
    using claimed_result_ok [OF _ cpn(1)] claimed_item_written(2) [OF valid zm] cpn(2)
    by (simp add: new_def)
  show ?thesis
    unfolding claim_job_def Let_def now_def [symmetric]
    using res
    by (simp add: tid claim_update [OF att valid zm] old_def [symmetric] new_def [symmetric]
        Let_def client_error_def)
qed

section \<open>Evaluation of the concrete inputs\<close>

lemma str_nat_numeral:
  "str_nat (numeral k) =
     (if (numeral k :: nat) < 10 then [digit_char (numeral k)]
      else str_nat (numeral k div 10) @ [digit_char (numeral k mod 10)])"
  by (rule str_nat.simps)

lemma str_nat_small: "str_nat 0 = ''0''" "str_nat 1 = ''1''" "str_nat (Suc 0) = ''1''"
  by (simp_all add: str_nat.simps digit_char_def)

lemma digit_char_simps:
  "digit_char 0 = CHR ''0''" "digit_char 1 = CHR ''1''" "digit_char 2 = CHR ''2''"
  "digit_char 3 = CHR ''3''" "digit_char 4 = CHR ''4''" "digit_char 5 = CHR ''5''"
  "digit_char 6 = CHR ''6''" "digit_char 7 = CHR ''7''" "digit_char 8 = CHR ''8''"
  "digit_char 9 = CHR ''9''" "digit_char (Suc 0) = CHR ''1''"
  by (simp_all add: digit_char_def)

lemmas str_eval = str_nat_numeral str_nat_small digit_char_simps str_int_def

lemma mapbox_message_tile_id: "get_tile_id mapbox_message = Some ''14/8716/5378''"
  by (simp add: get_tile_id_def mapbox_message_def str_eval)

lemma mapbox_message_valid: "message_valid mapbox_message"
  by (simp add: message_valid_def mapbox_message_def int_field_ok_def float_field_ok_def
      validate_source_specific_fields_def)

lemma checkpoint_only_row:
  "checkpoint_only ''TileJobs'' (job_key ''run_x'' ''14/8716/5378'') =
     Some [''tile_id'' \<mapsto> S ''14/8716/5378'', ''run_id'' \<mapsto> S ''run_x'', ''s3_bucket'' \<mapsto> S ''imagery'',
           ''s3_key'' \<mapsto> S ''runs/run_x/tiles/z=14/x=8716/y=5378.jpg'']"
  by (simp add: checkpoint_only_def checkpoint_s3_def update_item_def wire_ok_def stored_of_def
      no_tables_def resolve_def key_item_job Let_def)

lemmas mapbox_message_eval = mapbox_message_valid mapbox_message_tile_id

lemma no_tables_row: "stored_row no_tables tbl rid tid = Map.empty"
  by (simp add: stored_row_def no_tables_def)

lemma typed_empty: "attempts_typed Map.empty" "checkpoint_typed Map.empty" "status_typed Map.empty"
  by (simp_all add: attempts_typed_def checkpoint_typed_def opt_string_def status_typed_def)

lemma mapbox_message_fields:
  "run_id mapbox_message = ''run_x''" "imagery_source mapbox_message = Mapbox"
  "z mapbox_message = Some 14" "x mapbox_message = Some 8716" "y mapbox_message = Some 5378"
  "region mapbox_message = None" "zoom mapbox_message = None"
  by (simp_all add: mapbox_message_def)

section \<open>Claim protocol\<close>

text \<open>
  C1, as amended. Take a valid message and a stored item whose \<open>attempts\<close>, if
  present, is a number and whose \<open>s3_bucket\<close> and \<open>s3_key\<close>, if present,
  are strings; a Google message carries its zoom. Then \<open>claim_job\<close> returns
  \<open>CLAIMED\<close> exactly when the item has no \<open>status\<close> attribute (the item is
  absent, or it is present without a status), or its status is \<open>PENDING\<close> or
  \<open>FAILED\<close>, or its status is \<open>PROCESSING\<close> with \<open>lock_until_epoch\<close>
  missing or strictly less than now. A successful claim is one update of that item alone:
  status becomes \<open>PROCESSING\<close>, \<open>attempts\<close> grows by one (from 0 when
  missing), \<open>lock_until_epoch\<close> becomes now + lock_seconds,
  \<open>started_at_epoch\<close> is set only if missing, \<open>last_claimed_at_epoch\<close>
  becomes now, and \<open>imagery_source\<close>, the coordinate fields and a given region
  are written only if missing; every other attribute and every other item stay as they
  were.
\<close>

theorem claim_job_claims_when_claimable:
  assumes valid: "message_valid m"
    and zm: "imagery_source m = Google \<longrightarrow> zoom m \<noteq> None"
    and tid: "get_tile_id m = Some tid"
    and att: "attempts_typed (stored_row db tbl (run_id m) tid)"
    and cp: "checkpoint_typed (stored_row db tbl (run_id m) tid)"
  shows
    "let now = (case now_epoch of Some n \<Rightarrow> n | None \<Rightarrow> clock);
         old = stored_row db tbl (run_id m) tid;
         outcome = claim_job tbl m now_epoch lock clock db;
         new = stored_row (snd outcome) tbl (run_id m) tid
     in ((\<exists>r. fst outcome = Inr r \<and> result r = CLAIMED) \<longleftrightarrow> claimable now old) \<and>
        (claimable now old \<longrightarrow>
           new ''status'' = Some (S ''PROCESSING'') \<and>
           new ''attempts'' = Some (N (attempts_of old + 1)) \<and>
           new ''lock_until_epoch'' = Some (N (of_int (now + lock))) \<and>
           new ''started_at_epoch'' = Some (if_absent old ''started_at_epoch'' (N (of_int now))) \<and>
           new ''last_claimed_at_epoch'' = Some (N (of_int now)) \<and>
           new ''imagery_source'' =
             Some (if_absent old ''imagery_source'' (S (source_name (imagery_source m)))) \<and>
           (imagery_source m = Mapbox \<longrightarrow>
              new ''z'' = map_option (\<lambda>i. if_absent old ''z'' (N (of_int i))) (z m) \<and>
              new ''x'' = map_option (\<lambda>i. if_absent old ''x'' (N (of_int i))) (x m) \<and>
              new ''y'' = map_option (\<lambda>i. if_absent old ''y'' (N (of_int i))) (y m) \<and>
              new ''region'' =
                (if region_given m
                 then map_option (\<lambda>r. if_absent old ''region'' (S r)) (region m)
                 else old ''region'') \<and>
              new ''lat'' = old ''lat'' \<and> new ''lon'' = old ''lon'' \<and> new ''zoom'' = old ''zoom'') \<and>
           (imagery_source m = Google \<longrightarrow>
              new ''lat'' = map_option (\<lambda>f. if_absent old ''lat'' (N (float_value f))) (lat m) \<and>
              new ''lon'' = map_option (\<lambda>f. if_absent old ''lon'' (N (float_value f))) (lon m) \<and>
              new ''zoom'' = map_option (\<lambda>i. if_absent old ''zoom'' (N (of_int i))) (zoom m) \<and>
              new ''z'' = old ''z'' \<and> new ''x'' = old ''x'' \<and> new ''y'' = old ''y'' \<and>
              new ''region'' = old ''region'') \<and>
           new ''run_id'' = Some (S (run_id m)) \<and> new ''tile_id'' = Some (S tid) \<and>
           (\<forall>a. a \<notin> claim_written \<and> a \<noteq> ''run_id'' \<and> a \<noteq> ''tile_id'' \<longrightarrow> new a = old a) \<and>
           (\<forall>t k. (t, k) \<noteq> (tbl, job_key (run_id m) tid) \<longrightarrow> snd outcome t k = db t k))"
proof -
  define now where "now = (case now_epoch of Some n \<Rightarrow> n | None \<Rightarrow> clock)"
  define old where "old = stored_row db tbl (run_id m) tid"
  define acc where "acc = old ++ key_item (job_key (run_id m) tid)"
  define new where "new = claimed_item m now (now + lock) old acc"
  note unf = claim_job_unfold [OF valid zm tid att cp, of now_epoch lock clock,
      unfolded Let_def, folded now_def old_def, folded acc_def, folded new_def]
  have acc: "acc ''z'' = old ''z''" "acc ''x'' = old ''x''" "acc ''y'' = old ''y''"
    "acc ''region'' = old ''region''" "acc ''lat'' = old ''lat''" "acc ''lon'' = old ''lon''"
    "acc ''zoom'' = old ''zoom''" "acc ''run_id'' = Some (S (run_id m))" "acc ''tile_id'' = Some (S tid)"
    "\<And>a. a \<noteq> ''run_id'' \<Longrightarrow> a \<noteq> ''tile_id'' \<Longrightarrow> acc a = old a"
    by (simp_all add: acc_def key_item_job map_add_def)
  have iff: "(\<exists>r. fst (claim_job tbl m now_epoch lock clock db) = Inr r \<and> result r = CLAIMED)
      \<longleftrightarrow> claimable now old"
    by (auto simp add: unf split: sum.splits)
  have row: "claimable now old \<Longrightarrow>
      stored_row (snd (claim_job tbl m now_epoch lock clock db)) tbl (run_id m) tid = new"
    by (simp add: unf stored_row_def)
  have others: "\<And>t k. (t, k) \<noteq> (tbl, job_key (run_id m) tid) \<Longrightarrow>
      snd (claim_job tbl m now_epoch lock clock db) t k = db t k"
    by (auto simp add: unf split: sum.splits)
  have common: "new ''status'' = Some (S ''PROCESSING'')"
    "new ''attempts'' = Some (N (attempts_of old + 1))"
    "new ''lock_until_epoch'' = Some (N (of_int (now + lock)))"
    "new ''started_at_epoch'' = Some (if_absent old ''started_at_epoch'' (N (of_int now)))"
    "new ''last_claimed_at_epoch'' = Some (N (of_int now))"
    "new ''imagery_source'' = Some (if_absent old ''imagery_source'' (S (source_name (imagery_source m))))"
    unfolding new_def by (rule claimed_item_written [OF valid zm])+
  have keys: "new ''run_id'' = Some (S (run_id m))" "new ''tile_id'' = Some (S tid)"
    "\<And>a. a \<notin> claim_written \<Longrightarrow> a \<noteq> ''run_id'' \<Longrightarrow> a \<noteq> ''tile_id'' \<Longrightarrow> new a = old a"
    by (simp_all add: new_def claimed_item_other claim_written_def acc)
  have mb: "imagery_source m = Mapbox \<Longrightarrow>
      new ''z'' = map_option (\<lambda>i. if_absent old ''z'' (N (of_int i))) (z m) \<and>
      new ''x'' = map_option (\<lambda>i. if_absent old ''x'' (N (of_int i))) (x m) \<and>
      new ''y'' = map_option (\<lambda>i. if_absent old ''y'' (N (of_int i))) (y m) \<and>
      new ''region'' =
        (if region_given m
         then map_option (\<lambda>r. if_absent old ''region'' (S r)) (region m)
         else old ''region'') \<and>
      new ''lat'' = old ''lat'' \<and> new ''lon'' = old ''lon'' \<and> new ''zoom'' = old ''zoom''"
  proof -
    assume src: "imagery_source m = Mapbox"
    with valid obtain zi xi yi where c: "z m = Some zi" "x m = Some xi" "y m = Some yi"
      by (auto simp: message_valid_def validate_source_specific_fields_def)
    show ?thesis
      unfolding new_def by (simp add: claimed_item_mapbox [OF src c] c acc)
  qed
  have gg: "imagery_source m = Google \<Longrightarrow>
      new ''lat'' = map_option (\<lambda>f. if_absent old ''lat'' (N (float_value f))) (lat m) \<and>
      new ''lon'' = map_option (\<lambda>f. if_absent old ''lon'' (N (float_value f))) (lon m) \<and>
      new ''zoom'' = map_option (\<lambda>i. if_absent old ''zoom'' (N (of_int i))) (zoom m) \<and>
      new ''z'' = old ''z'' \<and> new ''x'' = old ''x'' \<and> new ''y'' = old ''y'' \<and>
      new ''region'' = old ''region''"
  proof -
    assume src: "imagery_source m = Google"
    with valid zm obtain la lo zo where c: "lat m = Some la" "lon m = Some lo" "zoom m = Some zo"
      by (auto simp: message_valid_def validate_source_specific_fields_def)
    show ?thesis
      unfolding new_def by (simp add: claimed_item_google [OF src c] c acc)
  qed
  show ?thesis
    unfolding Let_def now_def [symmetric] old_def [symmetric]
    using iff row others common keys mb gg by simp
qed

text \<open>The theorem at the first claim of a Mapbox tile in an empty table.\<close>

theorem claim_job_claims_when_claimable_witness:
  "message_valid mapbox_message \<and>
   get_tile_id mapbox_message = Some ''14/8716/5378'' \<and>
   claimable 1000 (stored_row no_tables ''TileJobs'' ''run_x'' ''14/8716/5378'') \<and>
   (\<exists>r. fst (claim_job ''TileJobs'' mapbox_message (Some 1000) 900 0 no_tables) = Inr r \<and>
        result r = CLAIMED) \<and>
   stored_row (snd (claim_job ''TileJobs'' mapbox_message (Some 1000) 900 0 no_tables))
     ''TileJobs'' ''run_x'' ''14/8716/5378'' ''status'' = Some (S ''PROCESSING'') \<and>
   stored_row (snd (claim_job ''TileJobs'' mapbox_message (Some 1000) 900 0 no_tables))
     ''TileJobs'' ''run_x'' ''14/8716/5378'' ''attempts'' = Some (N 1) \<and>
   stored_row (snd (claim_job ''TileJobs'' mapbox_message (Some 1000) 900 0 no_tables))
     ''TileJobs'' ''run_x'' ''14/8716/5378'' ''lock_until_epoch'' = Some (N 1900) \<and>
   stored_row (snd (claim_job ''TileJobs'' mapbox_message (Some 1000) 900 0 no_tables))
     ''TileJobs'' ''run_x'' ''14/8716/5378'' ''z'' = Some (N 14)"
proof -
  have c: "claimable 1000 (stored_row no_tables ''TileJobs'' ''run_x'' ''14/8716/5378'')"
    by (simp add: claimable_def no_tables_row)
  have a: "attempts_typed (stored_row no_tables ''TileJobs'' (run_id mapbox_message) ''14/8716/5378'')"
    "checkpoint_typed (stored_row no_tables ''TileJobs'' (run_id mapbox_message) ''14/8716/5378'')"
    by (simp_all add: no_tables_row typed_empty)
  have g: "imagery_source mapbox_message = Google \<longrightarrow> zoom mapbox_message \<noteq> None"
    by (simp add: mapbox_message_fields)
  show ?thesis
    using claim_job_claims_when_claimable [OF mapbox_message_valid g mapbox_message_tile_id a,
        where now_epoch = "Some 1000" and clock = 0 and lock = 900] c
    by (simp add: Let_def mapbox_message_fields mapbox_message_valid mapbox_message_tile_id
        attempts_of_def if_absent_def no_tables_row)
qed

text \<open>
  C1 as stated fails on an item that exists without a status (here written by
  \<open>checkpoint_s3\<close> alone): the item is present, its status is none of
  \<open>PENDING\<close>, \<open>FAILED\<close>, \<open>PROCESSING\<close>, and the claim succeeds.
\<close>

theorem claim_job_claims_item_without_status:
  "checkpoint_only ''TileJobs'' (job_key ''run_x'' ''14/8716/5378'') \<noteq> None \<and>
   stored_row checkpoint_only ''TileJobs'' ''run_x'' ''14/8716/5378'' ''status'' = None \<and>
   message_valid mapbox_message \<and>
   fst (claim_job ''TileJobs'' mapbox_message (Some 1000) 900 0 checkpoint_only) =
     Inr \<lparr> result = CLAIMED, tile_id = ''14/8716/5378'', attempt = Some 1,
           claimed_at_epoch = Some 1000,
           checkpoint = Some (S3Checkpoint ''imagery'' ''runs/run_x/tiles/z=14/x=8716/y=5378.jpg'') \<rparr>"
proof -
  let ?old = "stored_row checkpoint_only ''TileJobs'' ''run_x'' ''14/8716/5378''"
  have old: "?old = [''tile_id'' \<mapsto> S ''14/8716/5378'', ''run_id'' \<mapsto> S ''run_x'',
      ''s3_bucket'' \<mapsto> S ''imagery'', ''s3_key'' \<mapsto> S ''runs/run_x/tiles/z=14/x=8716/y=5378.jpg'']"
    by (simp add: stored_row_def checkpoint_only_row)
  have a: "attempts_typed (stored_row checkpoint_only ''TileJobs'' (run_id mapbox_message) ''14/8716/5378'')"
    "checkpoint_typed (stored_row checkpoint_only ''TileJobs'' (run_id mapbox_message) ''14/8716/5378'')"
    by (simp_all add: mapbox_message_fields old attempts_typed_def checkpoint_typed_def opt_string_def)
  have g: "imagery_source mapbox_message = Google \<longrightarrow> zoom mapbox_message \<noteq> None"
    by (simp add: mapbox_message_fields)
  have c: "claimable 1000 ?old" "attempts_of ?old = 0"
    "checkpoint_of ?old = Some (S3Checkpoint ''imagery'' ''runs/run_x/tiles/z=14/x=8716/y=5378.jpg'')"
    by (simp_all add: old claimable_def attempts_of_def checkpoint_of_def)
  have "fst (claim_job ''TileJobs'' mapbox_message (Some 1000) 900 0 checkpoint_only) =
     Inr \<lparr> result = CLAIMED, tile_id = ''14/8716/5378'', attempt = Some 1,
           claimed_at_epoch = Some 1000,
           checkpoint = Some (S3Checkpoint ''imagery'' ''runs/run_x/tiles/z=14/x=8716/y=5378.jpg'') \<rparr>"
    using c
    by (simp add: claim_job_unfold [OF mapbox_message_valid g mapbox_message_tile_id a]
        mapbox_message_fields Let_def py_int_def)
  then show ?thesis
    by (simp add: checkpoint_only_row old mapbox_message_valid)
qed

section \<open>What an update leaves alone\<close>

lemma apply_action_frame:
  "apply_action names vals old acc act = Some new \<Longrightarrow>
   resolve names (action_path act) \<noteq> Some a \<Longrightarrow> new a = acc a"
  by (cases act) (auto split: option.splits attr.splits)

lemma apply_actions_frame:
  "apply_actions names vals old acc acts = Some new \<Longrightarrow>
   \<forall>act \<in> set acts. resolve names (action_path act) \<noteq> Some a \<Longrightarrow> new a = acc a"
proof (induction acts arbitrary: acc)
  case Nil
  then show ?case by simp
next
  case (Cons act acts)
  from Cons.prems(1) obtain mid where
    mid: "apply_action names vals old acc act = Some mid"
    and rest: "apply_actions names vals old mid acts = Some new"
    by (auto split: option.splits)
  have "new a = mid a" using Cons.IH [OF rest] Cons.prems(2) by simp
  moreover have "mid a = acc a" using apply_action_frame [OF mid] Cons.prems(2) by simp
  ultimately show ?case by simp
qed

lemma update_item_error: "update_item rq db = (Inl e, db') \<Longrightarrow> db' = db"
  by (auto simp add: update_item_def Let_def split: if_splits option.splits bool.splits)

lemma update_item_other:
  "(tbl, k) \<noteq> (TableName rq, Key rq) \<Longrightarrow> snd (update_item rq db) tbl k = db tbl k"
  by (auto simp add: update_item_def Let_def split: if_splits option.splits bool.splits)

lemma update_item_success:
  assumes "update_item rq db = (Inr r, db')"
  shows "\<exists>new. db' = db(TableName rq := (db (TableName rq))(Key rq \<mapsto> new)) \<and>
           r = returned rq new \<and>
           apply_actions (ExpressionAttributeNames rq)
             (map_of (map (\<lambda>(k, v). (k, stored_of v)) (ExpressionAttributeValues rq)))
             (case db (TableName rq) (Key rq) of Some it \<Rightarrow> it | None \<Rightarrow> Map.empty)
             ((case db (TableName rq) (Key rq) of Some it \<Rightarrow> it | None \<Rightarrow> Map.empty)
                ++ key_item (Key rq))
             (UpdateExpression rq) = Some new \<and>
           (case ConditionExpression rq of
              None \<Rightarrow> True
            | Some c \<Rightarrow>
                eval_condition (ExpressionAttributeNames rq)
                  (map_of (map (\<lambda>(k, v). (k, stored_of v)) (ExpressionAttributeValues rq)))
                  (case db (TableName rq) (Key rq) of Some it \<Rightarrow> it | None \<Rightarrow> Map.empty) c
                = Some True)"
  using assms
  by (auto simp add: update_item_def Let_def split: if_splits option.splits bool.splits)

lemma job_key_inject: "job_key rid tid = job_key rid' tid' \<longleftrightarrow> rid = rid' \<and> tid = tid'"
  by (auto simp add: job_key_def)

lemma key_item_job_other:
  "a \<noteq> ''run_id'' \<Longrightarrow> a \<noteq> ''tile_id'' \<Longrightarrow> (old ++ key_item (job_key rid tid)) a = old a"
  by (simp add: key_item_job map_add_def)

text \<open>An update of a job item that does not assign an attribute leaves it as it was.\<close>

lemma update_item_frame:
  assumes upd: "update_item rq db = (r, db')"
    and key: "Key rq = job_key rid' tid'"
    and untouched: "\<forall>act \<in> set (UpdateExpression rq).
        resolve (ExpressionAttributeNames rq) (action_path act) \<noteq> Some a"
    and a: "a \<noteq> ''run_id''" "a \<noteq> ''tile_id''"
  shows "stored_row db' tbl rid tid a = stored_row db tbl rid tid a"
proof (cases r)
  case (Inl e)
  with upd have "db' = db" by (auto dest: update_item_error)
  then show ?thesis by simp
next
  case (Inr it)
  with upd obtain new where
    db': "db' = db(TableName rq := (db (TableName rq))(Key rq \<mapsto> new))"
    and new: "apply_actions (ExpressionAttributeNames rq)
             (map_of (map (\<lambda>(k, v). (k, stored_of v)) (ExpressionAttributeValues rq)))
             (case db (TableName rq) (Key rq) of Some it \<Rightarrow> it | None \<Rightarrow> Map.empty)
             ((case db (TableName rq) (Key rq) of Some it \<Rightarrow> it | None \<Rightarrow> Map.empty)
                ++ key_item (Key rq))
             (UpdateExpression rq) = Some new"
    using update_item_success [of rq db it db'] by auto
  have keep: "new a = (case db (TableName rq) (Key rq) of Some it \<Rightarrow> it | None \<Rightarrow> Map.empty) a"
    using apply_actions_frame [OF new untouched] a by (simp add: key key_item_job_other)
  show ?thesis
  proof (cases "TableName rq = tbl \<and> rid' = rid \<and> tid' = tid")
    case True
    then show ?thesis using keep by (simp add: db' stored_row_def key)
  next
    case False
    then show ?thesis by (auto simp add: db' stored_row_def key job_key_inject)
  qed
qed

section \<open>Terminal state\<close>

lemma claim_job_store:
  "snd (claim_job tbl m now_epoch lock clock db) =
     (case get_tile_id m of
        None \<Rightarrow> db
      | Some tid \<Rightarrow>
          snd (update_item (claim_request tbl m tid
                 (case now_epoch of Some n \<Rightarrow> n | None \<Rightarrow> clock)
                 ((case now_epoch of Some n \<Rightarrow> n | None \<Rightarrow> clock) + lock)) db))"
  by (auto simp add: claim_job_def Let_def split: option.splits prod.splits sum.splits)

lemma claim_rejected:
  assumes "\<not> claimable now (stored_row db tbl (run_id m) tid)"
  shows "snd (update_item (claim_request tbl m tid now l) db) = db"
proof -
  let ?rq = "claim_request tbl m tid now l"
  have sel: "TableName ?rq = tbl" "Key ?rq = job_key (run_id m) tid"
    "ExpressionAttributeNames ?rq = claim_expr_names m"
    "ExpressionAttributeValues ?rq = claim_expr_values m now l"
    "ConditionExpression ?rq = Some claim_condition_expr"
    by (simp_all add: claim_request_def)
  have old: "(case db tbl (job_key (run_id m) tid) of Some it \<Rightarrow> it | None \<Rightarrow> Map.empty)
      = stored_row db tbl (run_id m) tid"
    by (simp add: stored_row_def)
  have vals: "map_of (map (\<lambda>(k, v). (k, stored_of v)) (claim_expr_values m now l)) = claim_vals m now l"
    by (simp add: claim_vals_def)
  show ?thesis
    unfolding update_item_def sel old vals Let_def
    using assms by (simp add: claim_condition)
qed

lemma completed_not_claimable:
  "it ''status'' = Some (S ''COMPLETED'') \<Longrightarrow> \<not> claimable now it"
  by (simp add: claimable_def)

lemma claim_job_keeps_completed:
  assumes compl: "stored_row db tbl rid tid ''status'' = Some (S ''COMPLETED'')"
  shows "stored_row (snd (claim_job tbl' m now_epoch lock clock db)) tbl rid tid ''status''
         = Some (S ''COMPLETED'')"
proof (cases "get_tile_id m")
  case None
  then show ?thesis using compl by (simp add: claim_job_store)
next
  case (Some tid')
  define now where "now = (case now_epoch of Some n \<Rightarrow> n | None \<Rightarrow> clock)"
  have st: "snd (claim_job tbl' m now_epoch lock clock db) =
      snd (update_item (claim_request tbl' m tid' now (now + lock)) db)"
    by (simp add: claim_job_store Some now_def)
  show ?thesis
  proof (cases "tbl' = tbl \<and> run_id m = rid \<and> tid' = tid")
    case True
    then have "\<not> claimable now (stored_row db tbl' (run_id m) tid')"
      using compl by (simp add: completed_not_claimable)
    then show ?thesis using compl by (simp add: st claim_rejected)
  next
    case False
    then have "(tbl, job_key rid tid) \<noteq>
        (TableName (claim_request tbl' m tid' now (now + lock)),
         Key (claim_request tbl' m tid' now (now + lock)))"
      by (auto simp add: claim_request_def job_key_inject)
    from update_item_other [OF this] show ?thesis
      using compl by (simp add: st stored_row_def)
  qed
qed

lemma checkpoint_s3_keeps_status:
  "stored_row (snd (checkpoint_s3 tbl' rid' tid' b k db)) tbl rid tid ''status''
   = stored_row db tbl rid tid ''status''"
proof -
  obtain r db' where u: "checkpoint_s3 tbl' rid' tid' b k db = (r, db')"
    by (cases "checkpoint_s3 tbl' rid' tid' b k db")
  show ?thesis
    using update_item_frame [OF u [unfolded checkpoint_s3_def], of rid' tid' "''status''" tbl rid tid]
    by (simp add: u resolve_def)
qed

lemma set_first_kept:
  assumes app: "apply_actions names vals old acc (SET p (Val q) # rest) = Some new"
    and p: "resolve names p = Some a" and q: "vals q = Some w"
    and rest: "\<forall>act \<in> set rest. resolve names (action_path act) \<noteq> Some a"
  shows "new a = Some w"
proof -
  from app p q have "apply_actions names vals old (acc(a \<mapsto> w)) rest = Some new"
    by simp
  from apply_actions_frame [OF this rest] show ?thesis by simp
qed

lemma complete_job_status:
  assumes compl: "stored_row db tbl rid tid ''status'' = Some (S ''COMPLETED'')"
  shows "stored_row (snd (complete_job tbl' rid' tid' b k status_ai reasoning usage claimed fin clock db))
           tbl rid tid ''status'' = Some (S ''COMPLETED'')"
proof -
  define finished where "finished = (case fin of Some f \<Rightarrow> f | None \<Rightarrow> clock)"
  let ?rq = "complete_request tbl' rid' tid' b k status_ai reasoning usage claimed finished"
  obtain r db' where u: "update_item ?rq db = (r, db')"
    by (cases "update_item ?rq db")
  have st: "snd (complete_job tbl' rid' tid' b k status_ai reasoning usage claimed fin clock db) = db'"
    using u by (auto simp add: complete_job_def Let_def finished_def split: sum.splits)
  have sel: "TableName ?rq = tbl'" "Key ?rq = job_key rid' tid'"
    "ExpressionAttributeNames ?rq = [(''#status'', ''status'')]"
    by (simp_all add: complete_request_def)
  show ?thesis
  proof (cases r)
    case (Inl e)
    with u have "db' = db" by (auto dest: update_item_error)
    then show ?thesis using compl st by simp
  next
    case (Inr it)
    with u obtain new where
      db': "db' = db(TableName ?rq := (db (TableName ?rq))(Key ?rq \<mapsto> new))"
      and new: "apply_actions (ExpressionAttributeNames ?rq)
             (map_of (map (\<lambda>(k, v). (k, stored_of v)) (ExpressionAttributeValues ?rq)))
             (case db (TableName ?rq) (Key ?rq) of Some it \<Rightarrow> it | None \<Rightarrow> Map.empty)
             ((case db (TableName ?rq) (Key ?rq) of Some it \<Rightarrow> it | None \<Rightarrow> Map.empty)
                ++ key_item (Key ?rq))
             (UpdateExpression ?rq) = Some new"
      using update_item_success [of ?rq db it db'] by auto
    define rest where "rest =
         [SET ''finished_at_epoch'' (Val '':finished''),
          SET ''s3_bucket'' (Val '':bucket''),
          SET ''s3_key'' (Val '':key'')] @
         (if status_ai \<noteq> None then [SET ''status_ai'' (Val '':status_ai'')] else []) @
         (if reasoning \<noteq> None then [SET ''reasoning'' (Val '':reasoning'')] else []) @
         (if usage \<noteq> None then [SET ''openai_usage'' (Val '':openai_usage'')] else []) @
         (if claimed \<noteq> None then [SET ''duration_ms'' (Val '':duration_ms'')] else [])"
    have ue: "UpdateExpression ?rq = SET ''#status'' (Val '':status'') # rest"
      by (simp add: complete_request_def rest_def)
    have fr: "\<forall>act \<in> set rest. resolve [(''#status'', ''status'')] (action_path act) \<noteq> Some ''status''"
      by (auto simp add: rest_def resolve_def)
    have v: "map_of (map (\<lambda>(k, v). (k, stored_of v)) (ExpressionAttributeValues ?rq)) '':status''
        = Some (S ''COMPLETED'')"
      by (simp add: complete_request_def stored_of_def)
    have p: "resolve [(''#status'', ''status'')] ''#status'' = Some ''status''"
      by (simp add: resolve_def)
    have "new ''status'' = Some (S ''COMPLETED'')"
      by (rule set_first_kept [OF new [unfolded ue sel] p v fr])
    then show ?thesis
      using compl by (auto simp add: st db' sel stored_row_def job_key_inject)
  qed
qed

lemma fail_job_writes:
  "\<exists>attrs new. fail_job tbl rid tid code msg fin clock db =
      (Inr attrs, db(tbl := (db tbl)(job_key rid tid \<mapsto> new))) \<and>
      new ''status'' = Some (S ''FAILED'')"
  apply (simp add: fail_job_def update_item_def wire_ok_def stored_of_def resolve_def Let_def)
  apply (rule exI, rule conjI, rule refl)
  apply simp
  done

lemma fail_job_status:
  "stored_row (snd (fail_job tbl rid tid code msg fin clock db)) tbl rid tid ''status''
   = Some (S ''FAILED'')"
proof -
  from fail_job_writes [of tbl rid tid code msg fin clock db]
  obtain attrs new where "fail_job tbl rid tid code msg fin clock db =
      (Inr attrs, db(tbl := (db tbl)(job_key rid tid \<mapsto> new)))"
    and "new ''status'' = Some (S ''FAILED'')"
    by blast
  then show ?thesis by (simp add: stored_row_def)
qed

lemma update_run_counters_job_row:
  "snd (update_run_counters rtbl rid' c f db) tbl (job_key rid tid) = db tbl (job_key rid tid)"
proof (cases "c = 0 \<and> f = 0")
  case True
  then show ?thesis by (simp add: update_run_counters_def)
next
  case False
  then show ?thesis
    by (simp add: update_run_counters_def update_item_other job_key_def)
qed

lemma handle_failure_status:
  assumes tid: "get_tile_id m = Some tid"
  shows "stored_row (snd (handle_failure exc m config clock db)) (tilejobs_table config) (run_id m) tid
           ''status'' = Some (S ''FAILED'')"
proof -
  let ?f = "fail_job (tilejobs_table config) (run_id m) tid (exception_to_error_code exc)
              (take 500 (exn_str exc)) None clock db"
  from fail_job_writes [of "tilejobs_table config" "run_id m" tid "exception_to_error_code exc"
      "take 500 (exn_str exc)" None clock db]
  obtain attrs where f: "?f = (Inr attrs, snd ?f)"
    by auto
  have "snd (handle_failure exc m config clock db) =
      snd (update_run_counters (runs_table config) (run_id m) 0 1 (snd ?f))"
    by (subst handle_failure_def) (simp add: tid Let_def, subst f, simp)
  then show ?thesis
    using fail_job_status [of "tilejobs_table config" "run_id m" tid "exception_to_error_code exc"
      "take 500 (exn_str exc)" None clock db]
    by (simp add: stored_row_def update_run_counters_job_row)
qed

lemma completed_store_row:
  "stored_row completed_store ''TileJobs'' ''run_x'' ''14/8716/5378'' ''status'' = Some (S ''COMPLETED'')"
  by (simp add: completed_store_def complete_job_def complete_request_def update_item_def wire_ok_def
      stored_of_def resolve_def Let_def stored_row_def no_tables_def)

text \<open>
  C2, as amended. For an item whose status is \<open>COMPLETED\<close>: \<open>claim_job\<close>,
  \<open>checkpoint_s3\<close> and \<open>complete_job\<close>, whatever their arguments, leave its
  status \<open>COMPLETED\<close>; \<open>fail_job\<close> on that item, and with it the processor's
  failure path for a message of that item, is an unconditional write and sets the status
  to \<open>FAILED\<close>.
\<close>

theorem completed_kept_except_by_fail_job:
  assumes compl: "stored_row db tbl rid tid ''status'' = Some (S ''COMPLETED'')"
  shows
    "stored_row (snd (claim_job tbl' m now_epoch lock clock db)) tbl rid tid ''status''
       = Some (S ''COMPLETED'') \<and>
     stored_row (snd (checkpoint_s3 tbl' rid' tid' b k db)) tbl rid tid ''status''
       = Some (S ''COMPLETED'') \<and>
     stored_row (snd (complete_job tbl' rid' tid' b k status_ai reasoning usage claimed fin clock db))
       tbl rid tid ''status'' = Some (S ''COMPLETED'') \<and>
     stored_row (snd (fail_job tbl rid tid code msg fin clock db)) tbl rid tid ''status''
       = Some (S ''FAILED'') \<and>
     (get_tile_id m = Some tid \<and> run_id m = rid \<and> tilejobs_table config = tbl \<longrightarrow>
        stored_row (snd (handle_failure exc m config clock db)) tbl rid tid ''status''
          = Some (S ''FAILED''))"
  using claim_job_keeps_completed [OF compl] complete_job_status [OF compl] compl
  by (auto simp add: checkpoint_s3_keeps_status fail_job_status handle_failure_status)

theorem completed_kept_except_by_fail_job_witness:
  "stored_row completed_store ''TileJobs'' ''run_x'' ''14/8716/5378'' ''status'' = Some (S ''COMPLETED'') \<and>
   stored_row (snd (claim_job ''TileJobs'' mapbox_message None 900 5000 completed_store))
     ''TileJobs'' ''run_x'' ''14/8716/5378'' ''status'' = Some (S ''COMPLETED'') \<and>
   stored_row (snd (checkpoint_s3 ''TileJobs'' ''run_x'' ''14/8716/5378'' ''imagery'' ''other.jpg''
       completed_store)) ''TileJobs'' ''run_x'' ''14/8716/5378'' ''status'' = Some (S ''COMPLETED'') \<and>
   stored_row (snd (handle_failure (Exn AnalysisError ''Agent response failed validation'')
       mapbox_message worker_config 5000 completed_store))
     ''TileJobs'' ''run_x'' ''14/8716/5378'' ''status'' = Some (S ''FAILED'')"
  using completed_kept_except_by_fail_job [OF completed_store_row,
      where m = mapbox_message and tbl' = "''TileJobs''" and now_epoch = None and lock = 900
        and clock = 5000 and rid' = "''run_x''" and tid' = "''14/8716/5378''" and b = "''imagery''"
        and k = "''other.jpg''" and config = worker_config
        and exc = "Exn AnalysisError ''Agent response failed validation''"]
    mapbox_message_tile_id completed_store_row
  by (simp add: mapbox_message_fields worker_config_def)

text \<open>
  C2 as stated fails: \<open>fail_job\<close> on a completed item changes its status to
  \<open>FAILED\<close>.
\<close>

theorem fail_job_reverts_completed:
  "stored_row completed_store ''TileJobs'' ''run_x'' ''14/8716/5378'' ''status'' = Some (S ''COMPLETED'') \<and>
   stored_row (snd (fail_job ''TileJobs'' ''run_x'' ''14/8716/5378'' ''OPENAI_BAD_RESPONSE''
       ''Agent response failed validation'' None 5000 completed_store))
     ''TileJobs'' ''run_x'' ''14/8716/5378'' ''status'' = Some (S ''FAILED'')"
  by (simp add: completed_store_row fail_job_status)

section \<open>Checkpoints\<close>

lemma claim_targets:
  "\<forall>act \<in> set (claim_update_expr m).
     \<exists>a \<in> claim_written. resolve (claim_expr_names m) (action_path act) = Some a"
  by (auto simp add: claim_update_expr_def claim_expr_names_def resolve_def claim_written_def)

lemma claim_job_claimed_update:
  assumes claim: "fst (claim_job tbl m now_epoch lock clock db) = Inr r" "result r = CLAIMED"
    and tid: "get_tile_id m = Some tid"
  shows "\<exists>new db'. update_item (claim_request tbl m tid
             (case now_epoch of Some n \<Rightarrow> n | None \<Rightarrow> clock)
             ((case now_epoch of Some n \<Rightarrow> n | None \<Rightarrow> clock) + lock)) db = (Inr new, db') \<and>
           claimed_result tid (case now_epoch of Some n \<Rightarrow> n | None \<Rightarrow> clock) new = Inr r"
  using claim
  by (auto simp add: claim_job_def tid Let_def split: prod.splits sum.splits if_splits)

lemma claimed_checkpoint:
  assumes claim: "fst (claim_job tbl m now_epoch lock clock db) = Inr r" "result r = CLAIMED"
    and tid: "get_tile_id m = Some tid"
    and b: "stored_row db tbl (run_id m) tid ''s3_bucket'' = Some (S b)" "b \<noteq> []"
    and k: "stored_row db tbl (run_id m) tid ''s3_key'' = Some (S k)" "k \<noteq> []"
  shows "checkpoint r = Some (S3Checkpoint b k)"
proof -
  define now where "now = (case now_epoch of Some n \<Rightarrow> n | None \<Rightarrow> clock)"
  let ?rq = "claim_request tbl m tid now (now + lock)"
  from claim_job_claimed_update [OF claim tid] obtain new db' where
    u: "update_item ?rq db = (Inr new, db')" and res: "claimed_result tid now new = Inr r"
    by (auto simp add: now_def)
  have sel: "TableName ?rq = tbl" "Key ?rq = job_key (run_id m) tid"
    "UpdateExpression ?rq = claim_update_expr m"
    "ExpressionAttributeNames ?rq = claim_expr_names m" "ReturnValues ?rq = ALL_NEW"
    by (simp_all add: claim_request_def)
  from update_item_success [OF u] obtain it where
    new: "new = returned ?rq it"
    and app: "apply_actions (claim_expr_names m)
             (map_of (map (\<lambda>(k, v). (k, stored_of v)) (ExpressionAttributeValues ?rq)))
             (stored_row db tbl (run_id m) tid)
             (stored_row db tbl (run_id m) tid ++ key_item (job_key (run_id m) tid))
             (claim_update_expr m) = Some it"
    by (auto simp add: sel stored_row_def)
  have ret: "new = it" by (simp add: new returned_def sel)
  have fr: "\<forall>act \<in> set (claim_update_expr m).
      resolve (claim_expr_names m) (action_path act) \<noteq> Some a" if "a \<notin> claim_written" for a
    using claim_targets [of m] that by auto
  have "new ''s3_bucket'' = Some (S b)" "new ''s3_key'' = Some (S k)"
    using apply_actions_frame [OF app fr, of "''s3_bucket''"]
      apply_actions_frame [OF app fr, of "''s3_key''"] b k
    by (simp_all add: ret claim_written_def key_item_job_other)
  with res b k show ?thesis
    by (auto simp add: claimed_result_def Let_def split: option.splits attr.splits if_splits)
qed

lemma obtain_image_checkpoint:
  "checkpoint cr = Some (S3Checkpoint b k) \<Longrightarrow>
   snd (snd (obtain_image m config w tid cr db)) = [GetObject b k]"
  by (simp add: obtain_image_def split: sum.splits)

lemma analyze_calls:
  "snd (snd (analyze_and_complete m config remaining w tid cr img db)) = [] \<or>
   snd (snd (analyze_and_complete m config remaining w tid cr img db)) = [AnalyzeImage]"
  by (simp add: analyze_and_complete_def split: prod.splits sum.splits option.splits)

lemma work_calls_checkpoint:
  assumes "checkpoint cr = Some (S3Checkpoint b k)"
  shows "snd (snd (work m config remaining w tid cr db)) = [GetObject b k] \<or>
         snd (snd (work m config remaining w tid cr db)) = [GetObject b k, AnalyzeImage]"
proof -
  obtain r db1 calls where o: "obtain_image m config w tid cr db = (r, db1, calls)"
    by (cases "obtain_image m config w tid cr db") auto
  have c: "calls = [GetObject b k]"
    using obtain_image_checkpoint [OF assms, of m config w tid db] o by simp
  show ?thesis
  proof (cases r)
    case (Inl e)
    then show ?thesis by (simp add: work_def o c)
  next
    case (Inr img)
    obtain r2 db2 calls2 where
      a: "analyze_and_complete m config remaining w tid cr img db1 = (r2, db2, calls2)"
      by (cases "analyze_and_complete m config remaining w tid cr img db1") auto
    with analyze_calls [of m config remaining w tid cr img db1]
    show ?thesis by (auto simp add: work_def o c Inr)
  qed
qed

lemma process_tile_claimed:
  assumes tid: "get_tile_id m = Some tid"
    and claim: "claim_job (tilejobs_table config) m None (job_stale_lock_seconds config)
                  (claim_clock w) db = (Inr cr, db1)" "result cr = CLAIMED"
  shows "snd (snd (process_tile m config remaining w db)) =
         snd (snd (work m config remaining w tid cr db1))"
  by (simp add: process_tile_def tid claim split: prod.splits sum.splits option.splits)

lemma first_claim_store:
  "snd (claim_job ''TileJobs'' mapbox_message (Some 0) 900 0 no_tables) =
     no_tables(''TileJobs'' := (no_tables ''TileJobs'')(job_key ''run_x'' ''14/8716/5378'' \<mapsto>
        claimed_item mapbox_message 0 900 Map.empty
          (Map.empty ++ key_item (job_key ''run_x'' ''14/8716/5378''))))"
proof -
  have g: "imagery_source mapbox_message = Google \<longrightarrow> zoom mapbox_message \<noteq> None"
    by (simp add: mapbox_message_fields)
  have a: "attempts_typed (stored_row no_tables ''TileJobs'' (run_id mapbox_message) ''14/8716/5378'')"
    "checkpoint_typed (stored_row no_tables ''TileJobs'' (run_id mapbox_message) ''14/8716/5378'')"
    by (simp_all add: no_tables_row typed_empty)
  show ?thesis
    by (simp add: claim_job_unfold [OF mapbox_message_valid g mapbox_message_tile_id a]
        mapbox_message_fields Let_def no_tables_row claimable_def)
qed

lemma crashed_row:
  "stored_row crashed_store ''TileJobs'' ''run_x'' ''14/8716/5378'' =
     (claimed_item mapbox_message 0 900 Map.empty
        (Map.empty ++ key_item (job_key ''run_x'' ''14/8716/5378''))
      ++ key_item (job_key ''run_x'' ''14/8716/5378''))
     (''s3_bucket'' \<mapsto> S ''imagery'',
      ''s3_key'' \<mapsto> S ''runs/run_x/tiles/z=14/x=8716/y=5378.jpg'')"
  by (simp add: crashed_store_def first_claim_store checkpoint_s3_def update_item_def wire_ok_def
      stored_of_def resolve_def Let_def stored_row_def)

lemma crashed_row_attrs:
  "stored_row crashed_store ''TileJobs'' ''run_x'' ''14/8716/5378'' ''status'' = Some (S ''PROCESSING'')"
  "stored_row crashed_store ''TileJobs'' ''run_x'' ''14/8716/5378'' ''lock_until_epoch'' = Some (N 900)"
  "stored_row crashed_store ''TileJobs'' ''run_x'' ''14/8716/5378'' ''attempts'' = Some (N 1)"
  "stored_row crashed_store ''TileJobs'' ''run_x'' ''14/8716/5378'' ''s3_bucket'' = Some (S ''imagery'')"
  "stored_row crashed_store ''TileJobs'' ''run_x'' ''14/8716/5378'' ''s3_key'' =
     Some (S ''runs/run_x/tiles/z=14/x=8716/y=5378.jpg'')"
proof -
  have g: "imagery_source mapbox_message = Google \<longrightarrow> zoom mapbox_message \<noteq> None"
    by (simp add: mapbox_message_fields)
  note w = claimed_item_written [OF mapbox_message_valid g]
  show "stored_row crashed_store ''TileJobs'' ''run_x'' ''14/8716/5378'' ''status'' = Some (S ''PROCESSING'')"
    "stored_row crashed_store ''TileJobs'' ''run_x'' ''14/8716/5378'' ''lock_until_epoch'' = Some (N 900)"
    "stored_row crashed_store ''TileJobs'' ''run_x'' ''14/8716/5378'' ''attempts'' = Some (N 1)"
    "stored_row crashed_store ''TileJobs'' ''run_x'' ''14/8716/5378'' ''s3_bucket'' = Some (S ''imagery'')"
    "stored_row crashed_store ''TileJobs'' ''run_x'' ''14/8716/5378'' ''s3_key'' =
       Some (S ''runs/run_x/tiles/z=14/x=8716/y=5378.jpg'')"
    by (simp_all add: crashed_row key_item_job_other w attempts_of_def)
qed

lemma retry_claim:
  "fst (claim_job ''TileJobs'' mapbox_message None 900 1000 crashed_store) =
     Inr \<lparr> result = CLAIMED, tile_id = ''14/8716/5378'', attempt = Some 2,
           claimed_at_epoch = Some 1000,
           checkpoint = Some (S3Checkpoint ''imagery'' ''runs/run_x/tiles/z=14/x=8716/y=5378.jpg'') \<rparr>"
proof -
  let ?old = "stored_row crashed_store ''TileJobs'' ''run_x'' ''14/8716/5378''"
  have g: "imagery_source mapbox_message = Google \<longrightarrow> zoom mapbox_message \<noteq> None"
    by (simp add: mapbox_message_fields)
  have a: "attempts_typed (stored_row crashed_store ''TileJobs'' (run_id mapbox_message) ''14/8716/5378'')"
    "checkpoint_typed (stored_row crashed_store ''TileJobs'' (run_id mapbox_message) ''14/8716/5378'')"
    by (simp_all add: mapbox_message_fields crashed_row_attrs attempts_typed_def checkpoint_typed_def
        opt_string_def)
  have c: "claimable 1000 ?old" "attempts_of ?old = 1"
    "checkpoint_of ?old = Some (S3Checkpoint ''imagery'' ''runs/run_x/tiles/z=14/x=8716/y=5378.jpg'')"
    by (simp_all add: crashed_row_attrs claimable_def attempts_of_def checkpoint_of_def)
  show ?thesis
    using c
    by (simp add: claim_job_unfold [OF mapbox_message_valid g mapbox_message_tile_id a]
        mapbox_message_fields Let_def py_int_def)
qed

text \<open>
  C3. If the stored item has \<open>s3_bucket\<close> and \<open>s3_key\<close> set (to non-empty
  strings, as a checkpoint after an upload writes them) and \<open>claim_job\<close> returns
  \<open>CLAIMED\<close>, then the returned checkpoint is that bucket and key, and
  \<open>process_tile\<close> on that claim downloads the object from storage and calls neither
  the imagery provider nor the upload: its external calls are the download, followed at
  most by the analysis.
\<close>

theorem checkpoint_resumes_from_storage:
  assumes tid: "get_tile_id m = Some tid"
    and b: "stored_row db (tilejobs_table config) (run_id m) tid ''s3_bucket'' = Some (S b)" "b \<noteq> []"
    and k: "stored_row db (tilejobs_table config) (run_id m) tid ''s3_key'' = Some (S k)" "k \<noteq> []"
    and claim: "fst (claim_job (tilejobs_table config) m now_epoch lock clock db) = Inr r"
      "result r = CLAIMED"
  shows "checkpoint r = Some (S3Checkpoint b k) \<and>
         (now_epoch = None \<and> lock = job_stale_lock_seconds config \<and> clock = claim_clock w \<longrightarrow>
            snd (snd (process_tile m config remaining w db)) = [GetObject b k] \<or>
            snd (snd (process_tile m config remaining w db)) = [GetObject b k, AnalyzeImage])"
proof -
  have cp: "checkpoint r = Some (S3Checkpoint b k)"
    by (rule claimed_checkpoint [OF claim tid b k])
  have "snd (snd (process_tile m config remaining w db)) = [GetObject b k] \<or>
        snd (snd (process_tile m config remaining w db)) = [GetObject b k, AnalyzeImage]"
    if "now_epoch = None" "lock = job_stale_lock_seconds config" "clock = claim_clock w"
  proof -
    have "fst (claim_job (tilejobs_table config) m None (job_stale_lock_seconds config)
                  (claim_clock w) db) = Inr r"
      using claim(1) that by simp
    then have "claim_job (tilejobs_table config) m None (job_stale_lock_seconds config)
        (claim_clock w) db =
        (Inr r, snd (claim_job (tilejobs_table config) m None (job_stale_lock_seconds config)
                       (claim_clock w) db))"
      by (metis prod.collapse)
    from process_tile_claimed [OF tid this claim(2)] work_calls_checkpoint [OF cp]
    show ?thesis by simp
  qed
  with cp show ?thesis by blast
qed

text \<open>The theorem on the retry after a stop between checkpoint and analysis.\<close>

theorem checkpoint_resumes_from_storage_witness:
  "stored_row crashed_store ''TileJobs'' ''run_x'' ''14/8716/5378'' ''s3_bucket'' = Some (S ''imagery'') \<and>
   stored_row crashed_store ''TileJobs'' ''run_x'' ''14/8716/5378'' ''s3_key'' =
     Some (S ''runs/run_x/tiles/z=14/x=8716/y=5378.jpg'') \<and>
   map_sum id result (fst (claim_job ''TileJobs'' mapbox_message None 900 1000 crashed_store)) = Inr CLAIMED \<and>
   map_sum id checkpoint (fst (claim_job ''TileJobs'' mapbox_message None 900 1000 crashed_store)) =
     Inr (Some (S3Checkpoint ''imagery'' ''runs/run_x/tiles/z=14/x=8716/y=5378.jpg'')) \<and>
   (snd (snd (process_tile mapbox_message worker_config None retry_world crashed_store)) =
      [GetObject ''imagery'' ''runs/run_x/tiles/z=14/x=8716/y=5378.jpg''] \<or>
    snd (snd (process_tile mapbox_message worker_config None retry_world crashed_store)) =
      [GetObject ''imagery'' ''runs/run_x/tiles/z=14/x=8716/y=5378.jpg'', AnalyzeImage])"
proof -
  have cfg: "tilejobs_table worker_config = ''TileJobs''" "job_stale_lock_seconds worker_config = 900"
    "claim_clock retry_world = 1000"
    by (simp_all add: worker_config_def retry_world_def)
  have r: "result \<lparr> result = CLAIMED, tile_id = ''14/8716/5378'', attempt = Some 2,
           claimed_at_epoch = Some 1000,
           checkpoint = Some (S3Checkpoint ''imagery'' ''runs/run_x/tiles/z=14/x=8716/y=5378.jpg'') \<rparr>
       = CLAIMED"
    by simp
  show ?thesis
    using checkpoint_resumes_from_storage [where m = mapbox_message and config = worker_config
        and tid = "''14/8716/5378''" and db = crashed_store and b = "''imagery''"
        and k = "''runs/run_x/tiles/z=14/x=8716/y=5378.jpg''" and now_epoch = None and lock = 900
        and clock = 1000 and w = retry_world and remaining = None,
        OF mapbox_message_tile_id _ _ _ _ _ r]
    by (simp add: cfg mapbox_message_fields crashed_row_attrs retry_claim)
qed

section \<open>Rejected claims\<close>

lemma JobStatus_of_completed: "JobStatus_of s = Some COMPLETED \<longleftrightarrow> s = ''COMPLETED''"
  by (simp add: JobStatus_of_def)

lemma JobStatus_of_completed_value: "JobStatus_of ''COMPLETED'' = Some COMPLETED"
  by (simp add: JobStatus_of_def)

lemma get_job_status_typed:
  assumes "status_typed (stored_row db tbl rid tid)"
  shows "\<exists>st. get_job_status tbl rid tid db = Inr st \<and>
           (st = Some COMPLETED \<longleftrightarrow> stored_row db tbl rid tid ''status'' = Some (S ''COMPLETED''))"
  using assms
  by (auto simp add: get_job_status_def get_item_def status_typed_def stored_row_def
      JobStatus_of_completed JobStatus_of_completed_value split: option.splits attr.splits)

lemma completed_store_rejects:
  "fst (update_item (claim_request ''TileJobs'' mapbox_message ''14/8716/5378'' 5000 5900)
     completed_store) = Inl (client_error ''ConditionalCheckFailedException'')"
proof -
  have g: "imagery_source mapbox_message = Google \<longrightarrow> zoom mapbox_message \<noteq> None"
    by (simp add: mapbox_message_fields)
  have row: "stored_row completed_store ''TileJobs'' ''run_x'' ''14/8716/5378'' ''attempts'' = None"
    by (simp add: completed_store_def complete_job_def complete_request_def update_item_def wire_ok_def
      stored_of_def resolve_def Let_def stored_row_def no_tables_def key_item_job map_add_def)
  have a: "attempts_typed (stored_row completed_store ''TileJobs'' (run_id mapbox_message) ''14/8716/5378'')"
    by (simp add: attempts_typed_def mapbox_message_fields row)
  show ?thesis
    by (simp add: claim_update [OF a mapbox_message_valid g] mapbox_message_fields
        completed_not_claimable completed_store_row)
qed

text \<open>
  C4. When the conditional write of \<open>claim_job\<close> is rejected and the stored status
  is a \<open>JobStatus\<close> value, \<open>claim_job\<close> returns \<open>ALREADY_COMPLETED\<close>
  exactly when the status is \<open>COMPLETED\<close> and \<open>LOCKED_BY_OTHER\<close> otherwise,
  and leaves the store as it was. \<open>process_tile\<close> then returns a skipped result for
  \<open>ALREADY_COMPLETED\<close>, and raises \<open>RuntimeError\<close> for
  \<open>LOCKED_BY_OTHER\<close>, in both cases with the store unchanged (no \<open>FAILED\<close>
  is written) and no external call.
\<close>

theorem rejected_claim_outcomes:
  assumes tid: "get_tile_id m = Some tid"
    and rejected: "fst (update_item (claim_request tbl m tid
          (case now_epoch of Some n \<Rightarrow> n | None \<Rightarrow> clock)
          ((case now_epoch of Some n \<Rightarrow> n | None \<Rightarrow> clock) + lock)) db)
        = Inl (client_error ''ConditionalCheckFailedException'')"
    and typed: "status_typed (stored_row db tbl (run_id m) tid)"
  shows
    "claim_job tbl m now_epoch lock clock db =
       (Inr \<lparr> result = (if stored_row db tbl (run_id m) tid ''status'' = Some (S ''COMPLETED'')
                         then ALREADY_COMPLETED else LOCKED_BY_OTHER),
              tile_id = tid, attempt = None, claimed_at_epoch = None, checkpoint = None \<rparr>, db) \<and>
     (tbl = tilejobs_table config \<and> now_epoch = None \<and> lock = job_stale_lock_seconds config \<and>
      clock = claim_clock w \<longrightarrow>
        process_tile m config remaining w db =
          (if stored_row db tbl (run_id m) tid ''status'' = Some (S ''COMPLETED'')
           then (Inr (ProcessTileResult ''skipped'' (Some tid) None None (Some ''already_completed'')),
                 db, [])
           else (Inl (Exn RuntimeError ''Job locked by another worker''), db, [])))"
proof -
  define now where "now = (case now_epoch of Some n \<Rightarrow> n | None \<Rightarrow> clock)"
  let ?u = "update_item (claim_request tbl m tid now (now + lock)) db"
  have u: "?u = (Inl (client_error ''ConditionalCheckFailedException''), db)"
    using rejected update_item_error [of _ db "client_error ''ConditionalCheckFailedException''" "snd ?u"]
    by (cases ?u) (auto simp add: now_def)
  from get_job_status_typed [OF typed] obtain st where
    st: "get_job_status tbl (run_id m) tid db = Inr st"
    and c: "st = Some COMPLETED \<longleftrightarrow> stored_row db tbl (run_id m) tid ''status'' = Some (S ''COMPLETED'')"
    by blast
  have cj: "claim_job tbl m now_epoch lock clock db =
       (Inr \<lparr> result = (if stored_row db tbl (run_id m) tid ''status'' = Some (S ''COMPLETED'')
                         then ALREADY_COMPLETED else LOCKED_BY_OTHER),
              tile_id = tid, attempt = None, claimed_at_epoch = None, checkpoint = None \<rparr>, db)"
    unfolding claim_job_def Let_def now_def [symmetric]
    using c by (simp add: tid u st client_error_def)
  have "process_tile m config remaining w db =
          (if stored_row db tbl (run_id m) tid ''status'' = Some (S ''COMPLETED'')
           then (Inr (ProcessTileResult ''skipped'' (Some tid) None None (Some ''already_completed'')),
                 db, [])
           else (Inl (Exn RuntimeError ''Job locked by another worker''), db, []))"
    if "tbl = tilejobs_table config" "now_epoch = None" "lock = job_stale_lock_seconds config"
      "clock = claim_clock w"
    using cj unfolding that by (simp add: process_tile_def tid)
  with cj show ?thesis by blast
qed

text \<open>The theorem on a redelivery after completion.\<close>

theorem rejected_claim_outcomes_witness:
  "claim_job ''TileJobs'' mapbox_message None 900 5000 completed_store =
     (Inr \<lparr> result = ALREADY_COMPLETED, tile_id = ''14/8716/5378'', attempt = None,
            claimed_at_epoch = None, checkpoint = None \<rparr>, completed_store) \<and>
   process_tile mapbox_message worker_config None (retry_world \<lparr> claim_clock := 5000 \<rparr>) completed_store =
     (Inr (ProcessTileResult ''skipped'' (Some ''14/8716/5378'') None None (Some ''already_completed'')),
      completed_store, [])"
proof -
  have rej: "fst (update_item (claim_request ''TileJobs'' mapbox_message ''14/8716/5378''
          (case None of Some n \<Rightarrow> n | None \<Rightarrow> 5000)
          ((case None of Some n \<Rightarrow> n | None \<Rightarrow> 5000) + 900)) completed_store)
        = Inl (client_error ''ConditionalCheckFailedException'')"
    using completed_store_rejects by simp
  have typed: "status_typed (stored_row completed_store ''TileJobs'' (run_id mapbox_message) ''14/8716/5378'')"
    by (simp add: status_typed_def mapbox_message_fields completed_store_row JobStatus_of_def)
  show ?thesis
    using rejected_claim_outcomes [OF mapbox_message_tile_id rej typed,
        where config = worker_config and w = "retry_world \<lparr> claim_clock := 5000 \<rparr>"
          and remaining = None]
    by (simp add: mapbox_message_fields completed_store_row worker_config_def)
qed

section \<open>Poison messages\<close>

text \<open>
  With the worker's configuration loaded, for every record on whose body
  \<open>json.loads\<close> raises \<open>JSONDecodeError\<close>, or whose parsed body fails
  validation (\<open>model_validate\<close> raises \<open>ValidationError\<close>), the handler
  returns the \<open>invalid_message\<close> response without raising, leaves the store as it
  was (no claim, no TileJob or Run write, no counter update) and makes no external call.
\<close>

lemma poison_message_acknowledged:
  assumes cfg: "loaded = Inr config"
    and poison:
      "(\<exists>msg. json_loads (case body rcd of Some b \<Rightarrow> b | None \<Rightarrow> ''{}'')
                 = Inl (Exn JSONDecodeError msg)) \<or>
       (\<exists>j msg. json_loads (case body rcd of Some b \<Rightarrow> b | None \<Rightarrow> ''{}'') = Inr j \<and>
                 model_validate j = Inl (Exn ValidationError msg))"
  shows "\<exists>msg. async_handler json_loads model_validate loaded (rcd # rest) remaining w db =
           (Inr (InvalidMessage msg), db, [])"
  using poison by (auto simp add: async_handler_def cfg Let_def)

lemma poison_message_acknowledged_samples:
  "async_handler sample_loads sample_validate (Inr worker_config)
     [\<lparr> messageId = Some ''m-1'', body = Some ''not json'' \<rparr>] None retry_world no_tables =
     (Inr (InvalidMessage ''Expecting value: line 1 column 1 (char 0)''), no_tables, []) \<and>
   async_handler sample_loads sample_validate (Inr worker_config)
     [\<lparr> messageId = Some ''m-2'', body = None \<rparr>] None retry_world no_tables =
     (Inr (InvalidMessage ''3 validation errors for TileJobMessage''), no_tables, [])"
proof -
  have a: "\<exists>msg. sample_loads (case body \<lparr> messageId = Some ''m-1'', body = Some ''not json'' \<rparr> of
              Some b \<Rightarrow> b | None \<Rightarrow> ''{}'') = Inl (Exn JSONDecodeError msg)"
    by (simp add: sample_loads_def)
  have b: "\<exists>j msg. sample_loads (case body \<lparr> messageId = Some ''m-2'', body = None \<rparr> of
              Some b \<Rightarrow> b | None \<Rightarrow> ''{}'') = Inr j \<and>
            sample_validate j = Inl (Exn ValidationError msg)"
    by (simp add: sample_loads_def sample_validate_def)
  from poison_message_acknowledged [where json_loads = sample_loads and model_validate = sample_validate
        and loaded = "Inr worker_config" and config = worker_config
        and rcd = "\<lparr> messageId = Some ''m-1'', body = Some ''not json'' \<rparr>"
        and rest = Nil and remaining = None and w = retry_world and db = no_tables, OF refl disjI1, OF a]
    poison_message_acknowledged [where json_loads = sample_loads and model_validate = sample_validate
        and loaded = "Inr worker_config" and config = worker_config
        and rcd = "\<lparr> messageId = Some ''m-2'', body = None \<rparr>"
        and rest = Nil and remaining = None and w = retry_world and db = no_tables, OF refl disjI2, OF b]
  show ?thesis
    by (auto simp add: async_handler_def sample_loads_def sample_validate_def Let_def)
qed

text \<open>
  C8. The handler is to acknowledge every record whose body is not valid JSON or fails
  validation: its comment says that malformed messages are not retried. But its
  \<open>except\<close> clause names \<open>JSONDecodeError\<close> and \<open>ValidationError\<close>
  only. When \<open>json.loads\<close> raises any other exception on the body, the handler
  raises it, having written nothing and called nothing, and the queue delivers the message
  again. A body of 1500 opening brackets is not valid JSON, and on it
  \<open>json.loads\<close> raises \<open>RecursionError\<close>.
\<close>

theorem unparsable_body_is_raised:
  assumes cfg: "loaded = Inr config"
    and raises: "json_loads (case body rcd of Some b \<Rightarrow> b | None \<Rightarrow> ''{}'') = Inl exc"
    and other: "exn_class exc \<noteq> JSONDecodeError" "exn_class exc \<noteq> ValidationError"
  shows "async_handler json_loads model_validate loaded (rcd # rest) remaining w db =
           (Inl exc, db, [])"
  using raises other by (simp add: async_handler_def cfg)

text \<open>The handler on a record whose body is 1500 opening brackets.\<close>

theorem unparsable_body_is_raised_witness:
  "nested_loads (replicate 1500 (CHR ''['')) =
     Inl (Exn (OtherError ''RecursionError'')
            ''maximum recursion depth exceeded while decoding a JSON array from a unicode string'') \<and>
   async_handler nested_loads sample_validate (Inr worker_config)
     [\<lparr> messageId = Some ''m-3'', body = Some (replicate 1500 (CHR ''['')) \<rparr>]
     None retry_world no_tables =
     (Inl (Exn (OtherError ''RecursionError'')
             ''maximum recursion depth exceeded while decoding a JSON array from a unicode string''),
      no_tables, [])"
proof -
  have r: "nested_loads (case body \<lparr> messageId = Some ''m-3'',
                                       body = Some (replicate 1500 (CHR ''['')) \<rparr> of
                           Some b \<Rightarrow> b | None \<Rightarrow> ''{}'') =
      Inl (Exn (OtherError ''RecursionError'')
             ''maximum recursion depth exceeded while decoding a JSON array from a unicode string'')"
    by (simp add: nested_loads_def)
  show ?thesis
    using unparsable_body_is_raised [where json_loads = nested_loads
        and model_validate = sample_validate and loaded = "Inr worker_config"
        and config = worker_config
        and rcd = "\<lparr> messageId = Some ''m-3'', body = Some (replicate 1500 (CHR ''['')) \<rparr>"
        and rest = Nil and remaining = None and w = retry_world and db = no_tables, OF refl r] r
    by simp
qed

section \<open>Canonical identifiers\<close>

lemma digit_char_value: "d < 10 \<Longrightarrow> digit_value (digit_char d) = d \<and> is_digit (digit_char d)"
proof -
  assume "d < 10"
  then have "d = 0 \<or> d = 1 \<or> d = 2 \<or> d = 3 \<or> d = 4 \<or> d = 5 \<or> d = 6 \<or> d = 7 \<or> d = 8 \<or> d = 9"
    by arith
  then show ?thesis
    by (elim disjE) (simp_all add: digit_char_simps digit_value_def is_digit_def)
qed

lemma decimal_value_snoc:
  "decimal_value (s @ [ch]) = 10 * decimal_value s + digit_value ch"
  by (simp add: decimal_value_def)

lemma str_nat_value: "decimal_value (str_nat n) = n \<and> list_all is_digit (str_nat n)"
proof (induction n rule: str_nat.induct)
  case (1 n)
  show ?case
  proof (cases "n < 10")
    case True
    then show ?thesis
      using digit_char_value [of n] by (simp add: str_nat.simps [of n] decimal_value_def)
  next
    case False
    have "n mod 10 < 10" by simp
    from digit_char_value [OF this] 1 [OF False] show ?thesis
      by (simp add: str_nat.simps [of n] False decimal_value_snoc)
  qed
qed

lemma zero_padded_value:
  "decimal_value (zero_padded k n) = n mod 10 ^ k \<and> length (zero_padded k n) = k \<and>
   list_all is_digit (zero_padded k n)"
proof (induction k arbitrary: n)
  case 0
  then show ?case by (simp add: decimal_value_def)
next
  case (Suc k)
  have "n mod 10 < 10" by simp
  from digit_char_value [OF this] Suc [of "n div 10"] show ?case
    by (simp add: decimal_value_snoc mod_mult2_eq)
qed

lemma round_half_even_nearest: "half_even_nearest r (round_half_even r)"
proof -
  define f where "f = \<lfloor>r\<rfloor>"
  define d where "d = r - of_int f"
  have d: "0 \<le> d" "d < 1"
    unfolding d_def f_def by linarith+
  have r: "r = of_int f + d" by (simp add: d_def)
  show ?thesis
    unfolding half_even_nearest_def round_half_even_def Let_def f_def [symmetric] d_def [symmetric]
    using d by (auto simp add: r abs_if)
qed

lemma round_half_even_nonneg: "0 \<le> r \<Longrightarrow> 0 \<le> round_half_even r"
  by (auto simp add: round_half_even_def Let_def)

lemma digit_char_zero: "d < 10 \<Longrightarrow> digit_char d = CHR ''0'' \<longleftrightarrow> d = 0"
proof -
  assume "d < 10"
  then have "d = 0 \<or> d = 1 \<or> d = 2 \<or> d = 3 \<or> d = 4 \<or> d = 5 \<or> d = 6 \<or> d = 7 \<or> d = 8 \<or> d = 9"
    by arith
  then show ?thesis
    by (elim disjE) (simp_all add: digit_char_simps)
qed

lemma str_nat_head: "str_nat n \<noteq> [] \<and> (hd (str_nat n) = CHR ''0'' \<longrightarrow> n = 0)"
proof (induction n rule: str_nat.induct)
  case (1 n)
  show ?case
  proof (cases "n < 10")
    case True
    then show ?thesis
      using digit_char_zero [of n] by (simp add: str_nat.simps [of n])
  next
    case False
    have "n div 10 \<noteq> 0"
      using False by simp
    with 1 [OF False] False show ?thesis
      by (simp add: str_nat.simps [of n])
  qed
qed

lemma str_nat_written: "written_decimal (str_nat n) n"
proof -
  have "str_nat 0 = ''0''"
    by (simp add: str_nat.simps [of 0] digit_char_simps)
  then show ?thesis
    using str_nat_head [of n] str_nat_value [of n] by (auto simp add: written_decimal_def)
qed

lemma format_6f_rounds:
  "\<exists>q ip fr. half_even_nearest (\<bar>magnitude f\<bar> * 1000000) (int q) \<and>
     format_6f f = (if negative f then ''-'' else '''') @ ip @ ''.'' @ fr \<and>
     written_decimal ip (q div 1000000) \<and>
     length fr = 6 \<and> list_all is_digit fr \<and> decimal_value fr = q mod 1000000"
proof -
  define q where "q = scaled6 f"
  have q: "int q = round_half_even (\<bar>magnitude f\<bar> * 1000000)"
    using round_half_even_nonneg [of "\<bar>magnitude f\<bar> * 1000000"]
    by (simp add: q_def scaled6_def)
  have "half_even_nearest (\<bar>magnitude f\<bar> * 1000000) (int q)"
    unfolding q by (rule round_half_even_nearest)
  moreover have "format_6f f = (if negative f then ''-'' else '''') @ str_nat (q div 1000000) @ ''.'' @
      zero_padded 6 (q mod 1000000)"
    by (simp add: format_6f_def q_def)
  moreover have "length (zero_padded 6 (q mod 1000000)) = 6"
    "list_all is_digit (zero_padded 6 (q mod 1000000))"
    "decimal_value (zero_padded 6 (q mod 1000000)) = q mod 1000000"
    using zero_padded_value [of 6 "q mod 1000000"] by simp_all
  ultimately show ?thesis
    using str_nat_written [of "q div 1000000"] by blast
qed

lemma zero_padded_numeral:
  "zero_padded (numeral k) n = zero_padded (pred_numeral k) (n div 10) @ [digit_char (n mod 10)]"
proof -
  have "numeral k = Suc (pred_numeral k)" by (rule numeral_eq_Suc)
  then show ?thesis by (simp only: zero_padded.simps)
qed

lemma zp: "zero_padded 6 345678 = ''345678''"
  by (simp add: zero_padded_numeral digit_char_simps)

lemma round_half_even_unique:
  assumes "\<bar>of_int q - r\<bar> < 1 / 2"
  shows "round_half_even r = q"
proof -
  define f where "f = \<lfloor>r\<rfloor>"
  define d where "d = r - of_int f"
  have d: "0 \<le> d" "d < 1"
    unfolding d_def f_def by linarith+
  have r: "r = of_int f + d" by (simp add: d_def)
  have "q = f \<or> q = f + 1"
  proof -
    from assms r d have "of_int q - of_int f < (3 / 2 :: rat)" "(- 1 / 2 :: rat) < of_int q - of_int f"
      by (auto simp add: abs_if split: if_splits)
    then have "of_int (q - f) < (3 / 2 :: rat)" "(- 1 / 2 :: rat) < of_int (q - f)" by simp_all
    then have "q - f < 2" "- 1 < q - f" by linarith+
    then show ?thesis by linarith
  qed
  then show ?thesis
    unfolding round_half_even_def Let_def f_def [symmetric] d_def [symmetric]
    using assms d by (auto simp add: r abs_if split: if_splits)
qed

lemma scaled6_unique:
  "\<bar>of_nat q - \<bar>magnitude f\<bar> * 1000000\<bar> < 1 / 2 \<Longrightarrow> scaled6 f = q"
  using round_half_even_unique [of "int q" "\<bar>magnitude f\<bar> * 1000000"]
  by (simp add: scaled6_def)

lemma google_formats:
  "format_6f (PyFloat False (12345678 / 1000000)) = ''12.345678''"
  "format_6f (PyFloat True (7654321 / 1000000)) = ''-7.654321''"
  "format_6f (PyFloat False (123456781 / 10000000)) = ''12.345678''"
  "format_6f (PyFloat True (76543214 / 10000000)) = ''-7.654321''"
proof -
  have s: "scaled6 (PyFloat False (12345678 / 1000000)) = 12345678"
    "scaled6 (PyFloat True (7654321 / 1000000)) = 7654321"
    "scaled6 (PyFloat False (123456781 / 10000000)) = 12345678"
    "scaled6 (PyFloat True (76543214 / 10000000)) = 7654321"
    by (rule scaled6_unique, simp)+
  show "format_6f (PyFloat False (12345678 / 1000000)) = ''12.345678''"
    "format_6f (PyFloat True (7654321 / 1000000)) = ''-7.654321''"
    "format_6f (PyFloat False (123456781 / 10000000)) = ''12.345678''"
    "format_6f (PyFloat True (76543214 / 10000000)) = ''-7.654321''"
    unfolding format_6f_def s by (simp_all add: zero_padded_numeral str_eval)
qed

lemma google_formats_normal:
  "format_6f (PyFloat False (6172839 / 500000)) = ''12.345678''"
  "format_6f (PyFloat True (38271607 / 5000000)) = ''-7.654321''"
  using google_formats by simp_all

lemma google_message_tile_id:
  "get_tile_id google_message = Some ''coord:12.345678,-7.654321,18''"
  "get_tile_id google_message_again = Some ''coord:12.345678,-7.654321,18''"
  by (simp_all add: get_tile_id_def google_message_def google_message_again_def
      tile_id_for_coords_def google_formats google_formats_normal DEFAULT_GOOGLE_ZOOM_def str_eval)

lemma google_message_valid: "message_valid google_message" "message_valid google_message_again"
  by (simp_all add: message_valid_def google_message_def google_message_again_def
      int_field_ok_def float_field_ok_def float_value_def validate_source_specific_fields_def)

text \<open>
  C7. For a valid Mapbox message \<open>get_tile_id\<close> is \<open>"{z}/{x}/{y}"\<close>, the three
  numbers written in decimal. For a valid Google message it is
  \<open>"coord:{lat:.6f},{lon:.6f},{zoom}"\<close>: the zoom is the effective zoom, 18 when the
  field is omitted, written in decimal, and each of latitude and longitude is written as a
  minus sign when its sign bit is set, the integer part in decimal, a point and exactly six
  digits, the number so written being the magnitude rounded to the nearest millionth with a
  tie going to the even one. So two valid Google messages whose latitudes and longitudes
  format to the same strings and whose effective zooms agree have the same tile id.
\<close>

theorem tile_id_is_canonical:
  assumes valid: "message_valid m"
  shows
    "(imagery_source m = Mapbox \<longrightarrow>
        (\<exists>zi xi yi zs xs ys.
           z m = Some (int zi) \<and> x m = Some (int xi) \<and> y m = Some (int yi) \<and>
           get_tile_id m = Some (zs @ ''/'' @ xs @ ''/'' @ ys) \<and>
           written_decimal zs zi \<and> written_decimal xs xi \<and> written_decimal ys yi)) \<and>
     (imagery_source m = Google \<longrightarrow>
        (\<exists>la lo zn zs.
           lat m = Some la \<and> lon m = Some lo \<and>
           get_tile_id m = Some (''coord:'' @ format_6f la @ '','' @ format_6f lo @ '','' @ zs) \<and>
           written_decimal zs zn \<and> int zn = get_zoom m \<and>
           get_zoom m = (case zoom m of Some v \<Rightarrow> v | None \<Rightarrow> 18) \<and>
           (\<forall>f \<in> {la, lo}.
              \<exists>q ip fr. half_even_nearest (\<bar>magnitude f\<bar> * 1000000) (int q) \<and>
                format_6f f = (if negative f then ''-'' else '''') @ ip @ ''.'' @ fr \<and>
                written_decimal ip (q div 1000000) \<and>
                length fr = 6 \<and> list_all is_digit fr \<and> decimal_value fr = q mod 1000000))) \<and>
     (imagery_source m = Google \<and> imagery_source m2 = Google \<and> message_valid m2 \<and>
      map_option format_6f (lat m) = map_option format_6f (lat m2) \<and>
      map_option format_6f (lon m) = map_option format_6f (lon m2) \<and>
      get_zoom m = get_zoom m2 \<longrightarrow> get_tile_id m = get_tile_id m2)"
proof -
  have mb: "\<exists>zi xi yi zs xs ys.
           z m = Some (int zi) \<and> x m = Some (int xi) \<and> y m = Some (int yi) \<and>
           get_tile_id m = Some (zs @ ''/'' @ xs @ ''/'' @ ys) \<and>
           written_decimal zs zi \<and> written_decimal xs xi \<and> written_decimal ys yi"
    if src: "imagery_source m = Mapbox"
  proof -
    from valid src obtain a b c where
      c: "z m = Some a" "x m = Some b" "y m = Some c" "0 \<le> a" "0 \<le> b" "0 \<le> c"
      by (auto simp: message_valid_def validate_source_specific_fields_def int_field_ok_def)
    have "get_tile_id m = Some (str_nat (nat a) @ ''/'' @ str_nat (nat b) @ ''/'' @ str_nat (nat c))"
      using c src by (simp add: get_tile_id_def str_int_def)
    with c show ?thesis
      using str_nat_written
      by (intro exI [of _ "nat a"] exI [of _ "nat b"] exI [of _ "nat c"]
          exI [of _ "str_nat (nat a)"] exI [of _ "str_nat (nat b)"] exI [of _ "str_nat (nat c)"]) simp
  qed
  have gg: "\<exists>la lo zn zs.
           lat m = Some la \<and> lon m = Some lo \<and>
           get_tile_id m = Some (''coord:'' @ format_6f la @ '','' @ format_6f lo @ '','' @ zs) \<and>
           written_decimal zs zn \<and> int zn = get_zoom m \<and>
           get_zoom m = (case zoom m of Some v \<Rightarrow> v | None \<Rightarrow> 18) \<and>
           (\<forall>f \<in> {la, lo}.
              \<exists>q ip fr. half_even_nearest (\<bar>magnitude f\<bar> * 1000000) (int q) \<and>
                format_6f f = (if negative f then ''-'' else '''') @ ip @ ''.'' @ fr \<and>
                written_decimal ip (q div 1000000) \<and>
                length fr = 6 \<and> list_all is_digit fr \<and> decimal_value fr = q mod 1000000)"
    if src: "imagery_source m = Google"
  proof -
    from valid src obtain la lo where c: "lat m = Some la" "lon m = Some lo"
      by (auto simp: message_valid_def validate_source_specific_fields_def)
    have zn: "0 \<le> get_zoom m"
      using valid
      by (auto simp add: message_valid_def int_field_ok_def get_zoom_def DEFAULT_GOOGLE_ZOOM_def
          split: option.splits)
    have "get_tile_id m =
        Some (''coord:'' @ format_6f la @ '','' @ format_6f lo @ '','' @ str_nat (nat (get_zoom m)))"
      using c src zn
      by (simp add: get_tile_id_def tile_id_for_coords_def get_zoom_def str_int_def
          split: option.splits)
    moreover have "get_zoom m = (case zoom m of Some v \<Rightarrow> v | None \<Rightarrow> 18)"
      by (simp add: get_zoom_def DEFAULT_GOOGLE_ZOOM_def split: option.splits)
    moreover have "int (nat (get_zoom m)) = get_zoom m"
      using zn by simp
    moreover have "\<forall>f \<in> {la, lo}.
              \<exists>q ip fr. half_even_nearest (\<bar>magnitude f\<bar> * 1000000) (int q) \<and>
                format_6f f = (if negative f then ''-'' else '''') @ ip @ ''.'' @ fr \<and>
                written_decimal ip (q div 1000000) \<and>
                length fr = 6 \<and> list_all is_digit fr \<and> decimal_value fr = q mod 1000000"
      using format_6f_rounds [of la] format_6f_rounds [of lo] by blast
    ultimately show ?thesis
      using c str_nat_written [of "nat (get_zoom m)"] by blast
  qed
  have same: "get_tile_id m = get_tile_id m2"
    if "imagery_source m = Google" "imagery_source m2 = Google" "message_valid m2"
      "map_option format_6f (lat m) = map_option format_6f (lat m2)"
      "map_option format_6f (lon m) = map_option format_6f (lon m2)"
      "get_zoom m = get_zoom m2"
    using that valid
    by (auto simp add: get_tile_id_def tile_id_for_coords_def get_zoom_def message_valid_def
        validate_source_specific_fields_def split: option.splits)
  from mb gg same show ?thesis by blast
qed

text \<open>The theorem on a Mapbox tile and on two Google messages for the same point.\<close>

theorem tile_id_is_canonical_witness:
  "message_valid mapbox_message \<and> imagery_source mapbox_message = Mapbox \<and>
   get_tile_id mapbox_message = Some ''14/8716/5378'' \<and>
   message_valid google_message \<and> message_valid google_message_again \<and>
   imagery_source google_message = Google \<and> imagery_source google_message_again = Google \<and>
   lat google_message \<noteq> lat google_message_again \<and>
   map_option format_6f (lat google_message) = map_option format_6f (lat google_message_again) \<and>
   map_option format_6f (lon google_message) = map_option format_6f (lon google_message_again) \<and>
   zoom google_message = None \<and> zoom google_message_again = Some 18 \<and>
   get_zoom google_message = get_zoom google_message_again \<and>
   get_tile_id google_message = Some ''coord:12.345678,-7.654321,18'' \<and>
   get_tile_id google_message = get_tile_id google_message_again"
proof -
  have src: "imagery_source mapbox_message = Mapbox" "imagery_source google_message = Google"
    "imagery_source google_message_again = Google"
    by (simp_all add: google_message_def google_message_again_def mapbox_message_def)
  have fields: "lat google_message \<noteq> lat google_message_again"
    "zoom google_message = None" "zoom google_message_again = Some 18"
    by (simp_all add: google_message_def google_message_again_def)
  have fmt: "map_option format_6f (lat google_message) = map_option format_6f (lat google_message_again)"
    "map_option format_6f (lon google_message) = map_option format_6f (lon google_message_again)"
    by (simp_all add: google_message_def google_message_again_def google_formats
        google_formats_normal)
  have zm: "get_zoom google_message = get_zoom google_message_again"
    by (simp add: get_zoom_def fields DEFAULT_GOOGLE_ZOOM_def)
  show ?thesis
    using tile_id_is_canonical [OF google_message_valid(1), of google_message_again]
      tile_id_is_canonical [OF mapbox_message_valid, of mapbox_message]
      google_message_valid mapbox_message_valid src fields fmt zm
    by (simp add: google_message_tile_id mapbox_message_tile_id)
qed

section \<open>The zoom attribute of a claim\<close>



section \<open>Run identifiers\<close>

lemma hex_char_is_hex: "d < 16 \<Longrightarrow> is_hex (hex_char d)"
proof -
  assume "d < 16"
  then have "d = 0 \<or> d = 1 \<or> d = 2 \<or> d = 3 \<or> d = 4 \<or> d = 5 \<or> d = 6 \<or> d = 7 \<or> d = 8 \<or> d = 9 \<or>
      d = 10 \<or> d = 11 \<or> d = 12 \<or> d = 13 \<or> d = 14 \<or> d = 15"
    by arith
  then show ?thesis
    by (elim disjE) (simp_all add: hex_char_def is_hex_def)
qed

lemma hex_padded_shape: "length (hex_padded k n) = k \<and> list_all is_hex (hex_padded k n)"
proof (induction k arbitrary: n)
  case 0
  then show ?case by simp
next
  case (Suc k)
  have "n mod 16 < 16" by simp
  from hex_char_is_hex [OF this] Suc [of "n div 16"] show ?case
    by simp
qed

lemma hexdigest_shape: "length (hexdigest st) = 40 \<and> list_all is_hex (hexdigest st)"
  by (cases st) (simp add: hexdigest_def hex_padded_shape)

text \<open>Rotation to the left as a shift to each side.\<close>

lemma word_rotl_32:
  fixes w :: "32 word"
  assumes "n < 32"
  shows "word_rotl n w = push_bit n w OR drop_bit (32 - n) w"
proof (rule bit_word_eqI)
  fix k
  assume "k < LENGTH(32)"
  then have k: "k < 32" by simp
  show "bit (word_rotl n w) k = bit (push_bit n w OR drop_bit (32 - n) w) k"
  proof (cases "n \<le> k")
    case True
    then have m: "(k + 32 - n) mod 32 = k - n"
      using k assms by (simp add: mod_if)
    have "\<not> bit w (32 - n + k)"
      using True bit_imp_le_length [of w "32 - n + k"] by auto
    then show ?thesis
      using True k assms by (simp add: bit_simps m)
  next
    case False
    then have m: "(k + 32 - n) mod 32 = 32 - n + k"
      using k assms by simp
    show ?thesis
      using False k assms by (simp add: bit_simps m)
  qed
qed

text \<open>One step of each recursion over a number, for a numeral.\<close>

lemma hex_padded_numeral:
  "hex_padded (numeral k) n = hex_padded (pred_numeral k) (n div 16) @ [hex_char (n mod 16)]"
proof -
  have "numeral k = Suc (pred_numeral k)" by (rule numeral_eq_Suc)
  then show ?thesis by (simp only: hex_padded.simps)
qed

lemma be_bytes_numeral:
  "be_bytes (numeral k) n = be_bytes (pred_numeral k) (n div 256) @ [n mod 256]"
proof -
  have "numeral k = Suc (pred_numeral k)" by (rule numeral_eq_Suc)
  then show ?thesis by (simp only: be_bytes.simps)
qed

lemma replicate_numeral_unfold:
  "replicate (numeral k) v = v # replicate (pred_numeral k) v"
proof -
  have "numeral k = Suc (pred_numeral k)" by (rule numeral_eq_Suc)
  then show ?thesis by (simp only: replicate.simps)
qed

lemma extend_schedule_numeral:
  "extend_schedule (numeral k) ws =
     extend_schedule (pred_numeral k)
       (ws @ [word_rotl 1 (ws ! (length ws - 3) XOR ws ! (length ws - 8) XOR
                           ws ! (length ws - 14) XOR ws ! (length ws - 16))])"
proof -
  have "numeral k = Suc (pred_numeral k)" by (rule numeral_eq_Suc)
  then show ?thesis by (simp only: extend_schedule.simps)
qed

lemma upt_80: "[0..<80] = 0 # Suc 0 # [2..<80]"
proof -
  have "[0..<80] = 0 # [Suc 0..<80]" by (rule upt_conv_Cons) simp
  moreover have "[Suc 0..<80] = Suc 0 # [Suc (Suc 0)..<80]" by (rule upt_conv_Cons) simp
  moreover have "Suc (Suc 0) = 2" by simp
  ultimately show ?thesis by simp
qed

text \<open>SHA-1 of the manifest's string, stage by stage.\<close>

lemma manifest_pad: "sha1_pad manifest_raw =
    [109, 97, 110, 105, 102, 101, 115, 116, 115, 58, 116, 105, 108, 101, 115, 46,
     99, 115, 118, 58, 57, 98, 50, 99, 102, 53, 51, 53, 102, 50, 55, 55,
     51, 49, 99, 57, 55, 52, 51, 52, 51, 54, 52, 53, 97, 51, 57, 56,
     53, 51, 50, 56, 128, 0, 0, 0, 0, 0, 0, 0, 0, 0, 1, 160]"
  by (simp add: sha1_pad_def manifest_raw_def Let_def be_bytes_numeral replicate_numeral_unfold)

lemma manifest_blocks:
  "map (\<lambda>blk. map be_word (chunks 4 blk)) (chunks 64 (sha1_pad manifest_raw)) = [manifest_block]"
  unfolding manifest_pad
  by (simp add: chunks.simps [of _ "_ # _"] chunks.simps [of _ "[]"] be_word_def manifest_block_def)

lemma manifest_extended: "extend_schedule 64 manifest_block = manifest_schedule"
  unfolding manifest_block_def manifest_schedule_def
  by (simp add: extend_schedule_numeral word_rotl_32)

lemma manifest_rounds:
  "foldl (sha1_round manifest_schedule)
     (0x67452301, 0xEFCDAB89, 0x98BADCFE, 0x10325476, 0xC3D2E1F0) [0 ..< 80] =
     (2482252215, 2076325100, 3334055341, 2662940438, 2718389813)"
  unfolding upt_80 manifest_schedule_def
  by (simp add: sha1_round_def word_rotl_32 Let_def)

lemma manifest_sha1: "sha1 manifest_raw = (4214836408, 1804591221, 1601471147, 2934674316, 1708800037)"
  unfolding sha1_def manifest_blocks
  by (simp add: sha1_compress_def manifest_extended manifest_rounds)

lemma manifest_hexdigest: "hexdigest (sha1 manifest_raw) = ''fb394cb86b8fe0755f7482abaeeb938c65da3825''"
  unfolding manifest_sha1
  by (simp add: hexdigest_def hex_padded_numeral hex_char_def)

lemma manifest_run_id:
  "compute_run_id ''manifests'' ''tiles.csv'' ''9b2cf535f27731c974343645a3985328'' = ''run_fb394cb86b8f''"
proof -
  have "''manifests'' @ '':'' @ ''tiles.csv'' @ '':'' @ ''9b2cf535f27731c974343645a3985328'' = manifest_raw"
    by (simp add: manifest_raw_def)
  then show ?thesis
    unfolding compute_run_id_def Let_def by (simp only: manifest_hexdigest) simp
qed

text \<open>
  C9, as amended. The run identifier that \<open>_compute_run_id\<close> gives is the string \<open>run_\<close>
  followed by the first 12 hex digits of the SHA-1 of \<open>"{bucket}:{key}:{etag}"\<close>: 16
  characters, not the 12 digits alone. \<open>main\<close> uses it unless \<open>--run-id\<close> gives
  a non-empty identifier, which it then takes as it is.
\<close>

theorem run_id_is_prefixed_digest:
  "compute_run_id bucket key etag =
     ''run_'' @ take 12 (hexdigest (sha1 (bucket @ '':'' @ key @ '':'' @ etag))) \<and>
   length (take 12 (hexdigest (sha1 (bucket @ '':'' @ key @ '':'' @ etag)))) = 12 \<and>
   list_all is_hex (take 12 (hexdigest (sha1 (bucket @ '':'' @ key @ '':'' @ etag)))) \<and>
   length (compute_run_id bucket key etag) = 16 \<and>
   main_run_id None bucket key etag = compute_run_id bucket key etag \<and>
   main_run_id (Some []) bucket key etag = compute_run_id bucket key etag \<and>
   main_run_id (Some (ch # given)) bucket key etag = ch # given"
proof -
  let ?h = "hexdigest (sha1 (bucket @ '':'' @ key @ '':'' @ etag))"
  have h: "length ?h = 40" "list_all is_hex ?h"
    using hexdigest_shape [of "sha1 (bucket @ '':'' @ key @ '':'' @ etag)"] by simp_all
  have t: "list_all is_hex (take 12 ?h)"
    using h(2) by (auto simp add: list_all_iff dest: in_set_takeD)
  show ?thesis
    using h t by (simp add: compute_run_id_def main_run_id_def Let_def)
qed

text \<open>
  C9 as stated fails: for the manifest \<open>tiles.csv\<close> of the bucket \<open>manifests\<close>
  the run identifier is \<open>run_fb394cb86b8f\<close>, and the first 12 hex digits of the SHA-1
  are \<open>fb394cb86b8f\<close>.
\<close>

theorem run_id_is_not_bare_digest:
  "compute_run_id ''manifests'' ''tiles.csv'' ''9b2cf535f27731c974343645a3985328'' =
     ''run_fb394cb86b8f'' \<and>
   take 12 (hexdigest (sha1 ''manifests:tiles.csv:9b2cf535f27731c974343645a3985328'')) =
     ''fb394cb86b8f'' \<and>
   compute_run_id ''manifests'' ''tiles.csv'' ''9b2cf535f27731c974343645a3985328'' \<noteq>
     take 12 (hexdigest (sha1 ''manifests:tiles.csv:9b2cf535f27731c974343645a3985328''))"
proof -
  have "''manifests:tiles.csv:9b2cf535f27731c974343645a3985328'' = manifest_raw"
    by (simp add: manifest_raw_def)
  then have "take 12 (hexdigest (sha1 ''manifests:tiles.csv:9b2cf535f27731c974343645a3985328'')) =
     ''fb394cb86b8f''"
    by (simp only: manifest_hexdigest) simp
  then show ?thesis
    by (simp only: manifest_run_id) simp
qed

section \<open>Retry and deadline engine\<close>

lemma time_sleep_returns:
  "time_sleep c v = Inr s \<longleftrightarrow> v = Finite s \<and> 0 \<le> s \<and> s \<le> sleep_limit c"
  by (auto simp add: time_sleep_def split: floatval.splits if_splits)

lemma retry_loop_within_deadline:
  "deadline_epoch c = Some d \<Longrightarrow>
   \<forall>e \<in> set (snd (retry_loop c i t prev)). within_deadline c d e"
proof (induction c i t prev rule: retry_loop.induct)
  case (1 c i t prev)
  show ?case
    apply (subst retry_loop.simps)
    using 1
    apply (auto simp add: within_deadline_def sleep_passes_deadline_def time_sleep_returns
        split: prod.splits sum.splits)
    done
qed

text \<open>
  C5. With a deadline \<open>d\<close>, the loop checks it before every attempt and before
  every sleep: at an attempt about to start at time \<open>t\<close> with
  \<open>d - t < min_time_for_attempt_ms / 1000\<close> it raises \<open>DeadlineExceededError\<close>
  without making the request; after a retryable response, when
  \<open>now + sleep + min_time_for_attempt_ms / 1000 > d\<close> (an infinite sleep
  included), it raises \<open>DeadlineExceededError\<close> instead of sleeping. So in every
  run each attempt starts with at least the budget left and each sleep ends no later than
  \<open>d - min_time_for_attempt_ms / 1000\<close>.
\<close>

theorem deadline_checked_before_attempt_and_sleep:
  assumes dl: "deadline_epoch c = Some d"
  shows
    "(int i \<le> max_attempts c \<and> d - t < min_time_for_attempt_ms c / 1000 \<longrightarrow>
        retry_loop c i t prev = (Inl (DeadlineExceededError ((d - t) * 1000)), [])) \<and>
     (int i < max_attempts c \<and> \<not> d - t < min_time_for_attempt_ms c / 1000 \<and>
      replies c i = (Inr resp, dt) \<and> status_code resp \<in> set (retryable_status c) \<and>
      (sleep_for c i resp = Finite s \<and> d < (t + dt) + s + min_time_for_attempt_ms c / 1000 \<or>
       sleep_for c i resp = PosInf) \<longrightarrow>
        retry_loop c i t prev =
          (Inl (DeadlineExceededError ((d - (t + dt)) * 1000)), [Attempt i t])) \<and>
     (\<forall>e \<in> set (snd (request_with_retry c t0)). within_deadline c d e)"
proof -
  have lt: "(d - t) * 1000 < min_time_for_attempt_ms c \<longleftrightarrow> d - t < min_time_for_attempt_ms c / 1000"
    by (simp add: field_simps)
  have a: "retry_loop c i t prev = (Inl (DeadlineExceededError ((d - t) * 1000)), [])"
    if "int i \<le> max_attempts c" "d - t < min_time_for_attempt_ms c / 1000"
    using that lt by (subst retry_loop.simps) (simp add: dl)
  have b: "retry_loop c i t prev =
          (Inl (DeadlineExceededError ((d - (t + dt)) * 1000)), [Attempt i t])"
    if "int i < max_attempts c" "\<not> d - t < min_time_for_attempt_ms c / 1000"
      "replies c i = (Inr resp, dt)" "status_code resp \<in> set (retryable_status c)"
      "sleep_for c i resp = Finite s \<and> d < (t + dt) + s + min_time_for_attempt_ms c / 1000 \<or>
       sleep_for c i resp = PosInf"
    using that lt by (subst retry_loop.simps) (auto simp add: dl sleep_passes_deadline_def)
  show ?thesis
    using a b retry_loop_within_deadline [OF dl, of 1 t0 None]
    by (simp add: request_with_retry_def)
qed

lemma sleep_for_specified:
  "float_of c [] = None \<Longrightarrow> sleep_for c i r = specified_sleep c i r"
  by (simp add: sleep_for_def specified_sleep_def backoff_def split: option.splits)

lemma retry_loop_retryable:
  assumes "replies c i = (Inr r, dt)" "status_code r \<in> set (retryable_status c)"
  shows "retry_loop c i t prev =
     (if max_attempts c < int i then (loop_end c prev, [])
      else if (case deadline_epoch c of
                 None \<Rightarrow> False
               | Some d \<Rightarrow> (d - t) * 1000 < min_time_for_attempt_ms c)
      then (Inl (DeadlineExceededError
                   (((case deadline_epoch c of Some d \<Rightarrow> d | None \<Rightarrow> 0) - t) * 1000)), [])
      else if max_attempts c \<le> int i then (loop_end c (Some r), [Attempt i t])
      else if (case deadline_epoch c of
                 None \<Rightarrow> False
               | Some d \<Rightarrow> sleep_passes_deadline (t + dt) (sleep_for c i r)
                             (min_time_for_attempt_ms c / 1000) d)
      then (Inl (DeadlineExceededError
                   (((case deadline_epoch c of Some d \<Rightarrow> d | None \<Rightarrow> 0) - (t + dt)) * 1000)),
            [Attempt i t])
      else (case time_sleep c (sleep_for c i r) of
              Inl err \<Rightarrow> (Inl err, [Attempt i t])
            | Inr s \<Rightarrow>
                (fst (retry_loop c (Suc i) ((t + dt) + s) (Some r)),
                 Attempt i t # Sleep i (t + dt) s #
                 snd (retry_loop c (Suc i) ((t + dt) + s) (Some r)))))"
  by (subst retry_loop.simps) (simp add: assms split: prod.splits sum.splits)

text \<open>An attempt that is allowed and has the budget is made.\<close>

lemma retry_loop_starts:
  assumes "int i \<le> max_attempts c"
    and "\<not> (case deadline_epoch c of
                 None \<Rightarrow> False
               | Some d \<Rightarrow> (d - t) * 1000 < min_time_for_attempt_ms c)"
  shows "\<exists>es. snd (retry_loop c i t prev) = Attempt i t # es"
  using assms
  by (subst retry_loop.simps) (auto split: prod.splits sum.splits)

lemma retry_loop_paced:
  assumes all: "\<forall>j. fst (replies c j) = Inr (resp j) \<and> status_code (resp j) \<in> set (retryable_status c)"
    and empty: "float_of c [] = None"
  shows "paced c resp i t (snd (retry_loop c i t prev))"
proof (induction "nat (max_attempts c - int i)" arbitrary: i t prev rule: less_induct)
  case less
  have r: "replies c i = (Inr (resp i), snd (replies c i))"
    using all by (metis prod.collapse)
  have st: "status_code (resp i) \<in> set (retryable_status c)"
    using all by simp
  note step = retry_loop_retryable [OF r st, of t prev]
  define dt where "dt = snd (replies c i)"
  show ?case
  proof (cases "time_sleep c (sleep_for c i (resp i))")
    case (Inl err)
    then show ?thesis unfolding step by simp
  next
    case (Inr s)
    then have v: "specified_sleep c i (resp i) = Finite s"
      by (simp add: time_sleep_returns sleep_for_specified [OF empty])
    let ?next = "retry_loop c (Suc i) ((t + snd (replies c i)) + s) (Some (resp i))"
    show ?thesis
    proof (cases "int i < max_attempts c \<and>
        \<not> (case deadline_epoch c of None \<Rightarrow> False
           | Some d \<Rightarrow> (d - t) * 1000 < min_time_for_attempt_ms c) \<and>
        \<not> (case deadline_epoch c of None \<Rightarrow> False
           | Some d \<Rightarrow> sleep_passes_deadline (t + snd (replies c i)) (sleep_for c i (resp i))
                         (min_time_for_attempt_ms c / 1000) d)")
      case True
      then have lt: "nat (max_attempts c - int (Suc i)) < nat (max_attempts c - int i)"
        by simp
      have ok: "\<not> (case deadline_epoch c of None \<Rightarrow> False
           | Some d \<Rightarrow> (d - ((t + snd (replies c i)) + s)) * 1000 < min_time_for_attempt_ms c)"
        using True Inr
        by (auto simp add: sleep_passes_deadline_def time_sleep_returns field_simps
            split: option.splits)
      from retry_loop_starts [OF _ ok, of "Suc i" "Some (resp i)"] True
      obtain es where es: "snd ?next = Attempt (Suc i) ((t + snd (replies c i)) + s) # es"
        by auto
      have "paced c resp (Suc i) ((t + snd (replies c i)) + s) (snd ?next)"
        by (rule less.hyps [OF lt])
      then show ?thesis
        unfolding step using True Inr v es by simp
    next
      case False
      then show ?thesis unfolding step by (auto simp add: Inr)
    qed
  qed
qed

lemma paced_attempts:
  "paced c resp i t evs \<Longrightarrow> attempts evs = [i ..< i + length (attempts evs)]"
proof (induction c resp i t evs rule: paced.induct)
  case (1 c resp i t)
  then show ?case by simp
next
  case (2 c resp i t e)
  then show ?case by simp
next
  case (3 c resp i t e e' es)
  then obtain u s where e: "e = Attempt i t" "e' = Sleep i u s"
    and p: "paced c resp (Suc i) (u + s) es"
    by (auto split: event.splits)
  define n where "n = length (attempts es)"
  from "3.IH" [OF e(2)] p have a: "attempts es = [Suc i ..< Suc i + n]"
    unfolding n_def by simp
  have "[i ..< i + Suc n] = i # [Suc i ..< Suc i + n]"
    by (rule trans [OF upt_conv_Cons]) simp_all
  with a have "i # attempts es = [i ..< i + Suc n]"
    by simp
  then show ?case
    using e unfolding n_def by simp
qed

lemma paced_sleeps:
  "paced c resp i t evs \<Longrightarrow>
   \<forall>(j, s) \<in> set (sleeps evs). specified_sleep c j (resp j) = Finite s \<and> int j < max_attempts c"
proof (induction c resp i t evs rule: paced.induct)
  case (1 c resp i t)
  then show ?case by simp
next
  case (2 c resp i t e)
  then show ?case by simp
next
  case (3 c resp i t e e' es)
  then obtain u s where e: "e = Attempt i t" "e' = Sleep i u s"
    and p: "paced c resp (Suc i) (u + s) es"
    and v: "specified_sleep c i (resp i) = Finite s" "int i < max_attempts c"
    by (auto split: event.splits)
  from "3.IH" [OF e(2)] p v show ?case
    using e by auto
qed

lemma retry_loop_stops:
  assumes all: "\<forall>j. fst (replies c j) = Inr (resp j) \<and> status_code (resp j) \<in> set (retryable_status c)"
    and empty: "float_of c [] = None"
  shows "1 \<le> i \<Longrightarrow> int i \<le> max_attempts c \<Longrightarrow>
    stops_as c resp (i - 1 + length (attempts (snd (retry_loop c i t prev))))
      (fst (retry_loop c i t prev))"
proof (induction "nat (max_attempts c - int i)" arbitrary: i t prev rule: less_induct)
  case less
  have r: "replies c i = (Inr (resp i), snd (replies c i))"
    using all by (metis prod.collapse)
  have st: "status_code (resp i) \<in> set (retryable_status c)"
    using all by simp
  note step = retry_loop_retryable [OF r st, of t prev]
  note sp = sleep_for_specified [OF empty]
  define blocked where "blocked =
    (case deadline_epoch c of None \<Rightarrow> False
     | Some d \<Rightarrow> (d - t) * 1000 < min_time_for_attempt_ms c)"
  define passes where "passes =
    (case deadline_epoch c of None \<Rightarrow> False
     | Some d \<Rightarrow> sleep_passes_deadline (t + snd (replies c i)) (sleep_for c i (resp i))
                   (min_time_for_attempt_ms c / 1000) d)"
  have i1: "i - 1 + Suc 0 = i" "int (i - 1) < max_attempts c" "1 \<le> i" "\<not> max_attempts c < int i"
    using less.prems by simp_all
  consider (A) blocked
    | (B) "\<not> blocked" "int i = max_attempts c"
    | (C) "\<not> blocked" "int i < max_attempts c" passes
    | (D) err where "\<not> blocked" "int i < max_attempts c" "\<not> passes"
        "time_sleep c (sleep_for c i (resp i)) = Inl err"
    | (E) s where "\<not> blocked" "int i < max_attempts c" "\<not> passes"
        "time_sleep c (sleep_for c i (resp i)) = Inr s"
    using less.prems by (cases "time_sleep c (sleep_for c i (resp i))") force+
  then show ?case
  proof cases
    case A
    then have dl: "deadline_epoch c \<noteq> None"
      by (auto simp add: blocked_def split: option.splits)
    have "retry_loop c i t prev =
        (Inl (DeadlineExceededError
                   (((case deadline_epoch c of Some d \<Rightarrow> d | None \<Rightarrow> 0) - t) * 1000)), [])"
      unfolding step using A i1 by (simp add: blocked_def)
    then show ?thesis
      using dl i1 by (simp add: stops_as_def)
  next
    case B
    have "retry_loop c i t prev = (loop_end c (Some (resp i)), [Attempt i t])"
      unfolding step using B i1 by (simp add: blocked_def)
    then show ?thesis
      using B i1 by (simp add: stops_as_def loop_end_def)
  next
    case C
    then have dl: "deadline_epoch c \<noteq> None"
      by (auto simp add: passes_def split: option.splits)
    have "retry_loop c i t prev = (Inl (DeadlineExceededError
                   (((case deadline_epoch c of Some d \<Rightarrow> d | None \<Rightarrow> 0) - (t + snd (replies c i))) * 1000)),
            [Attempt i t])"
      unfolding step using C i1 by (simp add: blocked_def passes_def)
    then show ?thesis
      using dl C i1 by (simp add: stops_as_def)
  next
    case D
    have e: "err = SleepValueError \<or> err = SleepOverflowError"
      using D(4) by (auto simp add: time_sleep_def split: floatval.splits if_splits)
    have "retry_loop c i t prev = (Inl err, [Attempt i t])"
      unfolding step using D i1 by (simp add: blocked_def passes_def)
    then show ?thesis
      using e D i1 by (auto simp add: stops_as_def sp)
  next
    case E
    let ?next = "retry_loop c (Suc i) ((t + snd (replies c i)) + s) (Some (resp i))"
    from E have lt: "nat (max_attempts c - int (Suc i)) < nat (max_attempts c - int i)"
      and le: "int (Suc i) \<le> max_attempts c"
      by simp_all
    have ih: "stops_as c resp (Suc i - 1 + length (attempts (snd ?next))) (fst ?next)"
      by (rule less.hyps [OF lt _ le]) simp
    have eq: "retry_loop c i t prev = (fst ?next, Attempt i t # Sleep i (t + snd (replies c i)) s # snd ?next)"
      unfolding step using E i1 by (simp add: blocked_def passes_def)
    have n: "i - 1 + length (attempts (Attempt i t # Sleep i (t + snd (replies c i)) s # snd ?next)) =
        Suc i - 1 + length (attempts (snd ?next))"
      using less.prems by simp
    show ?thesis
      using ih unfolding eq snd_conv fst_conv n .
  qed
qed

text \<open>With valid sleeps and time enough, every attempt is made.\<close>

lemma retry_loop_runs_out:
  assumes all: "\<forall>j. fst (replies c j) = Inr (resp j) \<and> status_code (resp j) \<in> set (retryable_status c)"
    and empty: "float_of c [] = None"
    and ok: "\<forall>j. 1 \<le> j \<and> int j < max_attempts c \<longrightarrow> sleepable c (specified_sleep c j (resp j))"
    and time: "deadline_epoch c = None \<or>
        (\<forall>j. 0 \<le> snd (replies c j)) \<and>
        (\<exists>d. deadline_epoch c = Some d \<and>
           t + (\<Sum>j = i ..< nat (max_attempts c). snd (replies c j) + seconds (specified_sleep c j (resp j))) +
           min_time_for_attempt_ms c / 1000 \<le> d)"
  shows "1 \<le> i \<Longrightarrow> int i \<le> max_attempts c \<Longrightarrow>
    attempts (snd (retry_loop c i t prev)) = [i ..< Suc (nat (max_attempts c))] \<and>
    sleeps (snd (retry_loop c i t prev)) =
      map (\<lambda>j. (j, seconds (specified_sleep c j (resp j)))) [i ..< nat (max_attempts c)] \<and>
    fst (retry_loop c i t prev) =
      Inl (RetryExhaustedError (resp (nat (max_attempts c))) (max_attempts c))"
  using time
proof (induction "nat (max_attempts c - int i)" arbitrary: i t prev rule: less_induct)
  case less
  have r: "replies c i = (Inr (resp i), snd (replies c i))"
    using all by (metis prod.collapse)
  have st: "status_code (resp i) \<in> set (retryable_status c)"
    using all by simp
  note step = retry_loop_retryable [OF r st, of t prev]
  note sp = sleep_for_specified [OF empty]
  define dt where "dt = snd (replies c i)"
  define m where "m = nat (max_attempts c)"
  define w where "w = (\<lambda>j. snd (replies c j) + seconds (specified_sleep c j (resp j)))"
  have mi: "max_attempts c = int m" "i \<le> m"
    using less.prems by (simp_all add: m_def)
  have nn: "0 \<le> w j" if "i \<le> j" "j < m" "deadline_epoch c \<noteq> None" for j
  proof -
    from that less.prems ok have "sleepable c (specified_sleep c j (resp j))"
      by (simp add: mi)
    then have "0 \<le> seconds (specified_sleep c j (resp j))"
      by (auto simp add: sleepable_def seconds_def split: floatval.splits)
    moreover have "0 \<le> snd (replies c j)"
      using less.prems(3) that by auto
    ultimately show ?thesis by (simp add: w_def)
  qed
  have sum_nn: "0 \<le> (\<Sum>j = k ..< m. w j)" if "i \<le> k" "deadline_epoch c \<noteq> None" for k
    using nn that by (intro sum_nonneg) auto
  have nb: "\<not> (case deadline_epoch c of None \<Rightarrow> False
     | Some d \<Rightarrow> (d - t) * 1000 < min_time_for_attempt_ms c)"
  proof (cases "deadline_epoch c")
    case None
    then show ?thesis by simp
  next
    case (Some d)
    with less.prems(3) have "t + (\<Sum>j = i ..< m. w j) + min_time_for_attempt_ms c / 1000 \<le> d"
      by (simp add: m_def w_def)
    moreover have "0 \<le> (\<Sum>j = i ..< m. w j)"
      using sum_nn [of i] Some by simp
    ultimately show ?thesis
      using Some by (simp add: field_simps)
  qed
  show ?case
  proof (cases "i = m")
    case True
    have "retry_loop c i t prev = (loop_end c (Some (resp i)), [Attempt i t])"
      unfolding step using True nb mi less.prems by simp
    then show ?thesis
      using True less.prems by (simp add: loop_end_def m_def [symmetric] mi)
  next
    case False
    with mi have im: "i < m" by simp
    then have up: "[i ..< Suc m] = i # [Suc i ..< Suc m]" "[i ..< m] = i # [Suc i ..< m]"
      by (simp_all add: upt_conv_Cons)
    from im less.prems ok have sl: "sleepable c (specified_sleep c i (resp i))"
      by (simp add: mi)
    then obtain s where s: "specified_sleep c i (resp i) = Finite s" "0 \<le> s" "s \<le> sleep_limit c"
      by (auto simp add: sleepable_def split: floatval.splits)
    then have ts: "time_sleep c (sleep_for c i (resp i)) = Inr s"
      by (simp add: sp time_sleep_returns)
    have sec: "seconds (specified_sleep c i (resp i)) = s"
      using s by (simp add: seconds_def)
    have split_sum: "(\<Sum>j = i ..< m. w j) = w i + (\<Sum>j = Suc i ..< m. w j)"
      using im by (simp add: sum.atLeast_Suc_lessThan)
    have wi: "w i = dt + s"
      by (simp add: w_def dt_def sec)
    have np: "\<not> (case deadline_epoch c of None \<Rightarrow> False
       | Some d \<Rightarrow> sleep_passes_deadline (t + snd (replies c i)) (sleep_for c i (resp i))
                     (min_time_for_attempt_ms c / 1000) d)"
    proof (cases "deadline_epoch c")
      case None
      then show ?thesis by simp
    next
      case (Some d)
      with less.prems(3) have "t + (\<Sum>j = i ..< m. w j) + min_time_for_attempt_ms c / 1000 \<le> d"
        by (simp add: m_def w_def)
      moreover have "0 \<le> (\<Sum>j = Suc i ..< m. w j)"
        using sum_nn [of "Suc i"] Some by simp
      ultimately show ?thesis
        using Some s by (simp add: sleep_passes_deadline_def sp split_sum wi dt_def)
    qed
    let ?next = "retry_loop c (Suc i) ((t + snd (replies c i)) + s) (Some (resp i))"
    have eq: "retry_loop c i t prev = (fst ?next, Attempt i t # Sleep i (t + snd (replies c i)) s # snd ?next)"
      unfolding step using nb np ts im mi by simp
    have lt: "nat (max_attempts c - int (Suc i)) < nat (max_attempts c - int i)"
      and le: "int (Suc i) \<le> max_attempts c"
      using im mi by simp_all
    have time': "deadline_epoch c = None \<or>
        (\<forall>j. 0 \<le> snd (replies c j)) \<and>
        (\<exists>d. deadline_epoch c = Some d \<and>
           ((t + snd (replies c i)) + s) + (\<Sum>j = Suc i ..< nat (max_attempts c). snd (replies c j) + seconds (specified_sleep c j (resp j))) +
           min_time_for_attempt_ms c / 1000 \<le> d)"
    proof (cases "deadline_epoch c")
      case None
      then show ?thesis by simp
    next
      case (Some d)
      with less.prems(3) have "t + (\<Sum>j = i ..< m. w j) + min_time_for_attempt_ms c / 1000 \<le> d"
        and "\<forall>j. 0 \<le> snd (replies c j)"
        by (simp_all add: m_def w_def)
      then show ?thesis
        using Some by (simp add: split_sum wi dt_def m_def [symmetric]) (simp add: w_def)
    qed
    have ih: "attempts (snd ?next) = [Suc i ..< Suc (nat (max_attempts c))] \<and>
      sleeps (snd ?next) =
        map (\<lambda>j. (j, seconds (specified_sleep c j (resp j)))) [Suc i ..< nat (max_attempts c)] \<and>
      fst ?next = Inl (RetryExhaustedError (resp (nat (max_attempts c))) (max_attempts c))"
      by (rule less.hyps [OF lt _ le time']) simp
    show ?thesis
      using ih im unfolding eq snd_conv fst_conv m_def [symmetric] up
      by (simp add: sec)
  qed
qed

lemma always_503_fields:
  "float_of always_503 h = (if h = ''7'' then Some (Finite 7) else None)"
  "replies always_503 i = (Inr \<lparr> status_code = 503, retry_after = (if i = 2 then Some ''7'' else None) \<rparr>, 1 / 10)"
  "retryable_status always_503 = [429, 500, 502, 503, 504]"
  "max_attempts always_503 = 3" "backoff_base always_503 = 1 / 2"
  "deadline_epoch always_503 = None" "min_time_for_attempt_ms always_503 = 5000"
  "sleep_limit always_503 = 9223372036"
  by (simp_all add: always_503_def RETRYABLE_STATUS_def)

lemma always_503_sleeps:
  "sleep_for (always_503 \<lparr> deadline_epoch := dl \<rparr>) (Suc 0)
     \<lparr> status_code = 503, retry_after = None \<rparr> = Finite (1 / 2)"
  "sleep_for (always_503 \<lparr> deadline_epoch := dl \<rparr>) 2
     \<lparr> status_code = 503, retry_after = Some ''7'' \<rparr> = Finite 7"
  "sleep_for (always_503 \<lparr> deadline_epoch := dl \<rparr>) (Suc (Suc 0))
     \<lparr> status_code = 503, retry_after = Some ''7'' \<rparr> = Finite 7"
  by (simp_all add: sleep_for_def backoff_def always_503_fields)

lemma always_503_slept:
  "time_sleep (always_503 \<lparr> deadline_epoch := dl \<rparr>) (Finite (1 / 2)) = Inr (1 / 2)"
  "time_sleep (always_503 \<lparr> deadline_epoch := dl \<rparr>) (Finite 7) = Inr 7"
  by (simp_all add: time_sleep_def always_503_fields)

lemma tight_deadline_run:
  "request_with_retry (always_503 \<lparr> deadline_epoch := Some 6 \<rparr>) 0 =
     (Inl (DeadlineExceededError 5300), [Attempt 1 0, Sleep 1 (1 / 10) (1 / 2), Attempt 2 (3 / 5)])"
  by (simp add: request_with_retry_def retry_loop.simps [of _ 1] retry_loop.simps [of _ "Suc 1"]
      retry_loop.simps [of _ "Suc (Suc 0)"] retry_loop.simps [of _ "Suc 0"]
      always_503_fields always_503_sleeps always_503_slept sleep_passes_deadline_def)

lemma loose_deadline_run:
  "request_with_retry (always_503 \<lparr> deadline_epoch := Some 20 \<rparr>) 0 =
     (Inl (RetryExhaustedError \<lparr> status_code = 503, retry_after = None \<rparr> 3),
      [Attempt 1 0, Sleep 1 (1 / 10) (1 / 2), Attempt 2 (3 / 5), Sleep 2 (7 / 10) 7,
       Attempt 3 (77 / 10)])"
  by (simp add: request_with_retry_def retry_loop.simps [of _ 1] retry_loop.simps [of _ "Suc 1"]
      retry_loop.simps [of _ "Suc (Suc 0)"] retry_loop.simps [of _ "Suc 0"]
      retry_loop.simps [of _ "Suc (Suc (Suc 0))"] retry_loop.simps [of _ 2] retry_loop.simps [of _ 3]
      retry_loop.simps [of _ "Suc 2"]
      always_503_fields always_503_sleeps always_503_slept sleep_passes_deadline_def loop_end_def)

text \<open>The theorem on a provider that answers 503, with six seconds to the deadline.\<close>

theorem deadline_checked_before_attempt_and_sleep_witness:
  "deadline_epoch (always_503 \<lparr> deadline_epoch := Some 6 \<rparr>) = Some 6 \<and>
   retry_loop (always_503 \<lparr> deadline_epoch := Some 6 \<rparr>) 1 2 None =
     (Inl (DeadlineExceededError 4000), []) \<and>
   request_with_retry (always_503 \<lparr> deadline_epoch := Some 6 \<rparr>) 0 =
     (Inl (DeadlineExceededError 5300), [Attempt 1 0, Sleep 1 (1 / 10) (1 / 2), Attempt 2 (3 / 5)]) \<and>
   within_deadline (always_503 \<lparr> deadline_epoch := Some 6 \<rparr>) 6 (Sleep 1 (1 / 10) (1 / 2)) \<and>
   within_deadline (always_503 \<lparr> deadline_epoch := Some 6 \<rparr>) 6 (Attempt 2 (3 / 5))"
proof -
  have dl: "deadline_epoch (always_503 \<lparr> deadline_epoch := Some 6 \<rparr>) = Some 6"
    by simp
  show ?thesis
    using deadline_checked_before_attempt_and_sleep [OF dl, where i = 1 and t = 2 and prev = None
        and ?t0.0 = 0]
    by (simp add: tight_deadline_run always_503_fields)
qed

text \<open>
  C6. Take any run in which every response has a retryable status, with at least one
  attempt allowed, with or without a deadline. Its trace is paced: the attempts are
  \<open>1\<close>, \<open>2\<close>, ... in order, each attempt but the last of the trace is followed
  by a sleep begun when the request returns, each sleep is followed by the next attempt,
  begun when the sleep returns, and the sleep after attempt \<open>i\<close> lasts
  \<open>backoff_base \<sqdot> 2\<^sup>i\<^sup>-\<^sup>1\<close> seconds unless the response has a
  \<open>Retry-After\<close> header that parses as a float, in which case it lasts that value;
  there is no sleep after attempt \<open>max_retries\<close>. The run never returns a
  response: it raises \<open>RetryExhaustedError\<close> carrying the response to attempt
  \<open>max_retries\<close> exactly when it made \<open>max_retries\<close> attempts, and it stops
  earlier only with \<open>DeadlineExceededError\<close>, when a deadline is set, or with the
  error \<open>time.sleep\<close> raises for the specified sleep (a negative, not-a-number,
  infinite or too large \<open>Retry-After\<close>). When every specified sleep is one
  \<open>time.sleep\<close> accepts, and there is no deadline or the deadline leaves room for
  the requests, the sleeps and the budget of the last attempt, the run makes all
  \<open>max_retries\<close> attempts with exactly the specified sleeps in between and raises
  \<open>RetryExhaustedError\<close>.
\<close>

theorem retryable_run_backs_off_and_exhausts:
  assumes all: "\<forall>j. fst (replies c j) = Inr (resp j) \<and> status_code (resp j) \<in> set (retryable_status c)"
    and pos: "1 \<le> max_attempts c"
    and empty: "float_of c [] = None"
  shows
    "paced c resp 1 t0 (snd (request_with_retry c t0)) \<and>
     (\<forall>(j, s) \<in> set (sleeps (snd (request_with_retry c t0))).
        specified_sleep c j (resp j) = Finite s \<and> int j < max_attempts c) \<and>
     attempts (snd (request_with_retry c t0)) =
       [1 ..< Suc (length (attempts (snd (request_with_retry c t0))))] \<and>
     stops_as c resp (length (attempts (snd (request_with_retry c t0))))
       (fst (request_with_retry c t0)) \<and>
     ((\<forall>j. 1 \<le> j \<and> int j < max_attempts c \<longrightarrow> sleepable c (specified_sleep c j (resp j))) \<and>
      (deadline_epoch c = None \<or>
       (\<forall>j. 0 \<le> snd (replies c j)) \<and>
       (\<exists>d. deadline_epoch c = Some d \<and>
          t0 + (\<Sum>j = 1 ..< nat (max_attempts c).
                  snd (replies c j) + seconds (specified_sleep c j (resp j))) +
          min_time_for_attempt_ms c / 1000 \<le> d)) \<longrightarrow>
        attempts (snd (request_with_retry c t0)) = [1 ..< Suc (nat (max_attempts c))] \<and>
        sleeps (snd (request_with_retry c t0)) =
          map (\<lambda>j. (j, seconds (specified_sleep c j (resp j)))) [1 ..< nat (max_attempts c)] \<and>
        fst (request_with_retry c t0) =
          Inl (RetryExhaustedError (resp (nat (max_attempts c))) (max_attempts c)))"
proof -
  have p: "paced c resp 1 t0 (snd (retry_loop c 1 t0 None))"
    by (rule retry_loop_paced [OF all empty])
  have a: "attempts (snd (retry_loop c 1 t0 None)) =
       [1 ..< Suc (length (attempts (snd (retry_loop c 1 t0 None))))]"
    using paced_attempts [OF p] by simp
  have s: "stops_as c resp (length (attempts (snd (retry_loop c 1 t0 None))))
       (fst (retry_loop c 1 t0 None))"
    using retry_loop_stops [OF all empty, of 1 t0 None] pos by simp
  have r: "attempts (snd (retry_loop c 1 t0 None)) = [1 ..< Suc (nat (max_attempts c))] \<and>
        sleeps (snd (retry_loop c 1 t0 None)) =
          map (\<lambda>j. (j, seconds (specified_sleep c j (resp j)))) [1 ..< nat (max_attempts c)] \<and>
        fst (retry_loop c 1 t0 None) =
          Inl (RetryExhaustedError (resp (nat (max_attempts c))) (max_attempts c))"
    if ok: "\<forall>j. 1 \<le> j \<and> int j < max_attempts c \<longrightarrow> sleepable c (specified_sleep c j (resp j))"
      and time: "deadline_epoch c = None \<or>
       (\<forall>j. 0 \<le> snd (replies c j)) \<and>
       (\<exists>d. deadline_epoch c = Some d \<and>
          t0 + (\<Sum>j = 1 ..< nat (max_attempts c).
                  snd (replies c j) + seconds (specified_sleep c j (resp j))) +
          min_time_for_attempt_ms c / 1000 \<le> d)"
    using retry_loop_runs_out [OF all empty ok time _ pos [unfolded of_nat_1 [symmetric, where 'a = int]], of None]
    by simp
  show ?thesis
    unfolding request_with_retry_def
    using p paced_sleeps [OF p] a s r by blast
qed

text \<open>The theorem on the same provider with twenty seconds to the deadline.\<close>

theorem retryable_run_backs_off_and_exhausts_witness:
  "(1::int) \<le> max_attempts (always_503 \<lparr> deadline_epoch := Some 20 \<rparr>) \<and>
   float_of (always_503 \<lparr> deadline_epoch := Some 20 \<rparr>) [] = None \<and>
   request_with_retry (always_503 \<lparr> deadline_epoch := Some 20 \<rparr>) 0 =
     (Inl (RetryExhaustedError \<lparr> status_code = 503, retry_after = None \<rparr> 3),
      [Attempt 1 0, Sleep 1 (1 / 10) (1 / 2), Attempt 2 (3 / 5), Sleep 2 (7 / 10) 7,
       Attempt 3 (77 / 10)]) \<and>
   attempts (snd (request_with_retry (always_503 \<lparr> deadline_epoch := Some 20 \<rparr>) 0)) = [1, 2, 3] \<and>
   sleeps (snd (request_with_retry (always_503 \<lparr> deadline_epoch := Some 20 \<rparr>) 0)) =
     [(1, 1 / 2), (2, 7)] \<and>
   stops_as (always_503 \<lparr> deadline_epoch := Some 20 \<rparr>)
     (\<lambda>j. \<lparr> status_code = 503, retry_after = (if j = 2 then Some ''7'' else None) \<rparr>) 3
     (fst (request_with_retry (always_503 \<lparr> deadline_epoch := Some 20 \<rparr>) 0))"
proof -
  let ?c = "always_503 \<lparr> deadline_epoch := Some 20 \<rparr>"
  let ?resp = "\<lambda>j::nat. \<lparr> status_code = 503, retry_after = (if j = 2 then Some ''7'' else None) \<rparr>"
  have all: "\<forall>j. fst (replies ?c j) = Inr (?resp j) \<and>
      status_code (?resp j) \<in> set (retryable_status ?c)"
    by (simp add: always_503_fields)
  have pos: "1 \<le> max_attempts ?c" and empty: "float_of ?c [] = None"
    by (simp_all add: always_503_fields)
  show ?thesis
    using retryable_run_backs_off_and_exhausts [OF all pos empty, of 0] pos empty
    by (simp add: loose_deadline_run stops_as_def always_503_fields)
qed

end
